(* ===== verification/Prelude.thy ===== *)
theory Prelude
  imports Main "HOL-Library.List_Lexorder" "HOL-Library.Char_ord" "HOL-Library.Sublist"
begin

text \<open>
  What every component shares: machine integers written out over \<open>nat\<close>, the outcome of a
  fallible call, the state-and-error monad in which the mutating methods are written together
  with its weakest-precondition calculus, ordered maps (Rust's \<open>BTreeMap\<close>) as sorted
  association lists behind the interface \<open>ordered_map\<close>, and the byte-string functions of the
  Rust standard library that the components use.
\<close>

named_theorems wp_simps \<open>equations of the weakest-precondition calculus\<close>

section \<open>Machine integers\<close>

type_synonym u8 = nat
type_synonym u16 = nat
type_synonym u32 = nat
type_synonym u64 = nat
type_synonym usize = nat
type_synonym i64 = int

definition u64_max :: u64 where
  "u64_max = 18446744073709551615"

definition checked_add_u64 :: "u64 \<Rightarrow> u64 \<Rightarrow> u64 option" where
  "checked_add_u64 a b = (if a + b \<le> u64_max then Some (a + b) else None)"

definition saturating_add_u64 :: "u64 \<Rightarrow> u64 \<Rightarrow> u64" where
  "saturating_add_u64 a b = min (a + b) u64_max"

definition checked_sub_u64 :: "u64 \<Rightarrow> u64 \<Rightarrow> u64 option" where
  "checked_sub_u64 a b = (if b \<le> a then Some (a - b) else None)"

definition wrapping_add_u64 :: "u64 \<Rightarrow> u64 \<Rightarrow> u64" where
  "wrapping_add_u64 a b = (a + b) mod (u64_max + 1)"

lemma checked_add_u64_Some [simp]:
  "checked_add_u64 a b = Some c \<longleftrightarrow> c = a + b \<and> a + b \<le> u64_max"
  by (auto simp: checked_add_u64_def)

lemma checked_add_u64_None [simp]: "checked_add_u64 a b = None \<longleftrightarrow> u64_max < a + b"
  by (auto simp: checked_add_u64_def)

lemma checked_sub_u64_Some [simp]:
  "checked_sub_u64 a b = Some c \<longleftrightarrow> b \<le> a \<and> c = a - b"
  by (auto simp: checked_sub_u64_def)

lemma wrapping_add_u64_neq: "a \<le> u64_max \<Longrightarrow> wrapping_add_u64 a 1 \<noteq> a"
  by (cases "a = u64_max") (simp_all add: wrapping_add_u64_def u64_max_def)

section \<open>Ordered maps\<close>

text \<open>
  A \<open>BTreeMap\<close> iterates in key order, and several methods of the relay depend on it (the first
  pending close, ties between equal ordinals). It is an association list sorted by key. Byte
  strings are compared lexicographically by byte, as Rust compares \<open>String\<close>s.
\<close>

type_synonym ('k, 'v) btree = "('k \<times> 'v) list"

definition bt_wf :: "('k::linorder, 'v) btree \<Rightarrow> bool" where
  "bt_wf m \<longleftrightarrow> sorted_wrt (<) (map fst m)"

definition bt_get :: "('k, 'v) btree \<Rightarrow> 'k \<Rightarrow> 'v option" where
  "bt_get m k = map_of m k"

fun bt_insert :: "'k::linorder \<Rightarrow> 'v \<Rightarrow> ('k, 'v) btree \<Rightarrow> ('k, 'v) btree" where
  "bt_insert k v [] = [(k, v)]"
| "bt_insert k v ((a, b) # m) =
     (if k < a then (k, v) # (a, b) # m
      else if k = a then (k, v) # m
      else (a, b) # bt_insert k v m)"

definition bt_remove :: "'k \<Rightarrow> ('k, 'v) btree \<Rightarrow> ('k, 'v) btree" where
  "bt_remove k m = filter (\<lambda>p. fst p \<noteq> k) m"

text \<open>\<open>if let Some(v) = m.get_mut(k)\<close> followed by an assignment through \<open>v\<close>.\<close>

definition bt_modify :: "'k \<Rightarrow> ('v \<Rightarrow> 'v) \<Rightarrow> ('k, 'v) btree \<Rightarrow> ('k, 'v) btree" where
  "bt_modify k f m = map (\<lambda>(a, b). (a, if a = k then f b else b)) m"

definition bt_contains :: "('k, 'v) btree \<Rightarrow> 'k \<Rightarrow> bool" where
  "bt_contains m k \<longleftrightarrow> bt_get m k \<noteq> None"

definition bt_values :: "('k, 'v) btree \<Rightarrow> 'v list" where
  "bt_values m = map snd m"

text \<open>The interface the components rely on: what a lookup returns after each update.\<close>

locale ordered_map =
  fixes wf :: "'m \<Rightarrow> bool"
    and empty :: "'m"
    and get :: "'m \<Rightarrow> 'k \<Rightarrow> 'v option"
    and put :: "'k \<Rightarrow> 'v \<Rightarrow> 'm \<Rightarrow> 'm"
    and del :: "'k \<Rightarrow> 'm \<Rightarrow> 'm"
    and alter :: "'k \<Rightarrow> ('v \<Rightarrow> 'v) \<Rightarrow> 'm \<Rightarrow> 'm"
  assumes get_empty: "get empty k = None"
    and get_put: "get (put k v m) k' = (if k' = k then Some v else get m k')"
    and get_del: "get (del k m) k' = (if k' = k then None else get m k')"
    and get_alter: "get (alter k f m) k' = (if k' = k then map_option f (get m k) else get m k')"
    and wf_empty: "wf empty"
    and wf_put: "wf m \<Longrightarrow> wf (put k v m)"
    and wf_del: "wf m \<Longrightarrow> wf (del k m)"
    and wf_alter: "wf m \<Longrightarrow> wf (alter k f m)"
begin

lemmas map_laws = get_empty get_put get_del get_alter wf_empty wf_put wf_del wf_alter

lemma get_put_other: "k' \<noteq> k \<Longrightarrow> get (put k v m) k' = get m k'"
  by (simp add: get_put)

lemma get_fold_del: "get (fold del ks m) k = (if k \<in> set ks then None else get m k)"
  by (induction ks arbitrary: m) (auto simp: get_del)

lemma wf_fold_del: "wf m \<Longrightarrow> wf (fold del ks m)"
  by (induction ks arbitrary: m) (auto simp: wf_del)

lemma wf_fold_put: "wf m \<Longrightarrow> wf (fold (\<lambda>(k, v). put k v) kvs m)"
  by (induction kvs arbitrary: m) (auto simp: wf_put)

lemma get_fold_put:
  "get (fold (\<lambda>(k, v). put k v) kvs m) k
     = (case map_of (rev kvs) k of Some v \<Rightarrow> Some v | None \<Rightarrow> get m k)"
proof (induction kvs arbitrary: m)
  case Nil
  show ?case by simp
next
  case (Cons kv kvs)
  show ?case
    by (cases kv) (auto simp: Cons.IH get_put map_add_def split: option.splits)
qed

end

lemma map_of_bt_insert: "map_of (bt_insert k v m) = (map_of m)(k \<mapsto> v)"
  by (induction k v m rule: bt_insert.induct) (auto simp: fun_eq_iff)

lemma map_of_filter_key: "map_of (filter (\<lambda>p. fst p \<noteq> k) m) k' = (if k' = k then None else map_of m k')"
  by (induction m) auto

lemma map_of_modify:
  "map_of (map (\<lambda>(a, b). (a, if a = k then f b else b)) m) k'
     = (if k' = k then map_option f (map_of m k) else map_of m k')"
  by (induction m) auto

lemma set_bt_insert_keys: "set (map fst (bt_insert k v m)) = insert k (set (map fst m))"
  by (induction k v m rule: bt_insert.induct) auto

lemma bt_wf_insert: "bt_wf m \<Longrightarrow> bt_wf (bt_insert k v m)"
proof (induction k v m rule: bt_insert.induct)
  case (1 k v)
  show ?case by (simp add: bt_wf_def)
next
  case (2 k v a b m)
  have keys: "x \<in> set (map fst (bt_insert k v m)) \<Longrightarrow> x = k \<or> x \<in> set (map fst m)" for x
    by (simp only: set_bt_insert_keys) simp
  show ?case
  proof (cases "k < a")
    case True
    with "2.prems" show ?thesis by (auto simp: bt_wf_def)
  next
    case False
    show ?thesis
    proof (cases "k = a")
      case True
      with "2.prems" show ?thesis by (auto simp: bt_wf_def)
    next
      case neq: False
      from "2.prems" have "bt_wf m" by (simp add: bt_wf_def)
      with "2.IH" False neq have "bt_wf (bt_insert k v m)" by blast
      moreover from False neq have "a < k" by simp
      ultimately show ?thesis
        using False neq "2.prems" keys by (fastforce simp: bt_wf_def)
    qed
  qed
qed

interpretation bt: ordered_map bt_wf "[]" bt_get bt_insert bt_remove bt_modify
proof unfold_locales
  show "bt_get [] k = None" for k :: 'a
    by (simp add: bt_get_def)
  show "bt_get (bt_insert k v m) k' = (if k' = k then Some v else bt_get m k')"
    for k k' :: 'a and v :: 'b and m
    by (simp add: bt_get_def map_of_bt_insert)
  show "bt_get (bt_remove k m) k' = (if k' = k then None else bt_get m k')"
    for k k' :: 'a and m :: "('a, 'b) btree"
    by (simp add: bt_get_def bt_remove_def map_of_filter_key)
  show "bt_get (bt_modify k f m) k' = (if k' = k then map_option f (bt_get m k) else bt_get m k')"
    for k k' :: 'a and f :: "'b \<Rightarrow> 'b" and m
    by (simp add: bt_get_def bt_modify_def map_of_modify)
  show "bt_wf ([] :: ('a, 'b) btree)"
    by (simp add: bt_wf_def)
  show "bt_wf m \<Longrightarrow> bt_wf (bt_insert k v m)" for k :: 'a and v :: 'b and m
    by (rule bt_wf_insert)
  show "bt_wf m \<Longrightarrow> bt_wf (bt_remove k m)" for k :: 'a and m :: "('a, 'b) btree"
    by (simp add: bt_wf_def bt_remove_def sorted_wrt_map sorted_wrt_filter)
  show "bt_wf m \<Longrightarrow> bt_wf (bt_modify k f m)" for k :: 'a and f :: "'b \<Rightarrow> 'b" and m
    by (simp add: bt_wf_def bt_modify_def case_prod_beta comp_def)
qed

declare bt.map_laws [simp]

lemma bt_wf_distinct: "bt_wf m \<Longrightarrow> distinct (map fst m)"
  by (simp add: bt_wf_def strict_sorted_iff)

lemma bt_mem_iff: "bt_wf m \<Longrightarrow> (k, v) \<in> set m \<longleftrightarrow> bt_get m k = Some v"
  by (simp add: bt_get_def bt_wf_distinct)

lemma bt_get_mem: "bt_get m k = Some v \<Longrightarrow> (k, v) \<in> set m"
  by (simp add: bt_get_def map_of_SomeD)

lemma bt_contains_iff: "bt_contains m k \<longleftrightarrow> (\<exists>v. bt_get m k = Some v)"
  by (auto simp: bt_contains_def)

section \<open>Outcomes of fallible calls\<close>

text \<open>
  A method that returns \<open>Result\<close> has an outcome: a value, an error, or no return at all. The last
  one stands for a loop of the code that does not terminate on the given input; no handler of
  the code can observe it, so it passes through every handler.
\<close>

datatype ('e, 'a) outcome = Ok 'a | Err 'e | Diverges

fun obind :: "('e, 'a) outcome \<Rightarrow> ('a \<Rightarrow> ('e, 'b) outcome) \<Rightarrow> ('e, 'b) outcome" where
  "obind (Ok x) f = f x"
| "obind (Err e) f = Err e"
| "obind Diverges f = Diverges"

definition ok_or :: "'a option \<Rightarrow> 'e \<Rightarrow> ('e, 'a) outcome" where
  "ok_or x e = (case x of Some v \<Rightarrow> Ok v | None \<Rightarrow> Err e)"

definition ensure :: "bool \<Rightarrow> 'e \<Rightarrow> ('e, unit) outcome" where
  "ensure b e = (if b then Ok () else Err e)"

lemma obind_Ok [simp]: "obind m f = Ok y \<longleftrightarrow> (\<exists>x. m = Ok x \<and> f x = Ok y)"
  by (cases m) auto

lemma ok_or_Ok [simp]: "ok_or x e = Ok v \<longleftrightarrow> x = Some v"
  by (auto simp: ok_or_def split: option.splits)

lemma ok_or_Some [simp]: "ok_or (Some v) e = Ok v" and ok_or_None [simp]: "ok_or None e = Err e"
  by (simp_all add: ok_or_def)

lemma ensure_Ok [simp]: "ensure b e = Ok u \<longleftrightarrow> b"
  by (auto simp: ensure_def)

lemma ensure_True [simp]: "ensure True e = Ok ()" and ensure_False [simp]: "ensure False e = Err e"
  by (simp_all add: ensure_def)

fun ofold :: "('a \<Rightarrow> 's \<Rightarrow> ('e, 's) outcome) \<Rightarrow> 'a list \<Rightarrow> 's \<Rightarrow> ('e, 's) outcome" where
  "ofold f [] s = Ok s"
| "ofold f (x # xs) s = obind (f x s) (ofold f xs)"

lemma ofold_append: "ofold f (xs @ ys) s = obind (ofold f xs s) (ofold f ys)"
proof (induction xs arbitrary: s)
  case Nil
  show ?case by simp
next
  case (Cons x xs)
  show ?case by (cases "f x s") (simp_all add: Cons.IH)
qed

section \<open>Mutating methods\<close>

text \<open>
  A method on \<open>&mut self\<close> that returns \<open>Result\<close> maps a state to an outcome and a state: what the
  method wrote before it failed stays written.
\<close>

type_synonym ('s, 'e, 'a) meth = "'s \<Rightarrow> ('e, 'a) outcome \<times> 's"

definition rret :: "'a \<Rightarrow> ('s, 'e, 'a) meth" where
  "rret x s = (Ok x, s)"

definition rfail :: "'e \<Rightarrow> ('s, 'e, 'a) meth" where
  "rfail e s = (Err e, s)"

definition rbind :: "('s, 'e, 'a) meth \<Rightarrow> ('a \<Rightarrow> ('s, 'e, 'b) meth) \<Rightarrow> ('s, 'e, 'b) meth" where
  "rbind m f s =
     (case m s of (Ok x, s') \<Rightarrow> f x s' | (Err e, s') \<Rightarrow> (Err e, s') | (Diverges, s') \<Rightarrow> (Diverges, s'))"

definition rseq :: "('s, 'e, 'a) meth \<Rightarrow> ('s, 'e, 'b) meth \<Rightarrow> ('s, 'e, 'b) meth" where
  "rseq m m' = rbind m (\<lambda>_. m')"

definition rget :: "('s \<Rightarrow> 'a) \<Rightarrow> ('s, 'e, 'a) meth" where
  "rget f s = (Ok (f s), s)"

definition rmodify :: "('s \<Rightarrow> 's) \<Rightarrow> ('s, 'e, unit) meth" where
  "rmodify f s = (Ok (), f s)"

definition rlift :: "('e, 'a) outcome \<Rightarrow> ('s, 'e, 'a) meth" where
  "rlift r s = (r, s)"

definition rwhen :: "bool \<Rightarrow> ('s, 'e, unit) meth \<Rightarrow> ('s, 'e, unit) meth" where
  "rwhen b m = (if b then m else rret ())"

fun rforeach :: "('a \<Rightarrow> ('s, 'e, unit) meth) \<Rightarrow> 'a list \<Rightarrow> ('s, 'e, unit) meth" where
  "rforeach f [] = rret ()"
| "rforeach f (x # xs) = rseq (f x) (rforeach f xs)"

text \<open>A loop with local variables, and a method on one part of the state.\<close>

fun rfold :: "('a \<Rightarrow> 'b \<Rightarrow> ('s, 'e, 'b) meth) \<Rightarrow> 'a list \<Rightarrow> 'b \<Rightarrow> ('s, 'e, 'b) meth" where
  "rfold f [] acc = rret acc"
| "rfold f (x # xs) acc = rbind (f x acc) (rfold f xs)"

definition on_fst :: "('s, 'e, 'a) meth \<Rightarrow> ('s \<times> 'l, 'e, 'a) meth" where
  "on_fst m s = (case m (fst s) of (r, s') \<Rightarrow> (r, (s', snd s)))"

definition with_local :: "'l \<Rightarrow> ('s \<times> 'l, 'e, 'a) meth \<Rightarrow> ('s, 'e, 'a \<times> 'l) meth" where
  "with_local l m s =
     (case m (s, l) of
        (Ok x, (s', l')) \<Rightarrow> (Ok (x, l'), s') | (Err e, (s', _)) \<Rightarrow> (Err e, s') | (Diverges, (s', _)) \<Rightarrow> (Diverges, s'))"

text \<open>
  \<open>wp m Q E s\<close>: running \<open>m\<close> in \<open>s\<close> ends in \<open>Q\<close> if it returns a value and in \<open>E\<close> if it returns an
  error or does not return; \<open>E\<close> speaks of the state the method leaves behind.
\<close>

definition wp :: "('s, 'e, 'a) meth \<Rightarrow> ('a \<Rightarrow> 's \<Rightarrow> bool) \<Rightarrow> ('s \<Rightarrow> bool) \<Rightarrow> 's \<Rightarrow> bool" where
  "wp m Q E s \<longleftrightarrow> (case m s of (Ok x, s') \<Rightarrow> Q x s' | (_, s') \<Rightarrow> E s')"

lemma wp_rret [wp_simps]: "wp (rret x) Q E s = Q x s"
  by (simp add: wp_def rret_def)

lemma wp_rfail [wp_simps]: "wp (rfail e) Q E s = E s"
  by (simp add: wp_def rfail_def)

lemma wp_rbind [wp_simps]: "wp (rbind m f) Q E s = wp m (\<lambda>x. wp (f x) Q E) E s"
  by (simp add: wp_def rbind_def split: prod.splits outcome.splits)

lemma wp_rseq [wp_simps]: "wp (rseq m m') Q E s = wp m (\<lambda>_. wp m' Q E) E s"
  by (simp add: rseq_def wp_rbind)

lemma wp_rget [wp_simps]: "wp (rget f) Q E s = Q (f s) s"
  by (simp add: wp_def rget_def)

lemma wp_rmodify [wp_simps]: "wp (rmodify f) Q E s = Q () (f s)"
  by (simp add: wp_def rmodify_def)

lemma wp_rlift [wp_simps]:
  "wp (rlift r) Q E s = (case r of Ok x \<Rightarrow> Q x s | _ \<Rightarrow> E s)"
  by (simp add: wp_def rlift_def split: outcome.splits)

lemma wp_rwhen [wp_simps]: "wp (rwhen b m) Q E s = (if b then wp m Q E s else Q () s)"
  by (simp add: rwhen_def wp_rret)

lemma wp_if [wp_simps]: "wp (if b then m else m') Q E s = (if b then wp m Q E s else wp m' Q E s)"
  by simp

lemma wp_mono:
  assumes "wp m Q E s"
    and "\<And>x s'. Q x s' \<Longrightarrow> Q' x s'"
    and "\<And>s'. E s' \<Longrightarrow> E' s'"
  shows "wp m Q' E' s"
  using assms by (auto simp: wp_def split: prod.splits outcome.splits)

lemma wp_rforeach:
  assumes "I s"
    and "\<And>x s. x \<in> set xs \<Longrightarrow> I s \<Longrightarrow> wp (f x) (\<lambda>_. I) E s"
    and "\<And>s. I s \<Longrightarrow> Q () s"
  shows "wp (rforeach f xs) Q E s"
  using assms
proof (induction xs arbitrary: s)
  case Nil
  then show ?case by (simp add: wp_rret)
next
  case (Cons x xs)
  from Cons.prems have "wp (f x) (\<lambda>_. I) E s" by simp
  then show ?case
    by (simp add: wp_rseq) (rule wp_mono, assumption, rule Cons.IH, auto intro: Cons.prems)
qed

lemma wp_rfold:
  assumes "I acc s"
    and "\<And>x acc s. x \<in> set xs \<Longrightarrow> I acc s \<Longrightarrow> wp (f x acc) I E s"
  shows "wp (rfold f xs acc) I E s"
  using assms
proof (induction xs arbitrary: acc s)
  case Nil
  then show ?case by (simp add: wp_rret)
next
  case (Cons x xs)
  from Cons.prems have "wp (f x acc) I E s" by simp
  then show ?case
    by (simp add: wp_rbind) (rule wp_mono, assumption, rule Cons.IH, auto intro: Cons.prems)
qed

lemma wp_on_fst [wp_simps]:
  "wp (on_fst m) Q E s = wp m (\<lambda>x s'. Q x (s', snd s)) (\<lambda>s'. E (s', snd s)) (fst s)"
  by (simp add: wp_def on_fst_def split: prod.splits outcome.splits)

lemma wp_with_local [wp_simps]:
  "wp (with_local l m) Q E s = wp m (\<lambda>x (s', l'). Q (x, l') s') (\<lambda>(s', _). E s') (s, l)"
  by (simp add: wp_def with_local_def split: prod.splits outcome.splits)

lemma wp_snd: "wp m (\<lambda>_. P) P s \<longleftrightarrow> P (snd (m s))"
  by (simp add: wp_def split: prod.splits outcome.splits)

lemma wp_Ok: "m s = (Ok x, s') \<Longrightarrow> wp m Q E s \<Longrightarrow> Q x s'"
  by (simp add: wp_def)

section \<open>Byte strings\<close>

text \<open>
  A Rust \<open>String\<close> is its UTF-8 bytes: \<open>len()\<close> is \<open>length\<close>. A byte is the start of a character
  unless it has the form 10xxxxxx.
\<close>

definition is_continuation :: "char \<Rightarrow> bool" where
  "is_continuation c \<longleftrightarrow> (let n = (of_char c :: nat) in 128 \<le> n \<and> n < 192)"

definition is_char_boundary :: "string \<Rightarrow> usize \<Rightarrow> bool" where
  "is_char_boundary s i \<longleftrightarrow>
     i = 0 \<or> i = length s \<or> (i < length s \<and> \<not> is_continuation (s ! i))"

text \<open>
  The length in bytes of the white-space character a string starts with (0 if it does not):
  the code points of Unicode's \<open>White_Space\<close> property, which \<open>str::trim\<close> removes.
\<close>

fun ws_prefix_len :: "nat list \<Rightarrow> nat" where
  "ws_prefix_len [] = 0"
| "ws_prefix_len (a # s) =
     (if 9 \<le> a \<and> a \<le> 13 \<or> a = 32 then 1
      else if a = 194 \<and> (take 1 s = [133] \<or> take 1 s = [160]) then 2
      else if a = 225 \<and> take 2 s = [154, 128] then 3
      else if a = 226 \<and> length s \<ge> 2 \<and> s ! 0 = 128
              \<and> (128 \<le> s ! 1 \<and> s ! 1 \<le> 138 \<or> s ! 1 = 168 \<or> s ! 1 = 169 \<or> s ! 1 = 175) then 3
      else if a = 226 \<and> take 2 s = [129, 159] then 3
      else if a = 227 \<and> take 2 s = [128, 128] then 3
      else 0)"

definition str_ws_len :: "string \<Rightarrow> nat" where
  "str_ws_len s = ws_prefix_len (map of_char (take 3 s))"

function trim_start :: "string \<Rightarrow> string" where
  "trim_start s = (if str_ws_len s = 0 then s else trim_start (drop (str_ws_len s) s))"
  by pat_completeness auto
termination
proof (relation "measure length")
  show "wf (measure (length :: string \<Rightarrow> nat))" by simp
  show "(drop (str_ws_len s) s, s) \<in> measure length" if "str_ws_len s \<noteq> 0" for s
    using that by (cases s) (auto simp: str_ws_len_def)
qed

declare trim_start.simps [simp del]

text \<open>\<open>text.trim().is_empty()\<close>.\<close>

definition is_blank :: "string \<Rightarrow> bool" where
  "is_blank s \<longleftrightarrow> trim_start s = []"

lemma trim_start_suffix: "suffix (trim_start s) s"
proof (induction s rule: trim_start.induct)
  case (1 s)
  show ?case
  proof (cases "str_ws_len s = 0")
    case True
    then show ?thesis by (subst trim_start.simps) simp
  next
    case False
    with "1.IH" show ?thesis
      by (subst trim_start.simps) (auto intro: suffix_order.trans suffix_drop)
  qed
qed

lemma str_ws_len_trim_start: "str_ws_len (trim_start s) = 0"
proof (induction s rule: trim_start.induct)
  case (1 s)
  then show ?case by (subst trim_start.simps) simp
qed

lemma trim_start_idem: "trim_start (trim_start s) = trim_start s"
  by (subst trim_start.simps) (simp add: str_ws_len_trim_start)

definition starts_with :: "string \<Rightarrow> string \<Rightarrow> bool" where
  "starts_with s p \<longleftrightarrow> take (length p) s = p"

lemma starts_with_iff: "starts_with s p \<longleftrightarrow> prefix p s"
  by (auto simp: starts_with_def prefix_def) (metis append_take_drop_id)

definition is_ascii_digit :: "char \<Rightarrow> bool" where
  "is_ascii_digit c \<longleftrightarrow> (let n = (of_char c :: nat) in 48 \<le> n \<and> n \<le> 57)"

definition is_ascii_lowercase :: "char \<Rightarrow> bool" where
  "is_ascii_lowercase c \<longleftrightarrow> (let n = (of_char c :: nat) in 97 \<le> n \<and> n \<le> 122)"

definition is_ascii_uppercase :: "char \<Rightarrow> bool" where
  "is_ascii_uppercase c \<longleftrightarrow> (let n = (of_char c :: nat) in 65 \<le> n \<and> n \<le> 90)"

definition is_ascii_alphanumeric :: "char \<Rightarrow> bool" where
  "is_ascii_alphanumeric c \<longleftrightarrow> is_ascii_digit c \<or> is_ascii_lowercase c \<or> is_ascii_uppercase c"

text \<open>Decimal rendering of an unsigned integer, as \<open>format!\<close> writes it.\<close>

fun show_nat :: "nat \<Rightarrow> string" where
  "show_nat n =
     (if n < 10 then [char_of (48 + n)] else show_nat (n div 10) @ [char_of (48 + n mod 10)])"

declare show_nat.simps [simp del]

lemma show_nat_nonempty: "show_nat n \<noteq> []"
  by (subst show_nat.simps) simp

text \<open>The position of the first occurrence of a byte.\<close>

fun find_byte :: "char \<Rightarrow> string \<Rightarrow> usize option" where
  "find_byte c [] = None"
| "find_byte c (x # xs) = (if x = c then Some 0 else map_option Suc (find_byte c xs))"

lemma find_byte_append: "c \<notin> set xs \<Longrightarrow> find_byte c (xs @ c # ys) = Some (length xs)"
  by (induction xs) auto

lemma find_byte_Some: "find_byte c xs = Some i \<Longrightarrow> i < length xs \<and> xs ! i = c \<and> c \<notin> set (take i xs)"
  by (induction xs arbitrary: i) (auto split: if_splits)

lemma find_byte_None: "find_byte c xs = None \<longleftrightarrow> c \<notin> set xs"
  by (induction xs) auto

end
