(* ===== verification/Relay_Types.thy ===== *)
theory Relay_Types
  imports Prelude
begin

text \<open>
  The data of the durable relay (\<open>src/src/hel_worker/snapshot.rs\<close>, \<open>protocol.rs\<close>): commands,
  outcomes, observations, events, the snapshot they fold into, and the constants of
  \<open>src/src/hel_worker.rs\<close>. Values of the Agent Client Protocol crate that the relay stores and
  forwards without reading them are their JSON documents; where the relay matches on such a
  value, the constructors it distinguishes are those of \<open>session_update\<close>.
\<close>

section \<open>JSON documents and errors\<close>

datatype json =
    JNull
  | JBool bool
  | JNumber string
  | JString string
  | JArray "json list"
  | JObject "(string \<times> json) list"

text \<open>
  An error is the format string of the \<open>bail!\<close> that raised it and its arguments. The texts that
  \<open>context\<close> wraps around it are left out, except for the one marker the relay looks for again:
  \<open>UnreadableRelaySpan\<close>, with the event after which readable history resumes.
\<close>

datatype err_arg = ANat nat | AStr string

datatype relay_err = Bail string "err_arg list" | UnreadableSpan u64 relay_err

type_synonym 'a relay_result = "(relay_err, 'a) outcome"

section \<open>Constants\<close>

definition MAX_FRAME_BYTES :: usize where "MAX_FRAME_BYTES = 8 * 1024 * 1024"

definition RELAY_REPLAY_BYTE_BUDGET :: usize where "RELAY_REPLAY_BYTE_BUDGET = 4 * 1024 * 1024"

definition RELAY_COMMAND_BYTE_BUDGET :: usize where "RELAY_COMMAND_BYTE_BUDGET = 1024 * 1024"

definition RELAY_EVENT_BYTE_BUDGET :: usize where "RELAY_EVENT_BYTE_BUDGET = 2 * 1024 * 1024"

definition RELAY_STATE_BYTE_BUDGET :: usize where "RELAY_STATE_BYTE_BUDGET = 2 * 1024 * 1024"

definition RELAY_EVENT_ENVELOPE_RESERVE :: usize where "RELAY_EVENT_ENVELOPE_RESERVE = 8 * 1024"

definition RELAY_TRUNCATION_FLOOR :: usize where "RELAY_TRUNCATION_FLOOR = 4 * 1024"

definition RELAY_SNAPSHOT_BYTE_BUDGET :: usize where
  "RELAY_SNAPSHOT_BYTE_BUDGET = 16 * 1024 * 1024"

definition RELAY_PROTOCOL_VERSION :: u32 where "RELAY_PROTOCOL_VERSION = 6"

definition RELAY_MIN_PROTOCOL_VERSION :: u32 where "RELAY_MIN_PROTOCOL_VERSION = 1"

definition RELAY_STATE_VERSION :: u32 where "RELAY_STATE_VERSION = 2"

definition RELAY_SEGMENT_BYTE_LIMIT :: u64 where "RELAY_SEGMENT_BYTE_LIMIT = 1024 * 1024"

definition RELAY_SNAPSHOT_LAG_BYTE_LIMIT :: usize where
  "RELAY_SNAPSHOT_LAG_BYTE_LIMIT = 1024 * 1024"

definition RELAY_HOT_EVENT_CAPACITY :: usize where "RELAY_HOT_EVENT_CAPACITY = 32"

definition RELAY_REPLAY_CURSOR_CAPACITY :: usize where "RELAY_REPLAY_CURSOR_CAPACITY = 32"

definition RELAY_EVENT_GENESIS_DIGEST :: string where
  "RELAY_EVENT_GENESIS_DIGEST = replicate 64 (CHR ''0'')"

definition RELAY_EVENT_DIGEST_DOMAIN :: string where
  "RELAY_EVENT_DIGEST_DOMAIN = ''hel-relay-event-v1'' @ [CHR 0x00]"

definition RELAY_EVENT_DIGEST_DOMAIN_V2 :: string where
  "RELAY_EVENT_DIGEST_DOMAIN_V2 = ''hel-relay-event-v2'' @ [CHR 0x00]"

definition RELAY_EVENT_FORMAT_V1 :: u8 where "RELAY_EVENT_FORMAT_V1 = 1"

definition RELAY_EVENT_FORMAT_V2 :: u8 where "RELAY_EVENT_FORMAT_V2 = 2"

section \<open>Commands\<close>

type_synonym content_block = json

record relay_cursor =
  cur_ordinal :: u64
  cur_digest :: string

datatype relay_command =
    Prompt "content_block list"
  | RunUserShell string
  | CancelUserShell string
  | RemoveQueuedPrompt string
  | ClearQueuedPrompts
  | SetConfig string string
  | SetSessionMode string
  | Cancel
  | Close string relay_cursor
  | BeginCheckpoint "string option"
  | CompleteCheckpoint string
  | ReleaseCheckpoint string
  | AdvanceRecoveryFloor relay_cursor
  | RecordNotice string

datatype relay_command_kind =
    KPrompt | KRunUserShell | KCancelUserShell | KRemoveQueuedPrompt | KClearQueuedPrompts
  | KSetConfig | KSetSessionMode | KCancel | KClose | KBeginCheckpoint | KCompleteCheckpoint
  | KReleaseCheckpoint | KAdvanceRecoveryFloor | KRecordNotice

fun is_queue_entry :: "relay_command \<Rightarrow> bool" where
  "is_queue_entry (Prompt _) = True"
| "is_queue_entry (SetConfig _ _) = True"
| "is_queue_entry _ = False"

fun is_relay_local :: "relay_command \<Rightarrow> bool" where
  "is_relay_local (RemoveQueuedPrompt _) = True"
| "is_relay_local ClearQueuedPrompts = True"
| "is_relay_local (CompleteCheckpoint _) = True"
| "is_relay_local (ReleaseCheckpoint _) = True"
| "is_relay_local (AdvanceRecoveryFloor _) = True"
| "is_relay_local (RecordNotice _) = True"
| "is_relay_local _ = False"

fun is_effectful_acp :: "relay_command \<Rightarrow> bool" where
  "is_effectful_acp (Prompt _) = True"
| "is_effectful_acp (SetConfig _ _) = True"
| "is_effectful_acp (SetSessionMode _) = True"
| "is_effectful_acp Cancel = True"
| "is_effectful_acp (Close _ _) = True"
| "is_effectful_acp _ = False"

fun is_effectful_user_shell :: "relay_command \<Rightarrow> bool" where
  "is_effectful_user_shell (RunUserShell _) = True"
| "is_effectful_user_shell (CancelUserShell _) = True"
| "is_effectful_user_shell _ = False"

fun command_kind :: "relay_command \<Rightarrow> relay_command_kind" where
  "command_kind (Prompt _) = KPrompt"
| "command_kind (RunUserShell _) = KRunUserShell"
| "command_kind (CancelUserShell _) = KCancelUserShell"
| "command_kind (RemoveQueuedPrompt _) = KRemoveQueuedPrompt"
| "command_kind ClearQueuedPrompts = KClearQueuedPrompts"
| "command_kind (SetConfig _ _) = KSetConfig"
| "command_kind (SetSessionMode _) = KSetSessionMode"
| "command_kind Cancel = KCancel"
| "command_kind (Close _ _) = KClose"
| "command_kind (BeginCheckpoint _) = KBeginCheckpoint"
| "command_kind (CompleteCheckpoint _) = KCompleteCheckpoint"
| "command_kind (ReleaseCheckpoint _) = KReleaseCheckpoint"
| "command_kind (AdvanceRecoveryFloor _) = KAdvanceRecoveryFloor"
| "command_kind (RecordNotice _) = KRecordNotice"

fun command_minimum_protocol :: "relay_command \<Rightarrow> u32" where
  "command_minimum_protocol (RunUserShell _) = 5"
| "command_minimum_protocol (CancelUserShell _) = 5"
| "command_minimum_protocol _ = RELAY_MIN_PROTOCOL_VERSION"

fun is_prompt :: "relay_command \<Rightarrow> bool" where
  "is_prompt (Prompt _) = True"
| "is_prompt _ = False"

fun is_set_config :: "relay_command \<Rightarrow> bool" where
  "is_set_config (SetConfig _ _) = True"
| "is_set_config _ = False"

fun is_close :: "relay_command \<Rightarrow> bool" where
  "is_close (Close _ _) = True"
| "is_close _ = False"

fun is_begin_checkpoint :: "relay_command \<Rightarrow> bool" where
  "is_begin_checkpoint (BeginCheckpoint _) = True"
| "is_begin_checkpoint _ = False"

fun is_run_user_shell :: "relay_command \<Rightarrow> bool" where
  "is_run_user_shell (RunUserShell _) = True"
| "is_run_user_shell _ = False"

text \<open>Only a recovery-floor move lets the journal drop history.\<close>

fun releases_history :: "relay_command \<Rightarrow> bool" where
  "releases_history (CompleteCheckpoint _) = True"
| "releases_history (AdvanceRecoveryFloor _) = True"
| "releases_history _ = False"

section \<open>User shells\<close>

datatype user_shell_status = ShExited | ShSignaled | ShTimedOut | ShCancelled | ShInterrupted | ShFailed

record user_shell_result =
  us_command :: string
  us_stdout :: string
  us_stderr :: string
  us_stdout_truncated :: bool
  us_stderr_truncated :: bool
  us_exit_code :: "int option"
  us_signal :: "string option"
  us_duration_ms :: u64
  us_status :: user_shell_status
  us_error :: "string option"

record active_user_shell =
  sh_command_id :: string
  sh_command :: string
  sh_created_at_ms :: i64
  sh_started_at_ms :: "i64 option"

record active_agent_terminal =
  at_terminal_id :: string
  at_command :: string
  at_started_at_ms :: i64

section \<open>Outcomes and observations\<close>

datatype relay_command_outcome =
    OPrompt string
  | OUserShell user_shell_result
  | OUserShellCancelled
  | OConfigured
  | OSessionModeSet
  | OCancelled
  | OSteered string
  | OClosed
  | OQueueChanged "string list"
  | OCheckpointCompleted
  | OCheckpointReleased
  | ORecoveryFloorAdvanced
  | ONoticeRecorded

record session_mode_state =
  current_mode_id :: string
  available_modes :: json

text \<open>An ACP diff carries the two file copies and a \<open>_meta\<close> object.\<close>

record acp_diff =
  diff_path :: string
  old_text :: "string option"
  new_text :: string
  diff_meta :: "(string, json) btree option"

datatype tool_call_content = TCDiff acp_diff | TCOther json

datatype session_update =
    AvailableCommandsUpdate "json list"
  | ConfigOptionUpdate "json list"
  | CurrentModeUpdate string
  | SUToolCall "tool_call_content list" json
  | SUToolCallUpdate "tool_call_content list option" json
  | OtherUpdate json

datatype relay_observation =
    AgentInitialized nat json "json option"
  | SessionOpened string bool
  | SessionConfigured "json list"
  | SessionModesConfigured "session_mode_state option"
  | SessionUpdated session_update
  | PermissionAutoApproved string string
  | ElicitationRequested json
  | ElicitationResolved string string
  | ElicitationsCleared
  | CommandQueued string relay_command i64
  | CommandStarted string i64
  | CommandCompleted string relay_command_outcome
  | CommandRejected string relay_command_kind string
  | CommandInterrupted string relay_command_kind string
  | UserShellOutput string string string string bool bool
  | ConfigurationUpdated string string
  | CheckpointReady string u64
  | Warning string
  | SessionRestarted
  | TerminalOutput string string bool "nat option" "string option"
  | Notice string
  | Closing
  | Closed

record relay_event =
  ev_format :: u8
  ev_ordinal :: u64
  ev_previous_digest :: string
  ev_digest :: string
  ev_recorded_at_ms :: i64
  ev_command_id :: "string option"
  ev_observation :: relay_observation

section \<open>The snapshot\<close>

datatype relay_execution_state = ExIdle | ExRunning | ExClosing | ExClosed

datatype stored_queued_payload = QPrompt "content_block list" | QSetConfig string string

record stored_queued_command =
  q_command_id :: string
  q_payload :: stored_queued_payload
  q_created_at_ms :: i64

record stored_active_prompt =
  ap_command_id :: string
  ap_prompt :: "content_block list"
  ap_created_at_ms :: i64
  ap_started_at_ms :: i64

record pending_prompt_context =
  pc_text :: string
  pc_attached :: "string option"

record pending_user_shell_context =
  sc_shell_command_id :: string
  sc_accepted_ordinal :: u64
  sc_text :: string
  sc_attached :: "string option"

datatype dispatch_state = DQueued | DPending | DInFlight | DCompleted | DRejected | DInterrupted

record dispatch_record =
  d_command :: relay_command
  d_state :: dispatch_state

record handled_command =
  h_command :: relay_command
  h_accepted_ordinal :: u64
  h_terminal_ordinal :: "u64 option"

record relay_snapshot =
  format_version :: u32
  session_id :: string
  execution :: relay_execution_state
  latest_ordinal :: u64
  latest_digest :: string
  acknowledged_through :: u64
  acknowledged_digest :: string
  recovery_floor_ordinal :: u64
  recovery_floor_digest :: string
  native_session_id :: "string option"
  agent_capabilities :: "json option"
  agent_info :: "json option"
  config_options :: "json list"
  modes :: "session_mode_state option"
  available_commands :: "json list"
  config :: "(string, string) btree"
  active_prompt :: "stored_active_prompt option"
  queued_prompts :: "stored_queued_command list"
  pending_prompt_ctx :: "pending_prompt_context option"
  pending_user_shell_contexts :: "pending_user_shell_context list"
  active_user_shells :: "(string, active_user_shell) btree"
  checkpoint_barrier :: "string option"
  checkpoint_ready_through :: "u64 option"
  checkpoint_ready_digest :: "string option"
  handled_commands :: "(string, handled_command) btree"
  dispatches :: "(string, dispatch_record) btree"

definition new_snapshot :: "string \<Rightarrow> relay_snapshot" where
  "new_snapshot sid =
     \<lparr>format_version = RELAY_STATE_VERSION, session_id = sid, execution = ExIdle,
      latest_ordinal = 0, latest_digest = RELAY_EVENT_GENESIS_DIGEST,
      acknowledged_through = 0, acknowledged_digest = RELAY_EVENT_GENESIS_DIGEST,
      recovery_floor_ordinal = 0, recovery_floor_digest = RELAY_EVENT_GENESIS_DIGEST,
      native_session_id = None, agent_capabilities = None, agent_info = None,
      config_options = [], modes = None, available_commands = [], config = [],
      active_prompt = None, queued_prompts = [], pending_prompt_ctx = None,
      pending_user_shell_contexts = [], active_user_shells = [], checkpoint_barrier = None,
      checkpoint_ready_through = None, checkpoint_ready_digest = None,
      handled_commands = [], dispatches = []\<rparr>"

definition retained_through :: "relay_snapshot \<Rightarrow> u64" where
  "retained_through s = min (acknowledged_through s) (recovery_floor_ordinal s)"

definition retained_digest :: "relay_snapshot \<Rightarrow> string" where
  "retained_digest s =
     (if acknowledged_through s \<le> recovery_floor_ordinal s then acknowledged_digest s
      else recovery_floor_digest s)"

section \<open>The public operational state\<close>

record queued_relay_prompt =
  qp_command_id :: string
  qp_created_at_ms :: i64

record active_relay_prompt =
  arp_command_id :: string
  arp_created_at_ms :: i64
  arp_started_at_ms :: i64

record relay_operational_state =
  os_session_id :: string
  os_execution :: relay_execution_state
  os_latest_ordinal :: u64
  os_latest_digest :: string
  os_acknowledged_through :: u64
  os_acknowledged_digest :: string
  os_recovery_floor_ordinal :: u64
  os_recovery_floor_digest :: string
  os_native_session_id :: "string option"
  os_agent_capabilities :: "json option"
  os_agent_info :: "json option"
  os_config_options :: "json list"
  os_modes :: "session_mode_state option"
  os_available_commands :: "json list"
  os_config :: "(string, string) btree"
  os_active_prompt :: "active_relay_prompt option"
  os_queued_prompts :: "queued_relay_prompt list"
  os_active_user_shells :: "active_user_shell list"
  os_active_agent_terminals :: "active_agent_terminal list"
  os_checkpoint_barrier :: "string option"
  os_checkpoint_ready :: "relay_cursor option"
  os_last_acp_activity_at_ms :: "i64 option"

definition zip_option :: "'a option \<Rightarrow> 'b option \<Rightarrow> ('a \<times> 'b) option" where
  "zip_option a b = (case (a, b) of (Some x, Some y) \<Rightarrow> Some (x, y) | _ \<Rightarrow> None)"

definition snapshot_operational_state :: "relay_snapshot \<Rightarrow> relay_operational_state" where
  "snapshot_operational_state s =
     \<lparr>os_session_id = session_id s, os_execution = execution s,
      os_latest_ordinal = latest_ordinal s, os_latest_digest = latest_digest s,
      os_acknowledged_through = acknowledged_through s,
      os_acknowledged_digest = acknowledged_digest s,
      os_recovery_floor_ordinal = recovery_floor_ordinal s,
      os_recovery_floor_digest = recovery_floor_digest s,
      os_native_session_id = native_session_id s,
      os_agent_capabilities = agent_capabilities s, os_agent_info = agent_info s,
      os_config_options = config_options s, os_modes = modes s,
      os_available_commands = available_commands s, os_config = config s,
      os_active_prompt =
        map_option (\<lambda>p. \<lparr>arp_command_id = ap_command_id p, arp_created_at_ms = ap_created_at_ms p,
                        arp_started_at_ms = ap_started_at_ms p\<rparr>) (active_prompt s),
      os_queued_prompts =
        map (\<lambda>q. \<lparr>qp_command_id = q_command_id q, qp_created_at_ms = q_created_at_ms q\<rparr>)
          (queued_prompts s),
      os_active_user_shells = bt_values (active_user_shells s),
      os_active_agent_terminals = [],
      os_checkpoint_barrier = checkpoint_barrier s,
      os_checkpoint_ready =
        map_option (\<lambda>(n, d). \<lparr>cur_ordinal = n, cur_digest = d\<rparr>)
          (zip_option (checkpoint_ready_through s) (checkpoint_ready_digest s)),
      os_last_acp_activity_at_ms = None\<rparr>"

section \<open>What a restored worker root carries\<close>

text \<open>The seed a checkpoint restore leaves for the relay that opens next.\<close>

datatype canonical_queued_kind = CQPrompt | CQSetConfig string string

record canonical_queued_prompt =
  cq_command_id :: string
  cq_kind :: canonical_queued_kind
  cq_content :: "json list"
  cq_queued_at_ms :: i64

record restored_relay_seed =
  event_frontier :: u64
  event_frontier_digest :: string
  seed_queued_prompts :: "canonical_queued_prompt list"

section \<open>What the relay calls outside the repository\<close>

text \<open>
  A buffered reader hands out the bytes of a file in pieces; a read may fail. The concatenation
  of the pieces is what was read, if no read failed.
\<close>

datatype chunk = Data string | ReadError

fun reader_bytes :: "chunk list \<Rightarrow> string option" where
  "reader_bytes [] = Some []"
| "reader_bytes (ReadError # cs) = None"
| "reader_bytes (Data b # cs) = map_option ((@) b) (reader_bytes cs)"

text \<open>
  SHA-256 (crate \<open>sha2\<close>, rendered in lower-case hexadecimal), the JSON encoder and decoder
  (crate \<open>serde_json\<close>) and the gzip codec (crate \<open>flate2\<close>) are parameters of the model, gathered
  in one record with the readings of the wall clock: \<open>epoch_ms n\<close> is what the \<open>n\<close>-th reading
  shows. \<open>env_ok\<close> collects what the relay relies on: a digest is 64 lower-case hexadecimal digits
  and not the all-zero genesis digest, an encoded event has no line break, and decoding inverts
  encoding.
\<close>

record digest_payload =
  dp_ordinal :: u64
  dp_previous_digest :: "string option"
  dp_recorded_at_ms :: i64
  dp_command_id :: "string option"
  dp_observation :: relay_observation

record relay_env =
  sha256_hex :: "string \<Rightarrow> string"
  payload_json :: "digest_payload \<Rightarrow> string"
  event_json :: "relay_event \<Rightarrow> string"
  parse_event :: "string \<Rightarrow> relay_event option"
  snapshot_json :: "relay_snapshot \<Rightarrow> string"
  parse_snapshot :: "string \<Rightarrow> relay_snapshot option"
  parse_seed :: "string \<Rightarrow> restored_relay_seed option"
  parse_content :: "json \<Rightarrow> content_block option"
  command_size :: "relay_command \<Rightarrow> nat"
  snapshot_size :: "relay_snapshot \<Rightarrow> nat"
  state_size :: "relay_operational_state \<Rightarrow> nat"
  observation_size :: "relay_observation \<Rightarrow> nat"
  observation_value :: "relay_observation \<Rightarrow> json"
  observation_from_value :: "json \<Rightarrow> string + relay_observation"
  value_size :: "json \<Rightarrow> nat"
  gzip :: "string \<Rightarrow> string"
  gunzip :: "string \<Rightarrow> chunk list"
  epoch_ms :: "nat \<Rightarrow> i64"

definition is_hex_digest :: "string \<Rightarrow> bool" where
  "is_hex_digest d \<longleftrightarrow>
     length d = 64 \<and> list_all (\<lambda>c. is_ascii_digit c \<or> (97 \<le> (of_char c :: nat) \<and> (of_char c :: nat) \<le> 102)) d"

definition env_ok :: "relay_env \<Rightarrow> bool" where
  "env_ok env \<longleftrightarrow>
     (\<forall>b. is_hex_digest (sha256_hex env b) \<and> sha256_hex env b \<noteq> RELAY_EVENT_GENESIS_DIGEST)
     \<and> (\<forall>e. CHR 0x0A \<notin> set (event_json env e) \<and> event_json env e \<noteq> []
            \<and> parse_event env (event_json env e) = Some e)
     \<and> (\<forall>s. parse_snapshot env (snapshot_json env s) = Some s)
     \<and> (\<forall>b. reader_bytes (gunzip env (gzip env b)) = Some b)"

lemma env_okD:
  assumes "env_ok env"
  shows "is_hex_digest (sha256_hex env b)" and "sha256_hex env b \<noteq> RELAY_EVENT_GENESIS_DIGEST"
    and "CHR 0x0A \<notin> set (event_json env e)" and "event_json env e \<noteq> []"
    and "parse_event env (event_json env e) = Some e"
    and "parse_snapshot env (snapshot_json env s) = Some s"
    and "reader_bytes (gunzip env (gzip env b)) = Some b"
  using assms by (auto simp: env_ok_def)

end
