(* ===== verification/Relay_Snapshot.thy ===== *)
theory Relay_Snapshot
  imports Relay_Types
begin

text \<open>
  The deterministic state machine of the relay (\<open>src/src/hel_worker/snapshot.rs\<close>): digests and
  the validation of an event against a cursor, and \<open>apply_relay_event\<close>, the one place where an
  event becomes the next snapshot. The arms of its \<open>match\<close> are one definition each.
  An event that does not apply leaves no snapshot behind: every caller applies it to a copy, or
  gives up the whole recovery.
\<close>

section \<open>Digests and validation\<close>

definition validate_relay_digest :: "string \<Rightarrow> string \<Rightarrow> unit relay_result" where
  "validate_relay_digest digest name =
     (if length digest \<noteq> 64
         \<or> \<not> list_all (\<lambda>c. is_ascii_digit c \<or> (97 \<le> (of_char c :: nat) \<and> (of_char c :: nat) \<le> 102)) digest
      then Err (Bail ''{} must be 64 lowercase hexadecimal characters'' [AStr name])
      else Ok ())"

definition digest_over :: "relay_env \<Rightarrow> string \<Rightarrow> string \<Rightarrow> string" where
  "digest_over env domain encoded = sha256_hex env (domain @ encoded)"

definition relay_event_digest :: "relay_env \<Rightarrow> relay_event \<Rightarrow> string relay_result" where
  "relay_event_digest env ev =
     (if ev_format ev = RELAY_EVENT_FORMAT_V1 then
        obind (validate_relay_digest (ev_previous_digest ev) ''previous event digest'') (\<lambda>_.
          Ok (digest_over env RELAY_EVENT_DIGEST_DOMAIN
                (payload_json env
                   \<lparr>dp_ordinal = ev_ordinal ev, dp_previous_digest = Some (ev_previous_digest ev),
                    dp_recorded_at_ms = ev_recorded_at_ms ev, dp_command_id = ev_command_id ev,
                    dp_observation = ev_observation ev\<rparr>)))
      else if ev_format ev = RELAY_EVENT_FORMAT_V2 then
        (if ev_previous_digest ev \<noteq> [] then
           Err (Bail ''v2 relay event {} must not carry a previous_digest'' [ANat (ev_ordinal ev)])
         else
           Ok (digest_over env RELAY_EVENT_DIGEST_DOMAIN_V2
                 (payload_json env
                    \<lparr>dp_ordinal = ev_ordinal ev, dp_previous_digest = None,
                     dp_recorded_at_ms = ev_recorded_at_ms ev, dp_command_id = ev_command_id ev,
                     dp_observation = ev_observation ev\<rparr>)))
      else Err (Bail ''unknown relay event format {} at event {}''
                  [ANat (ev_format ev), ANat (ev_ordinal ev)]))"

definition validate_relay_event_self :: "relay_env \<Rightarrow> relay_event \<Rightarrow> unit relay_result" where
  "validate_relay_event_self env ev =
     obind (validate_relay_digest (ev_digest ev) ''event digest'') (\<lambda>_.
     obind (relay_event_digest env ev) (\<lambda>expected.
       if ev_digest ev \<noteq> expected
       then Err (Bail ''relay event {} digest is invalid'' [ANat (ev_ordinal ev)])
       else Ok ()))"

definition validate_relay_event ::
  "relay_env \<Rightarrow> u64 \<Rightarrow> string \<Rightarrow> relay_event \<Rightarrow> unit relay_result" where
  "validate_relay_event env previous_ordinal previous_digest ev =
     obind (validate_relay_digest previous_digest ''previous cursor digest'') (\<lambda>_.
     obind (ok_or (checked_add_u64 previous_ordinal 1) (Bail ''relay event ordinal exhausted'' []))
       (\<lambda>expected_ordinal.
       if ev_ordinal ev \<noteq> expected_ordinal then
         Err (Bail ''relay event gap: expected {}, found {}''
                [ANat expected_ordinal, ANat (ev_ordinal ev)])
       else if ev_format ev = RELAY_EVENT_FORMAT_V1 \<and> ev_previous_digest ev \<noteq> previous_digest then
         Err (Bail ''relay event {} previous digest does not match cursor'' [ANat (ev_ordinal ev)])
       else validate_relay_event_self env ev))"

section \<open>The text a finished shell adds to the next prompt\<close>

definition replace_char :: "char \<Rightarrow> string \<Rightarrow> string \<Rightarrow> string" where
  "replace_char c w s = concat (map (\<lambda>x. if x = c then w else [x]) s)"

definition escaped :: "string \<Rightarrow> string" where
  "escaped s =
     replace_char (CHR ''>'') ''&gt;''
       (replace_char (CHR ''<'') ''&lt;'' (replace_char (CHR ''&'') ''&amp;'' s))"

definition show_int :: "int \<Rightarrow> string" where
  "show_int i = (if i < 0 then CHR ''-'' # show_nat (nat (- i)) else show_nat (nat i))"

fun shell_status_name :: "user_shell_status \<Rightarrow> string" where
  "shell_status_name ShExited = ''exited''"
| "shell_status_name ShSignaled = ''signaled''"
| "shell_status_name ShTimedOut = ''timed_out''"
| "shell_status_name ShCancelled = ''cancelled''"
| "shell_status_name ShInterrupted = ''interrupted''"
| "shell_status_name ShFailed = ''failed''"

abbreviation newline :: string where
  "newline \<equiv> [CHR 0x0A]"

definition prompt_context_result :: "user_shell_result \<Rightarrow> string" where
  "prompt_context_result r =
     ''status: '' @ shell_status_name (us_status r) @ newline
     @ ''duration_ms: '' @ show_nat (us_duration_ms r)
     @ (case us_exit_code r of Some c \<Rightarrow> newline @ ''exit_code: '' @ show_int c | None \<Rightarrow> [])
     @ (case us_signal r of Some g \<Rightarrow> newline @ ''signal: '' @ escaped g | None \<Rightarrow> [])
     @ (case us_error r of Some e \<Rightarrow> newline @ ''error: '' @ escaped e | None \<Rightarrow> [])
     @ (if us_stdout r \<noteq> [] then newline @ ''stdout:'' @ newline @ escaped (us_stdout r) else [])
     @ (if us_stderr r \<noteq> [] then newline @ ''stderr:'' @ newline @ escaped (us_stderr r) else [])"

definition prompt_context :: "user_shell_result \<Rightarrow> string" where
  "prompt_context r =
     ''<user_shell_command>'' @ newline @ ''<command>'' @ escaped (us_command r) @ ''</command>''
     @ newline @ ''<result>'' @ prompt_context_result r @ ''</result>'' @ newline
     @ ''</user_shell_command>''"

section \<open>The arms of apply\_relay\_event\<close>

definition set_dispatch_state :: "string \<Rightarrow> dispatch_state \<Rightarrow> relay_snapshot \<Rightarrow> relay_snapshot" where
  "set_dispatch_state cid st s =
     s\<lparr>dispatches := bt_modify cid (d_state_update (\<lambda>_. st)) (dispatches s)\<rparr>"

definition set_terminal_ordinal :: "string \<Rightarrow> u64 \<Rightarrow> relay_snapshot \<Rightarrow> relay_snapshot" where
  "set_terminal_ordinal cid n s =
     s\<lparr>handled_commands := bt_modify cid (h_terminal_ordinal_update (\<lambda>_. Some n)) (handled_commands s)\<rparr>"

definition clear_barrier :: "relay_snapshot \<Rightarrow> relay_snapshot" where
  "clear_barrier s =
     s\<lparr>checkpoint_barrier := None, checkpoint_ready_through := None, checkpoint_ready_digest := None\<rparr>"

fun queue_payload :: "relay_command \<Rightarrow> stored_queued_payload option" where
  "queue_payload (Prompt p) = Some (QPrompt p)"
| "queue_payload (SetConfig k v) = Some (QSetConfig k v)"
| "queue_payload _ = None"

definition apply_command_queued ::
  "u64 \<Rightarrow> string \<Rightarrow> relay_command \<Rightarrow> i64 \<Rightarrow> relay_snapshot \<Rightarrow> relay_snapshot" where
  "apply_command_queued ordinal cid cmd created s =
     (let s1 = s\<lparr>handled_commands :=
                  bt_insert cid \<lparr>h_command = cmd, h_accepted_ordinal = ordinal,
                                 h_terminal_ordinal = None\<rparr> (handled_commands s),
                dispatches :=
                  bt_insert cid \<lparr>d_command = cmd, d_state = DQueued\<rparr> (dispatches s)\<rparr>;
          s2 = (case queue_payload cmd of
                  Some p \<Rightarrow> s1\<lparr>queued_prompts := queued_prompts s1 @
                               [\<lparr>q_command_id = cid, q_payload = p, q_created_at_ms = created\<rparr>]\<rparr>
                | None \<Rightarrow> s1);
          s3 = (case cmd of
                  RunUserShell c \<Rightarrow> s2\<lparr>active_user_shells :=
                    bt_insert cid \<lparr>sh_command_id = cid, sh_command = c, sh_created_at_ms = created,
                                   sh_started_at_ms = None\<rparr> (active_user_shells s2)\<rparr>
                | _ \<Rightarrow> s2)
      in if is_close cmd then s3\<lparr>execution := ExClosing\<rparr> else s3)"

definition queue_find :: "string \<Rightarrow> stored_queued_command list \<Rightarrow> stored_queued_command option" where
  "queue_find cid q = find (\<lambda>x. q_command_id x = cid) q"

text \<open>\<open>Vec::remove\<close> at the position of the first entry with the given id.\<close>

fun queue_remove_first :: "string \<Rightarrow> stored_queued_command list \<Rightarrow> stored_queued_command list" where
  "queue_remove_first cid [] = []"
| "queue_remove_first cid (x # xs) =
     (if q_command_id x = cid then xs else x # queue_remove_first cid xs)"

definition start_prompt :: "string \<Rightarrow> i64 \<Rightarrow> relay_snapshot \<Rightarrow> relay_snapshot relay_result" where
  "start_prompt cid started s =
     obind (ok_or (queue_find cid (queued_prompts s)) (Bail ''started prompt {} was not queued'' [AStr cid]))
       (\<lambda>q. let s1 = s\<lparr>queued_prompts := queue_remove_first cid (queued_prompts s)\<rparr> in
            case q_payload q of
              QSetConfig _ _ \<Rightarrow> Err (Bail ''queued command {} is not a prompt'' [AStr cid])
            | QPrompt p \<Rightarrow>
                Ok (s1\<lparr>execution := ExRunning,
                       active_prompt := Some \<lparr>ap_command_id = q_command_id q, ap_prompt = p,
                          ap_created_at_ms = q_created_at_ms q, ap_started_at_ms = started\<rparr>\<rparr>))"

definition start_config :: "string \<Rightarrow> relay_snapshot \<Rightarrow> relay_snapshot relay_result" where
  "start_config cid s =
     obind (ok_or (queue_find cid (queued_prompts s))
              (Bail ''started configuration change {} was not queued'' [AStr cid]))
       (\<lambda>_. Ok (s\<lparr>queued_prompts := queue_remove_first cid (queued_prompts s)\<rparr>))"

definition start_user_shell :: "string \<Rightarrow> i64 \<Rightarrow> relay_snapshot \<Rightarrow> relay_snapshot relay_result" where
  "start_user_shell cid started s =
     (if bt_contains (active_user_shells s) cid then
        Ok (s\<lparr>active_user_shells :=
               bt_modify cid (sh_started_at_ms_update (\<lambda>_. Some started)) (active_user_shells s)\<rparr>)
      else Err (Bail ''started unknown user shell {}'' [AStr cid]))"

definition start_barrier :: "string \<Rightarrow> relay_snapshot \<Rightarrow> relay_snapshot relay_result" where
  "start_barrier cid s =
     (if checkpoint_barrier s \<noteq> None then
        Err (Bail ''checkpoint barrier started while another barrier was active'' [])
      else Ok (s\<lparr>checkpoint_barrier := Some cid, checkpoint_ready_through := None,
                 checkpoint_ready_digest := None\<rparr>))"

definition apply_command_started ::
  "string \<Rightarrow> i64 \<Rightarrow> relay_snapshot \<Rightarrow> relay_snapshot relay_result" where
  "apply_command_started cid started s =
     obind (ok_or (bt_get (dispatches s) cid) (Bail ''started unknown relay command {}'' [AStr cid]))
       (\<lambda>d. let s1 = set_dispatch_state cid DPending s in
            case d_command d of
              Prompt _ \<Rightarrow> start_prompt cid started s1
            | SetConfig _ _ \<Rightarrow> start_config cid s1
            | Close _ _ \<Rightarrow> Ok (s1\<lparr>execution := ExClosing\<rparr>)
            | RunUserShell _ \<Rightarrow> start_user_shell cid started s1
            | BeginCheckpoint _ \<Rightarrow> start_barrier cid s1
            | _ \<Rightarrow> Ok s1)"

text \<open>Completion of a prompt, also used for a prompt steered into a running turn.\<close>

definition drop_attached_contexts :: "string \<Rightarrow> relay_snapshot \<Rightarrow> relay_snapshot" where
  "drop_attached_contexts cid s =
     s\<lparr>pending_prompt_ctx :=
         (case pending_prompt_ctx s of
            Some c \<Rightarrow> if pc_attached c = Some cid then None else Some c
          | None \<Rightarrow> None),
       pending_user_shell_contexts :=
         filter (\<lambda>c. sc_attached c \<noteq> Some cid) (pending_user_shell_contexts s)\<rparr>"

definition complete_prompt :: "string \<Rightarrow> relay_snapshot \<Rightarrow> relay_snapshot" where
  "complete_prompt cid s =
     (let s1 = (if map_option ap_command_id (active_prompt s) = Some cid
                then s\<lparr>active_prompt := None\<rparr> else s);
          s2 = (if execution s1 = ExRunning then s1\<lparr>execution := ExIdle\<rparr> else s1)
      in drop_attached_contexts cid s2)"

definition complete_user_shell ::
  "string \<Rightarrow> user_shell_result \<Rightarrow> relay_snapshot \<Rightarrow> relay_snapshot relay_result" where
  "complete_user_shell cid result s =
     (let s1 = s\<lparr>active_user_shells := bt_remove cid (active_user_shells s)\<rparr> in
      obind (ok_or (bt_get (handled_commands s1) cid)
               (Bail ''completed user shell is not in the ledger'' []))
        (\<lambda>h. Ok (s1\<lparr>pending_user_shell_contexts := pending_user_shell_contexts s1 @
               [\<lparr>sc_shell_command_id = cid, sc_accepted_ordinal = h_accepted_ordinal h,
                 sc_text = prompt_context result, sc_attached = None\<rparr>]\<rparr>)))"

fun terminalize_each ::
  "u64 \<Rightarrow> string list \<Rightarrow> relay_snapshot \<Rightarrow> relay_snapshot relay_result" where
  "terminalize_each n [] s = Ok s"
| "terminalize_each n (cid # cids) s =
     obind (ok_or (bt_get (dispatches s) cid) (Bail ''removed unknown queued command {}'' [AStr cid]))
       (\<lambda>d. if \<not> is_queue_entry (d_command d) \<or> d_state d \<noteq> DQueued then
              Err (Bail ''removed command {} is not a queued command'' [AStr cid])
            else if \<not> bt_contains (handled_commands s) cid then
              Err (Bail ''removed command {} is not in the ledger'' [AStr cid])
            else terminalize_each n cids
                   (set_terminal_ordinal cid n (set_dispatch_state cid DRejected s)))"

definition terminalize_removed_prompts ::
  "string list \<Rightarrow> u64 \<Rightarrow> relay_snapshot \<Rightarrow> relay_snapshot relay_result" where
  "terminalize_removed_prompts cids n s =
     obind (terminalize_each n cids s)
       (\<lambda>s1. Ok (s1\<lparr>queued_prompts :=
                   filter (\<lambda>q. q_command_id q \<notin> set cids) (queued_prompts s1)\<rparr>))"

definition complete_remove_queued ::
  "u64 \<Rightarrow> string \<Rightarrow> string list \<Rightarrow> relay_snapshot \<Rightarrow> relay_snapshot relay_result" where
  "complete_remove_queued n target removed s =
     (let expected = (if list_ex (\<lambda>q. q_command_id q = target) (queued_prompts s)
                      then Some [target] else None)
      in if expected \<noteq> Some removed then
           Err (Bail ''removed queue outcome does not match the durable queue'' [])
         else terminalize_removed_prompts removed n s)"

definition complete_clear_queued ::
  "u64 \<Rightarrow> string list \<Rightarrow> relay_snapshot \<Rightarrow> relay_snapshot relay_result" where
  "complete_clear_queued n removed s =
     (if map q_command_id (queued_prompts s) \<noteq> removed then
        Err (Bail ''cleared queue outcome does not match the durable queue'' [])
      else terminalize_removed_prompts removed n s)"

definition complete_steered :: "u64 \<Rightarrow> string \<Rightarrow> relay_snapshot \<Rightarrow> relay_snapshot relay_result" where
  "complete_steered n target s =
     (case queued_prompts s of
        [] \<Rightarrow> Err (Bail ''steered prompt is no longer queued'' [])
      | q # rest \<Rightarrow>
          if q_command_id q \<noteq> target \<or> (case q_payload q of QPrompt _ \<Rightarrow> False | _ \<Rightarrow> True) then
            Err (Bail ''steered prompt is not the queued prompt head'' [])
          else
            obind (ok_or (bt_get (dispatches s) target) (Bail ''steered unknown queued prompt'' []))
              (\<lambda>d. if d_state d \<noteq> DQueued \<or> \<not> is_prompt (d_command d) then
                     Err (Bail ''steered target is not a queued prompt'' [])
                   else if \<not> bt_contains (handled_commands s) target then
                     Err (Bail ''steered prompt is not in the ledger'' [])
                   else
                     let s1 = set_terminal_ordinal target n (set_dispatch_state target DCompleted s)
                     in Ok (drop_attached_contexts target (s1\<lparr>queued_prompts := rest\<rparr>))))"

definition finish_barrier :: "u64 \<Rightarrow> string \<Rightarrow> relay_snapshot \<Rightarrow> relay_snapshot" where
  "finish_barrier n barrier s =
     set_terminal_ordinal barrier n (set_dispatch_state barrier DCompleted (clear_barrier s))"

definition complete_checkpoint ::
  "u64 \<Rightarrow> string \<Rightarrow> relay_snapshot \<Rightarrow> relay_snapshot relay_result" where
  "complete_checkpoint n barrier s =
     (if checkpoint_barrier s \<noteq> Some barrier then
        Err (Bail ''checkpoint completion does not match the active barrier'' [])
      else
        obind (ok_or (checkpoint_ready_through s) (Bail ''checkpoint barrier was not ready'' []))
          (\<lambda>ready_through.
        obind (ok_or (checkpoint_ready_digest s) (Bail ''checkpoint barrier ready digest is missing'' []))
          (\<lambda>ready_digest.
             Ok (finish_barrier n barrier
                   (s\<lparr>recovery_floor_ordinal := ready_through,
                      recovery_floor_digest := ready_digest\<rparr>)))))"

definition complete_release ::
  "u64 \<Rightarrow> string \<Rightarrow> relay_snapshot \<Rightarrow> relay_snapshot relay_result" where
  "complete_release n barrier s =
     (if checkpoint_barrier s \<noteq> Some barrier then
        Err (Bail ''checkpoint release does not match the active barrier'' [])
      else if checkpoint_ready_through s = None then
        Err (Bail ''checkpoint barrier was not ready'' [])
      else Ok (finish_barrier n barrier s))"

definition complete_floor :: "relay_cursor \<Rightarrow> relay_snapshot \<Rightarrow> relay_snapshot relay_result" where
  "complete_floor through s =
     (if cur_ordinal through < recovery_floor_ordinal s then
        Err (Bail ''recovery floor cannot move back'' [])
      else Ok (s\<lparr>recovery_floor_ordinal := cur_ordinal through,
                 recovery_floor_digest := cur_digest through\<rparr>))"

abbreviation incompatible_outcome :: "relay_command \<Rightarrow> relay_snapshot relay_result" where
  "incompatible_outcome cmd \<equiv>
     Err (Bail ''relay command {:?} has incompatible completion outcome {outcome:?}'' [])"

definition complete_outcome ::
  "u64 \<Rightarrow> string \<Rightarrow> relay_command \<Rightarrow> relay_command_outcome \<Rightarrow> relay_snapshot
     \<Rightarrow> relay_snapshot relay_result" where
  "complete_outcome n cid cmd outcome s =
     (case cmd of
        Prompt _ \<Rightarrow>
          (case outcome of OPrompt _ \<Rightarrow> Ok (complete_prompt cid s) | _ \<Rightarrow> incompatible_outcome cmd)
      | RunUserShell _ \<Rightarrow>
          (case outcome of OUserShell r \<Rightarrow> complete_user_shell cid r s | _ \<Rightarrow> incompatible_outcome cmd)
      | CancelUserShell _ \<Rightarrow>
          (case outcome of OUserShellCancelled \<Rightarrow> Ok s | _ \<Rightarrow> incompatible_outcome cmd)
      | RemoveQueuedPrompt target \<Rightarrow>
          (case outcome of OQueueChanged removed \<Rightarrow> complete_remove_queued n target removed s
           | _ \<Rightarrow> incompatible_outcome cmd)
      | ClearQueuedPrompts \<Rightarrow>
          (case outcome of OQueueChanged removed \<Rightarrow> complete_clear_queued n removed s
           | _ \<Rightarrow> incompatible_outcome cmd)
      | SetConfig k v \<Rightarrow>
          (case outcome of OConfigured \<Rightarrow> Ok (s\<lparr>config := bt_insert k v (config s)\<rparr>)
           | _ \<Rightarrow> incompatible_outcome cmd)
      | SetSessionMode m \<Rightarrow>
          (case outcome of OSessionModeSet \<Rightarrow> Ok (s\<lparr>config := bt_insert ''mode'' m (config s)\<rparr>)
           | _ \<Rightarrow> incompatible_outcome cmd)
      | Cancel \<Rightarrow>
          (case outcome of OCancelled \<Rightarrow> Ok s | OSteered target \<Rightarrow> complete_steered n target s
           | _ \<Rightarrow> incompatible_outcome cmd)
      | Close _ _ \<Rightarrow>
          (case outcome of OClosed \<Rightarrow> Ok (s\<lparr>execution := ExClosed, active_prompt := None\<rparr>)
           | _ \<Rightarrow> incompatible_outcome cmd)
      | BeginCheckpoint _ \<Rightarrow> Err (Bail ''checkpoint barriers complete through checkpoint-ready'' [])
      | CompleteCheckpoint barrier \<Rightarrow>
          (case outcome of OCheckpointCompleted \<Rightarrow> complete_checkpoint n barrier s
           | _ \<Rightarrow> incompatible_outcome cmd)
      | ReleaseCheckpoint barrier \<Rightarrow>
          (case outcome of OCheckpointReleased \<Rightarrow> complete_release n barrier s
           | _ \<Rightarrow> incompatible_outcome cmd)
      | AdvanceRecoveryFloor through \<Rightarrow>
          (case outcome of ORecoveryFloorAdvanced \<Rightarrow> complete_floor through s
           | _ \<Rightarrow> incompatible_outcome cmd)
      | RecordNotice _ \<Rightarrow>
          (case outcome of ONoticeRecorded \<Rightarrow> Ok s | _ \<Rightarrow> incompatible_outcome cmd))"

definition apply_command_completed ::
  "u64 \<Rightarrow> string \<Rightarrow> relay_command_outcome \<Rightarrow> relay_snapshot \<Rightarrow> relay_snapshot relay_result" where
  "apply_command_completed n cid outcome s =
     obind (ok_or (bt_get (dispatches s) cid) (Bail ''completed unknown relay command {}'' [AStr cid]))
       (\<lambda>d. if \<not> bt_contains (handled_commands s) cid then
              Err (Bail ''completed command {} is not in the ledger'' [AStr cid])
            else
              complete_outcome n cid (d_command d) outcome
                (set_terminal_ordinal cid n (set_dispatch_state cid DCompleted s)))"

definition terminated_shell_context ::
  "dispatch_state \<Rightarrow> string \<Rightarrow> relay_command \<Rightarrow> string \<Rightarrow> relay_snapshot \<Rightarrow> relay_snapshot" where
  "terminated_shell_context st cid cmd message s =
     (case cmd of
        RunUserShell c \<Rightarrow>
          (case bt_get (handled_commands s) cid of
             Some h \<Rightarrow>
               s\<lparr>pending_user_shell_contexts := pending_user_shell_contexts s @
                   [\<lparr>sc_shell_command_id = cid, sc_accepted_ordinal = h_accepted_ordinal h,
                     sc_text = prompt_context
                       \<lparr>us_command = c, us_stdout = [], us_stderr = [], us_stdout_truncated = False,
                        us_stderr_truncated = False, us_exit_code = None, us_signal = None,
                        us_duration_ms = 0,
                        us_status = (if st = DRejected then ShFailed else ShInterrupted),
                        us_error = Some message\<rparr>,
                     sc_attached = None\<rparr>]\<rparr>
           | None \<Rightarrow> s)
      | _ \<Rightarrow> s)"

definition detach_contexts :: "string \<Rightarrow> relay_snapshot \<Rightarrow> relay_snapshot" where
  "detach_contexts cid s =
     s\<lparr>pending_prompt_ctx :=
         map_option (\<lambda>c. if pc_attached c = Some cid then c\<lparr>pc_attached := None\<rparr> else c)
           (pending_prompt_ctx s),
       pending_user_shell_contexts :=
         map (\<lambda>c. if sc_attached c = Some cid then c\<lparr>sc_attached := None\<rparr> else c)
           (pending_user_shell_contexts s)\<rparr>"

definition apply_command_terminated ::
  "dispatch_state \<Rightarrow> u64 \<Rightarrow> string \<Rightarrow> relay_command_kind \<Rightarrow> string \<Rightarrow> relay_snapshot
     \<Rightarrow> relay_snapshot relay_result" where
  "apply_command_terminated st n cid observed message s =
     obind (ok_or (bt_get (dispatches s) cid) (Bail ''terminated unknown relay command {}'' [AStr cid]))
       (\<lambda>d. let cmd = d_command d in
        if command_kind cmd \<noteq> observed then
          Err (Bail ''terminated command {} has the wrong command identity'' [AStr cid])
        else if \<not> bt_contains (handled_commands s) cid then
          Err (Bail ''terminated command {} is not in the ledger'' [AStr cid])
        else
          let s1 = set_terminal_ordinal cid n (set_dispatch_state cid st s);
              s2 = s1\<lparr>queued_prompts := filter (\<lambda>q. q_command_id q \<noteq> cid) (queued_prompts s1),
                      active_user_shells := bt_remove cid (active_user_shells s1)\<rparr>;
              s3 = terminated_shell_context st cid cmd message s2;
              s4 = (if map_option ap_command_id (active_prompt s3) = Some cid
                    then s3\<lparr>active_prompt := None, execution := ExIdle\<rparr> else s3);
              s5 = detach_contexts cid s4;
              s6 = (if is_begin_checkpoint cmd \<and> checkpoint_barrier s5 = Some cid
                    then clear_barrier s5 else s5)
          in Ok (if is_close cmd \<and> execution s6 = ExClosing then s6\<lparr>execution := ExIdle\<rparr> else s6))"

definition apply_checkpoint_ready ::
  "relay_event \<Rightarrow> string \<Rightarrow> u64 \<Rightarrow> relay_snapshot \<Rightarrow> relay_snapshot relay_result" where
  "apply_checkpoint_ready ev cid through s =
     obind (ok_or (bt_get (dispatches s) cid) (Bail ''checkpoint ready for unknown command {}'' [AStr cid]))
       (\<lambda>d. if \<not> is_begin_checkpoint (d_command d) then
              Err (Bail ''checkpoint ready for non-barrier command {}'' [AStr cid])
            else if checkpoint_barrier s \<noteq> Some cid then
              Err (Bail ''checkpoint ready does not match the active barrier'' [])
            else if through \<noteq> ev_ordinal ev then
              Err (Bail ''checkpoint ready frontier does not match its event ordinal'' [])
            else Ok (s\<lparr>checkpoint_ready_through := Some through,
                       checkpoint_ready_digest := Some (ev_digest ev)\<rparr>))"

definition apply_session_update :: "session_update \<Rightarrow> relay_snapshot \<Rightarrow> relay_snapshot" where
  "apply_session_update u s =
     (case u of
        AvailableCommandsUpdate cs \<Rightarrow> s\<lparr>available_commands := cs\<rparr>
      | ConfigOptionUpdate os \<Rightarrow> s\<lparr>config_options := os\<rparr>
      | CurrentModeUpdate m \<Rightarrow>
          s\<lparr>modes := map_option (current_mode_id_update (\<lambda>_. m)) (modes s),
            config := bt_insert ''mode'' m (config s)\<rparr>
      | _ \<Rightarrow> s)"

definition apply_observation :: "relay_event \<Rightarrow> relay_snapshot \<Rightarrow> relay_snapshot relay_result" where
  "apply_observation ev s =
     (case ev_observation ev of
        AgentInitialized _ caps info \<Rightarrow> Ok (s\<lparr>agent_capabilities := Some caps, agent_info := info\<rparr>)
      | SessionOpened sid _ \<Rightarrow> Ok (s\<lparr>native_session_id := Some sid\<rparr>)
      | SessionConfigured opts \<Rightarrow> Ok (s\<lparr>config_options := opts\<rparr>)
      | SessionModesConfigured ms \<Rightarrow> Ok (s\<lparr>modes := ms\<rparr>)
      | CommandQueued cid cmd created \<Rightarrow> Ok (apply_command_queued (ev_ordinal ev) cid cmd created s)
      | CommandStarted cid started \<Rightarrow> apply_command_started cid started s
      | CommandCompleted cid outcome \<Rightarrow> apply_command_completed (ev_ordinal ev) cid outcome s
      | CommandRejected cid kind message \<Rightarrow>
          apply_command_terminated DRejected (ev_ordinal ev) cid kind message s
      | CommandInterrupted cid kind message \<Rightarrow>
          apply_command_terminated DInterrupted (ev_ordinal ev) cid kind message s
      | ConfigurationUpdated k v \<Rightarrow> Ok (s\<lparr>config := bt_insert k v (config s)\<rparr>)
      | CheckpointReady cid through \<Rightarrow> apply_checkpoint_ready ev cid through s
      | Closing \<Rightarrow> Ok (s\<lparr>execution := ExClosing\<rparr>)
      | Closed \<Rightarrow> Ok (s\<lparr>execution := ExClosed, active_prompt := None\<rparr>)
      | SessionUpdated u \<Rightarrow> Ok (apply_session_update u s)
      | _ \<Rightarrow> Ok s)"

definition advance_frontier :: "relay_event \<Rightarrow> relay_snapshot \<Rightarrow> relay_snapshot" where
  "advance_frontier ev s = s\<lparr>latest_ordinal := ev_ordinal ev, latest_digest := ev_digest ev\<rparr>"

definition apply_relay_event ::
  "relay_env \<Rightarrow> relay_event \<Rightarrow> relay_snapshot \<Rightarrow> relay_snapshot relay_result" where
  "apply_relay_event env ev s =
     obind (validate_relay_event env (latest_ordinal s) (latest_digest s) ev) (\<lambda>_.
     obind (apply_observation ev s) (\<lambda>s1. Ok (advance_frontier ev s1)))"

section \<open>Which observations move state beyond the frontier\<close>

fun observation_changes_state :: "relay_observation \<Rightarrow> bool" where
  "observation_changes_state (AgentInitialized _ _ _) = True"
| "observation_changes_state (SessionOpened _ _) = True"
| "observation_changes_state (SessionConfigured _) = True"
| "observation_changes_state (SessionModesConfigured _) = True"
| "observation_changes_state (CommandQueued _ _ _) = True"
| "observation_changes_state (CommandStarted _ _) = True"
| "observation_changes_state (CommandCompleted _ _) = True"
| "observation_changes_state (CommandRejected _ _ _) = True"
| "observation_changes_state (CommandInterrupted _ _ _) = True"
| "observation_changes_state (ConfigurationUpdated _ _) = True"
| "observation_changes_state (CheckpointReady _ _) = True"
| "observation_changes_state Closing = True"
| "observation_changes_state Closed = True"
| "observation_changes_state (SessionUpdated u) =
     (case u of AvailableCommandsUpdate _ \<Rightarrow> True | ConfigOptionUpdate _ \<Rightarrow> True
      | CurrentModeUpdate _ \<Rightarrow> True | _ \<Rightarrow> False)"
| "observation_changes_state _ = False"

section \<open>Frontier validation of a stored snapshot\<close>

definition validate_relay_snapshot_frontiers :: "relay_snapshot \<Rightarrow> unit relay_result" where
  "validate_relay_snapshot_frontiers s =
     (if acknowledged_through s > latest_ordinal s then
        Err (Bail ''relay acknowledgement is ahead of the event frontier'' [])
      else if recovery_floor_ordinal s > latest_ordinal s then
        Err (Bail ''relay recovery floor is ahead of the event frontier'' [])
      else
        obind (validate_relay_digest (latest_digest s) ''relay latest digest'') (\<lambda>_.
        obind (validate_relay_digest (acknowledged_digest s) ''relay acknowledgement digest'') (\<lambda>_.
        obind (validate_relay_digest (recovery_floor_digest s) ''relay recovery floor digest'') (\<lambda>_.
          if (latest_ordinal s = 0) \<noteq> (latest_digest s = RELAY_EVENT_GENESIS_DIGEST) then
            Err (Bail ''relay latest frontier and genesis digest disagree'' [])
          else if (acknowledged_through s = 0) \<noteq> (acknowledged_digest s = RELAY_EVENT_GENESIS_DIGEST) then
            Err (Bail ''relay acknowledgement frontier and genesis digest disagree'' [])
          else if (recovery_floor_ordinal s = 0) \<noteq> (recovery_floor_digest s = RELAY_EVENT_GENESIS_DIGEST) then
            Err (Bail ''relay recovery floor and genesis digest disagree'' [])
          else Ok ()))))"

section \<open>Facts about validation\<close>

lemma validate_relay_digest_Ok [simp]: "validate_relay_digest d name = Ok u \<longleftrightarrow> is_hex_digest d"
  by (auto simp: validate_relay_digest_def is_hex_digest_def)

lemma validate_relay_digest_total: "validate_relay_digest d name \<noteq> Diverges"
  by (simp add: validate_relay_digest_def)

lemma relay_event_digest_V2:
  assumes "ev_format ev = RELAY_EVENT_FORMAT_V2" "ev_previous_digest ev = []"
  shows "\<exists>b. relay_event_digest env ev = Ok (sha256_hex env b)"
  using assms
  by (auto simp: relay_event_digest_def RELAY_EVENT_FORMAT_V1_def RELAY_EVENT_FORMAT_V2_def digest_over_def)

lemma relay_event_digest_Ok:
  "relay_event_digest env ev = Ok d \<Longrightarrow> \<exists>b. d = sha256_hex env b"
  by (auto simp: relay_event_digest_def digest_over_def split: if_splits)

lemma relay_event_digest_cong:
  "relay_event_digest env (ev\<lparr>ev_digest := d\<rparr>) = relay_event_digest env ev"
  by (simp add: relay_event_digest_def)

lemma validate_relay_event_self_Ok:
  "validate_relay_event_self env ev = Ok u \<longleftrightarrow>
     is_hex_digest (ev_digest ev) \<and> relay_event_digest env ev = Ok (ev_digest ev)"
  by (auto simp: validate_relay_event_self_def split: if_splits)

lemma validate_relay_event_Ok:
  "validate_relay_event env n d ev = Ok u \<longleftrightarrow>
     is_hex_digest d \<and> n + 1 \<le> u64_max \<and> ev_ordinal ev = n + 1
     \<and> (ev_format ev = RELAY_EVENT_FORMAT_V1 \<longrightarrow> ev_previous_digest ev = d)
     \<and> validate_relay_event_self env ev = Ok ()"
  by (auto simp: validate_relay_event_def split: if_splits)

lemma validate_relay_event_total: "validate_relay_event env n d ev \<noteq> Diverges"
  by (auto simp: validate_relay_event_def validate_relay_event_self_def relay_event_digest_def
        validate_relay_digest_def ok_or_def checked_add_u64_def)

lemma validated_digest:
  assumes "env_ok env" "validate_relay_event env n d ev = Ok u"
  shows "is_hex_digest (ev_digest ev)" "ev_digest ev \<noteq> RELAY_EVENT_GENESIS_DIGEST"
proof -
  from assms(2) have self: "is_hex_digest (ev_digest ev)" "relay_event_digest env ev = Ok (ev_digest ev)"
    by (simp_all add: validate_relay_event_Ok validate_relay_event_self_Ok)
  from relay_event_digest_Ok [OF self(2)] obtain b where "ev_digest ev = sha256_hex env b" ..
  with assms(1) self show "is_hex_digest (ev_digest ev)" "ev_digest ev \<noteq> RELAY_EVENT_GENESIS_DIGEST"
    by (simp_all add: env_okD)
qed

section \<open>Frontier and transcript\<close>

named_theorems apply_defs \<open>the arms of \<open>apply_observation\<close>\<close>

lemmas [apply_defs] =
  apply_command_queued_def apply_command_started_def start_prompt_def start_config_def
  start_user_shell_def start_barrier_def drop_attached_contexts_def complete_prompt_def
  complete_user_shell_def terminalize_removed_prompts_def complete_remove_queued_def
  complete_clear_queued_def complete_steered_def finish_barrier_def complete_checkpoint_def
  complete_release_def complete_floor_def complete_outcome_def apply_command_completed_def
  terminated_shell_context_def detach_contexts_def apply_command_terminated_def
  apply_checkpoint_ready_def apply_session_update_def clear_barrier_def
  set_dispatch_state_def set_terminal_ordinal_def

lemma terminalize_each_frame:
  "terminalize_each n cids s = Ok s' \<Longrightarrow>
     \<exists>h d. s' = s\<lparr>handled_commands := h, dispatches := d\<rparr>"
proof (induction n cids s rule: terminalize_each.induct)
  case (1 n s)
  then have "s' = s\<lparr>handled_commands := handled_commands s, dispatches := dispatches s\<rparr>" by simp
  then show ?case by blast
next
  case (2 n cid cids s)
  let ?s = "set_terminal_ordinal cid n (set_dispatch_state cid DRejected s)"
  from "2.prems" obtain d where get: "bt_get (dispatches s) cid = Some d"
    and ok: "is_queue_entry (d_command d)" "d_state d = DQueued" "bt_contains (handled_commands s) cid"
    and rest: "terminalize_each n cids ?s = Ok s'"
    by (auto split: if_splits)
  from get ok have "ok_or (bt_get (dispatches s) cid) (Bail ''removed unknown queued command {}'' [AStr cid]) = Ok d"
    by simp
  from "2.IH" [OF _ _ rest, of d] ok obtain h e
    where "s' = ?s\<lparr>handled_commands := h, dispatches := e\<rparr>"
    by blast
  then have "s' = s\<lparr>handled_commands := h, dispatches := e\<rparr>"
    by (simp add: set_dispatch_state_def set_terminal_ordinal_def)
  then show ?case by blast
qed

lemma apply_relay_event_Ok:
  "apply_relay_event env ev s = Ok s' \<longleftrightarrow>
     validate_relay_event env (latest_ordinal s) (latest_digest s) ev = Ok ()
     \<and> (\<exists>s1. apply_observation ev s = Ok s1 \<and> s' = advance_frontier ev s1)"
  by (auto simp: apply_relay_event_def)

text \<open>Applying an event moves the frontier by exactly that event.\<close>

lemma apply_relay_event_frontier:
  assumes "apply_relay_event env ev s = Ok s'"
  shows "latest_ordinal s' = Suc (latest_ordinal s)" "latest_ordinal s' = ev_ordinal ev"
    "latest_digest s' = ev_digest ev"
  using assms by (auto simp: apply_relay_event_Ok validate_relay_event_Ok advance_frontier_def)

text \<open>An observation that does not change state leaves everything but the frontier alone.\<close>

lemma apply_session_update_transcript:
  "\<not> observation_changes_state (SessionUpdated u) \<Longrightarrow> apply_session_update u s = s"
  by (cases u) (simp_all add: apply_session_update_def)

lemma apply_transcript:
  assumes "\<not> observation_changes_state (ev_observation ev)"
  shows "apply_observation ev s = Ok s"
proof (cases "ev_observation ev")
  case (SessionUpdated u)
  with assms show ?thesis
    by (simp only: apply_observation_def relay_observation.case apply_session_update_transcript
          not_False_eq_True)
qed (use assms in \<open>simp_all add: apply_observation_def\<close>)

end
