(* ===== verification/Relay_Example.thy ===== *)
theory Relay_Example
  imports Relay_Types "HOL-Library.Countable"
begin

text \<open>
  A concrete environment for the relay's parameters. The types of the model are countable, so
  every document has a number; \<open>table_code ts\<close> writes the documents of the list \<open>ts\<close> as short byte
  strings and every other one in unary. \<open>example_env\<close> uses it as the JSON codec, the identity as
  gzip and a constant digest, and satisfies \<open>env_ok\<close>.
\<close>

section \<open>The model's types are countable\<close>

instance json :: countable by countable_datatype

instance relay_cursor_ext :: (countable) countable
proof
  have "inj (\<lambda>r :: 'a relay_cursor_scheme.
          to_nat (cur_ordinal r, cur_digest r, relay_cursor.more r))"
    by (intro injI) simp
  then show "\<exists>f :: 'a relay_cursor_scheme \<Rightarrow> nat. inj f" by blast
qed

instance relay_command :: countable by countable_datatype

instance relay_command_kind :: countable by countable_datatype

instance user_shell_status :: countable by countable_datatype

instance user_shell_result_ext :: (countable) countable
proof
  have "inj (\<lambda>r :: 'a user_shell_result_scheme.
          to_nat (us_command r, us_stdout r, us_stderr r, us_stdout_truncated r,
            us_stderr_truncated r, us_exit_code r, us_signal r, us_duration_ms r, us_status r,
            us_error r, user_shell_result.more r))"
    by (intro injI) simp
  then show "\<exists>f :: 'a user_shell_result_scheme \<Rightarrow> nat. inj f" by blast
qed

instance relay_command_outcome :: countable by countable_datatype

instance session_mode_state_ext :: (countable) countable
proof
  have "inj (\<lambda>r :: 'a session_mode_state_scheme.
          to_nat (current_mode_id r, available_modes r, session_mode_state.more r))"
    by (intro injI) simp
  then show "\<exists>f :: 'a session_mode_state_scheme \<Rightarrow> nat. inj f" by blast
qed

instance acp_diff_ext :: (countable) countable
proof
  have "inj (\<lambda>r :: 'a acp_diff_scheme.
          to_nat (diff_path r, old_text r, new_text r, diff_meta r, acp_diff.more r))"
    by (intro injI) simp
  then show "\<exists>f :: 'a acp_diff_scheme \<Rightarrow> nat. inj f" by blast
qed

instance tool_call_content :: countable by countable_datatype

instance session_update :: countable by countable_datatype

instance relay_observation :: countable by countable_datatype

instance relay_event_ext :: (countable) countable
proof
  have "inj (\<lambda>r :: 'a relay_event_scheme.
          to_nat (ev_format r, ev_ordinal r, ev_previous_digest r, ev_digest r,
            ev_recorded_at_ms r, ev_command_id r, ev_observation r, relay_event.more r))"
    by (intro injI) simp
  then show "\<exists>f :: 'a relay_event_scheme \<Rightarrow> nat. inj f" by blast
qed

instance relay_execution_state :: countable by countable_datatype

instance stored_queued_payload :: countable by countable_datatype

instance stored_queued_command_ext :: (countable) countable
proof
  have "inj (\<lambda>r :: 'a stored_queued_command_scheme.
          to_nat (q_command_id r, q_payload r, q_created_at_ms r, stored_queued_command.more r))"
    by (intro injI) simp
  then show "\<exists>f :: 'a stored_queued_command_scheme \<Rightarrow> nat. inj f" by blast
qed

instance stored_active_prompt_ext :: (countable) countable
proof
  have "inj (\<lambda>r :: 'a stored_active_prompt_scheme.
          to_nat (ap_command_id r, ap_prompt r, ap_created_at_ms r, ap_started_at_ms r,
            stored_active_prompt.more r))"
    by (intro injI) simp
  then show "\<exists>f :: 'a stored_active_prompt_scheme \<Rightarrow> nat. inj f" by blast
qed

instance pending_prompt_context_ext :: (countable) countable
proof
  have "inj (\<lambda>r :: 'a pending_prompt_context_scheme.
          to_nat (pc_text r, pc_attached r, pending_prompt_context.more r))"
    by (intro injI) simp
  then show "\<exists>f :: 'a pending_prompt_context_scheme \<Rightarrow> nat. inj f" by blast
qed

instance pending_user_shell_context_ext :: (countable) countable
proof
  have "inj (\<lambda>r :: 'a pending_user_shell_context_scheme.
          to_nat (sc_shell_command_id r, sc_accepted_ordinal r, sc_text r, sc_attached r,
            pending_user_shell_context.more r))"
    by (intro injI) simp
  then show "\<exists>f :: 'a pending_user_shell_context_scheme \<Rightarrow> nat. inj f" by blast
qed

instance active_user_shell_ext :: (countable) countable
proof
  have "inj (\<lambda>r :: 'a active_user_shell_scheme.
          to_nat (sh_command_id r, sh_command r, sh_created_at_ms r, sh_started_at_ms r,
            active_user_shell.more r))"
    by (intro injI) simp
  then show "\<exists>f :: 'a active_user_shell_scheme \<Rightarrow> nat. inj f" by blast
qed

instance dispatch_state :: countable by countable_datatype

instance dispatch_record_ext :: (countable) countable
proof
  have "inj (\<lambda>r :: 'a dispatch_record_scheme.
          to_nat (d_command r, d_state r, dispatch_record.more r))"
    by (intro injI) simp
  then show "\<exists>f :: 'a dispatch_record_scheme \<Rightarrow> nat. inj f" by blast
qed

instance handled_command_ext :: (countable) countable
proof
  have "inj (\<lambda>r :: 'a handled_command_scheme.
          to_nat (h_command r, h_accepted_ordinal r, h_terminal_ordinal r,
            handled_command.more r))"
    by (intro injI) simp
  then show "\<exists>f :: 'a handled_command_scheme \<Rightarrow> nat. inj f" by blast
qed

instance relay_snapshot_ext :: (countable) countable
proof
  have "inj (\<lambda>r :: 'a relay_snapshot_scheme.
          to_nat ((format_version r, session_id r, execution r, latest_ordinal r, latest_digest r,
             acknowledged_through r, acknowledged_digest r, recovery_floor_ordinal r,
             recovery_floor_digest r),
            (native_session_id r, agent_capabilities r, agent_info r, config_options r, modes r,
             available_commands r, config r),
            (active_prompt r, queued_prompts r, pending_prompt_ctx r,
             pending_user_shell_contexts r, active_user_shells r, checkpoint_barrier r,
             checkpoint_ready_through r, checkpoint_ready_digest r, handled_commands r,
             dispatches r, relay_snapshot.more r)))"
    by (intro injI) simp
  then show "\<exists>f :: 'a relay_snapshot_scheme \<Rightarrow> nat. inj f" by blast
qed

section \<open>A codec\<close>

fun table_index :: "'a \<Rightarrow> 'a list \<Rightarrow> nat option" where
  "table_index x [] = None"
| "table_index x (y # ys) = (if x = y then Some 0 else map_option Suc (table_index x ys))"

definition table_code :: "'a :: countable list \<Rightarrow> 'a \<Rightarrow> string" where
  "table_code ts x =
     (case table_index x ts of
        Some i \<Rightarrow> replicate (Suc i) (CHR ''t'')
      | None \<Rightarrow> replicate (Suc (to_nat x)) (CHR ''u''))"

definition table_decode :: "'a :: countable list \<Rightarrow> string \<Rightarrow> 'a option" where
  "table_decode ts b =
     (if b = [] then None
      else if hd b = CHR ''t'' then (if length b \<le> length ts then Some (ts ! (length b - 1)) else None)
      else Some (from_nat (length b - 1)))"

lemma table_index_Some: "table_index x ts = Some i \<Longrightarrow> i < length ts \<and> ts ! i = x"
  by (induction ts arbitrary: i) (auto split: if_splits)

lemma table_decode_code: "table_decode ts (table_code ts x) = Some x"
  using table_index_Some [of x ts]
  by (auto simp: table_code_def table_decode_def split: option.splits)

lemma table_code_chars: "set (table_code ts x) \<subseteq> {CHR ''t'', CHR ''u''}" "table_code ts x \<noteq> []"
  by (auto simp: table_code_def split: option.splits if_splits)

definition example_env :: "relay_event list \<Rightarrow> relay_snapshot list \<Rightarrow> relay_env" where
  "example_env es ss =
     \<lparr>sha256_hex = (\<lambda>_. replicate 64 (CHR ''a'')), payload_json = (\<lambda>_. []),
      event_json = table_code es, parse_event = table_decode es,
      snapshot_json = table_code ss, parse_snapshot = table_decode ss,
      parse_seed = (\<lambda>_. None), parse_content = Some,
      command_size = (\<lambda>_. 0), snapshot_size = (\<lambda>_. 0), state_size = (\<lambda>_. 0),
      observation_size = (\<lambda>_. 0), observation_value = (\<lambda>_. JNull),
      observation_from_value = (\<lambda>_. Inl []), value_size = (\<lambda>_. 0),
      gzip = (\<lambda>b. b), gunzip = (\<lambda>b. [Data b]), epoch_ms = int\<rparr>"

lemma env_ok_example [simp]: "env_ok (example_env es ss)"
proof -
  have "CHR 0x0A \<notin> set (table_code es e)" for e
    using table_code_chars(1) [of es e] by auto
  then show ?thesis
    by (simp add: env_ok_def example_env_def table_decode_code table_code_chars is_hex_digest_def
          is_ascii_digit_def RELAY_EVENT_GENESIS_DIGEST_def list_all_iff)
qed

text \<open>An event whose digest is what \<open>example_env\<close> computes.\<close>

definition example_event :: "u64 \<Rightarrow> relay_observation \<Rightarrow> relay_event" where
  "example_event n obs =
     \<lparr>ev_format = RELAY_EVENT_FORMAT_V2, ev_ordinal = n, ev_previous_digest = [],
      ev_digest = replicate 64 (CHR ''a''), ev_recorded_at_ms = 0, ev_command_id = None, ev_observation = obs\<rparr>"

end
