(* ===== verification/Relay_Clamp.thy ===== *)
theory Relay_Clamp
  imports Relay_Example
begin

text \<open>
  Fitting an observation into the byte budget of one event (\<open>src/src/hel_worker/snapshot.rs\<close>,
  \<open>longest_string_path\<close> to \<open>clamp_observation\<close>). The loop shortens the longest string until the
  document fits; it is a partial function, because there are documents on which it never returns.
\<close>

section \<open>Budgets\<close>

definition ensure_byte_budget :: "usize \<Rightarrow> usize \<Rightarrow> string \<Rightarrow> unit relay_result" where
  "ensure_byte_budget sz budget description =
     (if sz > budget then
        Err (Bail ''{} is too large ({} bytes; maximum {})'' [AStr description, ANat sz, ANat budget])
      else Ok ())"

section \<open>Strings of a document\<close>

datatype json_segment = Key string | Index usize

type_synonym json_path = "json_segment list"

text \<open>The walk keeps the first of the longest strings it has met.\<close>

fun walk :: "json \<Rightarrow> json_path \<Rightarrow> (json_path \<times> usize) option \<Rightarrow> (json_path \<times> usize) option"
  and walk_items :: "json list \<Rightarrow> usize \<Rightarrow> json_path \<Rightarrow> (json_path \<times> usize) option \<Rightarrow> (json_path \<times> usize) option"
  and walk_entries :: "(string \<times> json) list \<Rightarrow> json_path \<Rightarrow> (json_path \<times> usize) option \<Rightarrow> (json_path \<times> usize) option"
where
  "walk (JString text) path best =
     (case best of
        None \<Rightarrow> Some (path, length text)
      | Some (_, len) \<Rightarrow> if length text > len then Some (path, length text) else best)"
| "walk (JArray items) path best = walk_items items 0 path best"
| "walk (JObject entries) path best = walk_entries entries path best"
| "walk JNull path best = best"
| "walk (JBool _) path best = best"
| "walk (JNumber _) path best = best"
| "walk_items [] index path best = best"
| "walk_items (item # items) index path best =
     walk_items items (Suc index) path (walk item (path @ [Index index]) best)"
| "walk_entries [] path best = best"
| "walk_entries ((key, entry) # entries) path best =
     walk_entries entries path (walk entry (path @ [Key key]) best)"

definition longest_string_path :: "json \<Rightarrow> (json_path \<times> usize) option" where
  "longest_string_path v = walk v [] None"

text \<open>
  \<open>string_at_path\<close> hands out a mutable reference; here the change to make is an argument and the
  changed document is the result.
\<close>

fun update_entry :: "string \<Rightarrow> (json \<Rightarrow> json option) \<Rightarrow> (string \<times> json) list \<Rightarrow> (string \<times> json) list option" where
  "update_entry key f [] = None"
| "update_entry key f ((k, v) # entries) =
     (if k = key then map_option (\<lambda>v'. (k, v') # entries) (f v)
      else map_option ((#) (k, v)) (update_entry key f entries))"

fun string_at_path :: "(string \<Rightarrow> string) \<Rightarrow> json_path \<Rightarrow> json \<Rightarrow> json option" where
  "string_at_path f [] v = (case v of JString text \<Rightarrow> Some (JString (f text)) | _ \<Rightarrow> None)"
| "string_at_path f (Key key # path) v =
     (case v of
        JObject entries \<Rightarrow> map_option JObject (update_entry key (string_at_path f path) entries)
      | _ \<Rightarrow> None)"
| "string_at_path f (Index index # path) v =
     (case v of
        JArray items \<Rightarrow>
          if index < length items
          then map_option (\<lambda>v'. JArray (items[index := v'])) (string_at_path f path (items ! index))
          else None
      | _ \<Rightarrow> None)"

section \<open>Truncation\<close>

text \<open>The loop that moves a cut back to a character boundary.\<close>

fun floor_char_boundary :: "string \<Rightarrow> usize \<Rightarrow> usize" where
  "floor_char_boundary text 0 = 0"
| "floor_char_boundary text (Suc n) =
     (if is_char_boundary text (Suc n) then Suc n else floor_char_boundary text n)"

definition truncation_marker :: "usize \<Rightarrow> string" where
  "truncation_marker dropped =
     [CHR 0xE2, CHR 0x80, CHR 0xA6] @ '' [hel truncated '' @ show_nat dropped @ '' bytes]''"

definition truncate_with_marker :: "usize \<Rightarrow> string \<Rightarrow> string" where
  "truncate_with_marker keep text =
     (let cut = floor_char_boundary text (min keep (length text));
          dropped = length text - cut
      in take cut text @ truncation_marker dropped)"

text \<open>The mirror image, which moves the start of the kept part forward.\<close>

function ceil_char_boundary :: "string \<Rightarrow> usize \<Rightarrow> usize" where
  "ceil_char_boundary text start =
     (if start < length text \<and> \<not> is_char_boundary text start
      then ceil_char_boundary text (start + 1) else start)"
  by pat_completeness auto
termination by (relation "measure (\<lambda>(text, start). length text - start)") auto

declare ceil_char_boundary.simps [simp del]

definition truncate_start_with_marker :: "usize \<Rightarrow> string \<Rightarrow> string \<times> bool" where
  "truncate_start_with_marker keep text =
     (if length text \<le> keep then (text, False)
      else
        let start = ceil_char_boundary text (length text - keep)
        in (''[hel dropped '' @ show_nat start @ '' earlier bytes]'' @ [CHR 0x0A] @ drop start text, True))"

section \<open>The clamp\<close>

definition clamp_keep :: "usize \<Rightarrow> usize \<Rightarrow> usize \<Rightarrow> usize" where
  "clamp_keep len sz budget = max (len - (sz - budget + 64)) RELAY_TRUNCATION_FLOOR"

partial_function (option) clamp_loop ::
  "relay_env \<Rightarrow> usize \<Rightarrow> usize \<Rightarrow> json \<Rightarrow> (usize \<times> json) option" where
  "clamp_loop env budget sz v =
     (if sz > budget then
        (case longest_string_path v of
           None \<Rightarrow> Some (sz, v)
         | Some (path, len) \<Rightarrow>
             if len \<le> RELAY_TRUNCATION_FLOOR then Some (sz, v)
             else
               (case string_at_path (truncate_with_marker (clamp_keep len sz budget)) path v of
                  None \<Rightarrow> Some (sz, v)
                | Some v' \<Rightarrow> clamp_loop env budget (value_size env v') v'))
      else Some (sz, v))"

definition untruncatable_message :: "usize \<Rightarrow> usize \<Rightarrow> string" where
  "untruncatable_message original budget =
     ''dropped an observation that cannot be recorded: '' @ show_nat original @ '' bytes exceeds the ''
     @ show_nat budget @ '' byte event budget and its payload is not truncatable''"

definition unreadable_message :: "usize \<Rightarrow> string \<Rightarrow> string" where
  "unreadable_message original e =
     ''dropped an observation of '' @ show_nat original
     @ '' bytes: it could not be re-read after truncation: '' @ e"

definition clamp_observation :: "relay_env \<Rightarrow> relay_observation \<Rightarrow> usize \<Rightarrow> relay_observation relay_result" where
  "clamp_observation env obs budget =
     (let original = observation_size env obs in
      if original \<le> budget then Ok obs
      else
        (case clamp_loop env budget original (observation_value env obs) of
           None \<Rightarrow> Diverges
         | Some (sz, v) \<Rightarrow>
             if sz > budget then Ok (Warning (untruncatable_message original budget))
             else
               (case observation_from_value env v of
                  Inr clamped \<Rightarrow> Ok clamped
                | Inl e \<Rightarrow> Ok (Warning (unreadable_message original e)))))"

section \<open>Lengths\<close>

lemma floor_char_boundary_le: "floor_char_boundary text n \<le> n"
  by (induction "text" n rule: floor_char_boundary.induct) auto

lemma floor_char_boundary_fix: "is_char_boundary text n \<Longrightarrow> floor_char_boundary text n = n"
  by (cases n) simp_all

lemma floor_char_boundary_ok: "n \<le> length text \<Longrightarrow> is_char_boundary text (floor_char_boundary text n)"
  by (induction "text" n rule: floor_char_boundary.induct) (auto simp: is_char_boundary_def)

lemma show_nat_length_Suc: "length (show_nat (Suc n)) \<le> Suc (length (show_nat n))"
proof (induction n rule: less_induct)
  case (less n)
  show ?case
  proof (cases "n < 10")
    case True
    then show ?thesis by (simp add: show_nat.simps [of n] show_nat.simps [of "Suc n"] show_nat.simps [of "Suc n div 10"])
  next
    case False
    then have "Suc n div 10 = n div 10 \<or> Suc n div 10 = Suc (n div 10)" by (simp add: div_Suc)
    moreover have "length (show_nat (Suc (n div 10))) \<le> Suc (length (show_nat (n div 10)))"
      using False by (intro less) simp
    ultimately have "length (show_nat (Suc n div 10)) \<le> Suc (length (show_nat (n div 10)))" by auto
    then show ?thesis using False by (subst (1 2) show_nat.simps) simp
  qed
qed

lemma show_nat_length_add: "length (show_nat (a + b)) \<le> length (show_nat a) + b"
proof (induction b)
  case (Suc b)
  from show_nat_length_Suc [of "a + b"] Suc show ?case by simp
qed simp

lemma length_marker: "length (truncation_marker d) = 26 + length (show_nat d)"
  by (simp add: truncation_marker_def)

lemma length_truncate:
  assumes "keep \<le> length text"
  shows "length (truncate_with_marker keep text) \<le> keep + 26 + length (show_nat (length text - keep))"
proof -
  let ?cut = "floor_char_boundary text keep"
  have le: "?cut \<le> keep" by (rule floor_char_boundary_le)
  have "length text - ?cut = (length text - keep) + (keep - ?cut)" using assms le by simp
  then have "length (show_nat (length text - ?cut)) \<le> length (show_nat (length text - keep)) + (keep - ?cut)"
    using show_nat_length_add by simp
  then show ?thesis using assms le by (simp add: truncate_with_marker_def Let_def length_marker min_absorb1)
qed

section \<open>Strings and shape of a document\<close>

fun strings :: "json \<Rightarrow> string list" where
  "strings (JString t) = [t]"
| "strings (JArray vs) = concat (map strings vs)"
| "strings (JObject es) = concat (map (\<lambda>e. strings (snd e)) es)"
| "strings _ = []"

text \<open>The document with every string emptied.\<close>

fun skeleton :: "json \<Rightarrow> json" where
  "skeleton (JString _) = JString []"
| "skeleton (JArray vs) = JArray (map skeleton vs)"
| "skeleton (JObject es) = JObject (map (\<lambda>e. (fst e, skeleton (snd e))) es)"
| "skeleton v = v"

text \<open>Keys of an object are distinct, as they are in the map behind \<open>Value::Object\<close>.\<close>

fun json_ok :: "json \<Rightarrow> bool" where
  "json_ok (JArray vs) \<longleftrightarrow> (\<forall>v \<in> set vs. json_ok v)"
| "json_ok (JObject es) \<longleftrightarrow> distinct (map fst es) \<and> (\<forall>e \<in> set es. json_ok (snd e))"
| "json_ok _ \<longleftrightarrow> True"

definition excess :: "usize \<Rightarrow> json \<Rightarrow> nat" where
  "excess m v = sum_list (map (\<lambda>t. length t - m) (strings v))"

lemma excess_simps [simp]:
  "excess m (JString t) = length t - m"
  "excess m (JArray vs) = sum_list (map (excess m) vs)"
  "excess m (JObject es) = sum_list (map (\<lambda>e. excess m (snd e)) es)"
proof -
  have concat: "sum_list (concat xss) = sum_list (map sum_list xss)" for xss :: "nat list list"
    by (induction xss) simp_all
  show "excess m (JString t) = length t - m"
    "excess m (JArray vs) = sum_list (map (excess m) vs)"
    "excess m (JObject es) = sum_list (map (\<lambda>e. excess m (snd e)) es)"
    by (simp_all add: excess_def [abs_def] map_concat concat comp_def)
qed

text \<open>Reading the string at a path.\<close>

inductive reads :: "json_path \<Rightarrow> json \<Rightarrow> string \<Rightarrow> bool" where
  reads_string: "reads [] (JString t) t"
| reads_item: "i < length vs \<Longrightarrow> reads p (vs ! i) t \<Longrightarrow> reads (Index i # p) (JArray vs) t"
| reads_entry: "distinct (map fst es) \<Longrightarrow> (k, v) \<in> set es \<Longrightarrow> reads p v t \<Longrightarrow> reads (Key k # p) (JObject es) t"

lemma update_entry_split:
  assumes "k \<notin> fst ` set es"
  shows "update_entry k f (es @ (k, v) # es') = map_option (\<lambda>v'. es @ (k, v') # es') (f v)"
  using assms by (induction es) (auto simp: option.map_comp comp_def)

text \<open>What one truncation does to the document.\<close>

lemma string_at_path_reads:
  assumes "reads p v t" "json_ok v"
  shows "\<exists>v'. string_at_path f p v = Some v' \<and> skeleton v' = skeleton v \<and> json_ok v'
           \<and> set (strings v') \<subseteq> insert (f t) (set (strings v))
           \<and> excess m v' + (length t - m) = excess m v + (length (f t) - m)
           \<and> (f t = t \<longrightarrow> v' = v)"
  using assms
proof (induction rule: reads.induct)
  case (reads_string t)
  show ?case by (simp add: excess_def)
next
  case (reads_item i vs p t)
  from reads_item.prems reads_item.hyps have "json_ok (vs ! i)" by simp
  then obtain v' where v': "string_at_path f p (vs ! i) = Some v'" "skeleton v' = skeleton (vs ! i)" "json_ok v'"
    "set (strings v') \<subseteq> insert (f t) (set (strings (vs ! i)))"
    "excess m v' + (length t - m) = excess m (vs ! i) + (length (f t) - m)" "f t = t \<longrightarrow> v' = vs ! i"
    using reads_item.IH by blast
  let ?vs = "vs[i := v']"
  have split: "vs = take i vs @ vs ! i # drop (Suc i) vs" using reads_item.hyps(1) by (rule id_take_nth_drop)
  have upd: "?vs = take i vs @ v' # drop (Suc i) vs" using reads_item.hyps(1) by (rule upd_conv_take_nth_drop)
  have "map skeleton ?vs = map skeleton vs" by (simp add: upd v'(2)) (metis list.simps(9) map_append split)
  moreover have "\<forall>v \<in> set ?vs. json_ok v" using reads_item.prems v'(3) set_update_subset_insert [of vs i v'] by auto
  moreover have "set (strings (JArray ?vs)) \<subseteq> insert (f t) (set (strings (JArray vs)))"
    using v'(4) set_update_subset_insert [of vs i v'] nth_mem [OF reads_item.hyps(1)] by fastforce
  moreover have "sum_list (map (excess m) ?vs) + (length t - m) = sum_list (map (excess m) vs) + (length (f t) - m)"
    using v'(5) by (subst (2) split) (simp add: upd)
  ultimately show ?case using reads_item.hyps(1) v'(1,6) by auto
next
  case (reads_entry es k v p t)
  from reads_entry.prems reads_entry.hyps have "json_ok v" by auto
  then obtain v' where v': "string_at_path f p v = Some v'" "skeleton v' = skeleton v" "json_ok v'"
    "set (strings v') \<subseteq> insert (f t) (set (strings v))"
    "excess m v' + (length t - m) = excess m v + (length (f t) - m)" "f t = t \<longrightarrow> v' = v"
    using reads_entry.IH by blast
  from reads_entry.hyps(2) obtain as bs where es: "es = as @ (k, v) # bs" by (meson split_list)
  with reads_entry.hyps(1) have "k \<notin> fst ` set as" by auto
  then have "update_entry k (string_at_path f p) es = Some (as @ (k, v') # bs)"
    by (simp add: es update_entry_split v'(1))
  then show ?case using v'(2-6) reads_entry.prems by (auto simp: es)
qed

section \<open>The walk finds a longest string\<close>

definition at_least :: "nat \<Rightarrow> (json_path \<times> usize) option \<Rightarrow> bool" where
  "at_least n best \<longleftrightarrow> (case best of Some (_, l) \<Rightarrow> n \<le> l | None \<Rightarrow> False)"

lemma walk_at_least:
  "(at_least n best \<longrightarrow> at_least n (walk v p best)) \<and> (\<forall>t \<in> set (strings v). at_least (length t) (walk v p best))"
  "(at_least n best \<longrightarrow> at_least n (walk_items vs i p best))
     \<and> (\<forall>v \<in> set vs. \<forall>t \<in> set (strings v). at_least (length t) (walk_items vs i p best))"
  "(at_least n best \<longrightarrow> at_least n (walk_entries es p best))
     \<and> (\<forall>e \<in> set es. \<forall>t \<in> set (strings (snd e)). at_least (length t) (walk_entries es p best))"
proof (induction v p best and vs i p best and es p best arbitrary: n and n and n
    rule: walk_walk_items_walk_entries.induct)
  case (1 t p best)
  show ?case by (auto simp: at_least_def split: option.splits prod.splits)
next
  case (8 v vs i p best)
  show ?case using "8.IH"(1) "8.IH"(2) by simp
next
  case (10 k v es p best)
  show ?case using "10.IH"(1) "10.IH"(2) by simp
qed simp_all

lemma walk_reads:
  "json_ok v \<Longrightarrow> walk v p best = best \<or> (\<exists>q t. walk v p best = Some (p @ q, length t) \<and> reads q v t)"
  "\<forall>v \<in> set vs. json_ok v \<Longrightarrow> walk_items vs i p best = best
     \<or> (\<exists>j q t. j < length vs \<and> walk_items vs i p best = Some (p @ Index (i + j) # q, length t) \<and> reads q (vs ! j) t)"
  "\<forall>e \<in> set es. json_ok (snd e) \<Longrightarrow> walk_entries es p best = best
     \<or> (\<exists>k v q t. (k, v) \<in> set es \<and> walk_entries es p best = Some (p @ Key k # q, length t) \<and> reads q v t)"
proof (induction v p best and vs i p best and es p best rule: walk_walk_items_walk_entries.induct)
  case (1 t p best)
  then show ?case by (auto intro: reads_string split: option.splits prod.splits)
next
  case (2 vs p best)
  then have "\<forall>v \<in> set vs. json_ok v" by simp
  from "2.IH" [OF this] show ?case by (fastforce intro: reads_item)
next
  case (3 es p best)
  then have "\<forall>e \<in> set es. json_ok (snd e)" "distinct (map fst es)" by simp_all
  from "3.IH" [OF this(1)] this(2) show ?case by (fastforce intro: reads_entry)
next
  case (8 v vs i p best)
  let ?b = "walk v (p @ [Index i]) best"
  from "8.prems" have ok: "json_ok v" "\<forall>v \<in> set vs. json_ok v" by simp_all
  from "8.IH"(2) [OF ok(2)] show ?case
  proof (elim disjE exE conjE)
    assume "walk_items vs (Suc i) p ?b = ?b"
    with "8.IH"(1) [OF ok(1)] show ?thesis by (auto intro!: exI [of _ "0::nat"])
  next
    fix j q t assume "j < length vs" "walk_items vs (Suc i) p ?b = Some (p @ Index (Suc i + j) # q, length t)" "reads q (vs ! j) t"
    then show ?thesis by (intro disjI2 exI [of _ "Suc j"]) auto
  qed
next
  case (10 k v es p best)
  let ?b = "walk v (p @ [Key k]) best"
  from "10.prems" have ok: "json_ok v" "\<forall>e \<in> set es. json_ok (snd e)" by simp_all
  from "10.IH"(2) [OF ok(2)] "10.IH"(1) [OF ok(1)] show ?case 
    by (elim disjE exE conjE) (simp, simp, blast, simp, blast, simp, blast)
qed simp_all

lemma longest_string_path_Some:
  assumes "json_ok v" "longest_string_path v = Some (path, len)"
  obtains t where "reads path v t" "length t = len" "\<And>u. u \<in> set (strings v) \<Longrightarrow> length u \<le> len"
proof -
  from walk_reads(1) [OF assms(1), of "[]" None] assms(2) obtain t where t: "reads path v t" "length t = len"
    by (auto simp: longest_string_path_def)
  show thesis
  proof (rule that [OF t])
    fix u assume "u \<in> set (strings v)"
    with walk_at_least(1) [where best = None and v = v and p = "[]"] have "at_least (length u) (walk v [] None)" by blast
    with assms(2) show "length u \<le> len" by (simp add: longest_string_path_def at_least_def)
  qed
qed

section \<open>Rounds of the loop\<close>

text \<open>The longest string that a truncation to the floor can leave behind.\<close>

definition settled_length :: usize where
  "settled_length = RELAY_TRUNCATION_FLOOR + 28"

lemma show_nat_short: "29 \<le> d \<Longrightarrow> 26 + length (show_nat d) < d"
proof -
  have two: "length (show_nat d) \<le> 2" if "d < 100" for d
    using that by (simp add: show_nat.simps [of d] show_nat.simps [of "d div 10"])
  have more: "length (show_nat (100 + k)) \<le> 3 + k" for k
    using show_nat_length_add [of 99 "k + 1"] two [of 99] by (simp add: add.commute add.left_commute)
  show "26 + length (show_nat d) < d" if "29 \<le> d"
  proof (cases "d < 100")
    case True
    with two [of d] that show ?thesis by simp
  next
    case False
    then obtain k where "d = 100 + k" using le_Suc_ex not_less by blast
    with more [of k] show ?thesis by simp
  qed
qed

lemma clamp_keep_bounds:
  assumes "budget < sz"
  shows "RELAY_TRUNCATION_FLOOR \<le> clamp_keep len sz budget"
    "settled_length < len \<Longrightarrow> clamp_keep len sz budget + 29 \<le> len"
    "len \<le> settled_length \<Longrightarrow> clamp_keep len sz budget = RELAY_TRUNCATION_FLOOR"
  using assms by (auto simp: clamp_keep_def settled_length_def RELAY_TRUNCATION_FLOOR_def)

lemma truncate_shrinks:
  assumes "budget < sz" "settled_length < length t"
  shows "length (truncate_with_marker (clamp_keep (length t) sz budget) t) < length t"
proof -
  let ?keep = "clamp_keep (length t) sz budget"
  from clamp_keep_bounds(2) [OF assms] have keep: "?keep + 29 \<le> length t" .
  then have "26 + length (show_nat (length t - ?keep)) < length t - ?keep" by (intro show_nat_short) simp
  moreover from keep have "length (truncate_with_marker ?keep t) \<le> ?keep + 26 + length (show_nat (length t - ?keep))"
    by (intro length_truncate) simp
  ultimately show ?thesis by linarith
qed

lemma truncate_settles:
  assumes "budget < sz" "RELAY_TRUNCATION_FLOOR < length t" "length t \<le> settled_length"
  shows "length (truncate_with_marker (clamp_keep (length t) sz budget) t) \<le> settled_length"
proof -
  have "length (show_nat (length t - RELAY_TRUNCATION_FLOOR)) \<le> 2"
    using assms(3) by (auto simp: settled_length_def show_nat.simps [of "length t - _"] show_nat.simps [of "_ div _"])
  moreover from assms(2) have "length (truncate_with_marker RELAY_TRUNCATION_FLOOR t)
      \<le> RELAY_TRUNCATION_FLOOR + 26 + length (show_nat (length t - RELAY_TRUNCATION_FLOOR))"
    by (intro length_truncate) simp
  ultimately show ?thesis
    unfolding clamp_keep_bounds(3) [OF assms(1,3)] by (simp add: settled_length_def)
qed

lemma clamp_loop_returns:
  assumes "json_ok v"
    and "\<And>w. skeleton w = skeleton v \<Longrightarrow> \<forall>t \<in> set (strings w). length t \<le> settled_length \<Longrightarrow> value_size env w \<le> budget"
  shows "\<exists>r. clamp_loop env budget sz v = Some r"
  using assms
proof (induction "excess settled_length v" arbitrary: v sz rule: less_induct)
  case less
  note step = clamp_loop.simps [of env budget sz v]
  show ?case
  proof (cases "budget < sz \<and> (\<exists>path len. longest_string_path v = Some (path, len) \<and> RELAY_TRUNCATION_FLOOR < len)")
    case False
    then show ?thesis by (subst step) (auto split: option.split)
  next
    case True
    then obtain path len where run: "budget < sz" "longest_string_path v = Some (path, len)" "RELAY_TRUNCATION_FLOOR < len"
      by blast
    from longest_string_path_Some [OF less.prems(1) run(2)] obtain t
      where t: "reads path v t" "length t = len" and longest: "\<And>u. u \<in> set (strings v) \<Longrightarrow> length u \<le> len" by metis
    let ?f = "truncate_with_marker (clamp_keep len sz budget)"
    from string_at_path_reads [OF t(1) less.prems(1), of ?f settled_length] obtain v' where
      v': "string_at_path ?f path v = Some v'" "skeleton v' = skeleton v" "json_ok v'"
        "set (strings v') \<subseteq> insert (?f t) (set (strings v))"
        "excess settled_length v' + (len - settled_length) = excess settled_length v + (length (?f t) - settled_length)"
      unfolding t(2) by blast
    from step run v'(1) have next_round: "clamp_loop env budget sz v = clamp_loop env budget (value_size env v') v'"
      by simp
    show ?thesis
    proof (cases "settled_length < len")
      case True
      with truncate_shrinks [OF run(1), of t] t(2) have "length (?f t) < len" by simp
      with v'(5) True have "excess settled_length v' < excess settled_length v" by linarith
      with next_round less.hyps [OF _ v'(3)] less.prems(2) show ?thesis by (simp add: v'(2))
    next
      case False
      with truncate_settles [OF run(1), of t] run(3) t(2) have "length (?f t) \<le> settled_length" by simp
      with longest False v'(4) have "\<forall>t \<in> set (strings v'). length t \<le> settled_length" by fastforce
      with less.prems(2) v'(2) have "value_size env v' \<le> budget" by blast
      then show ?thesis by (subst next_round, subst clamp_loop.simps) simp
    qed
  qed
qed

text \<open>A document whose longest string is already settled is never changed again.\<close>

lemma settled_fixpoint:
  assumes "budget < sz" "length xs = RELAY_TRUNCATION_FLOOR" "len = settled_length"
  shows "truncate_with_marker (clamp_keep len sz budget) (xs @ truncation_marker 28) = xs @ truncation_marker 28"
    and "length (xs @ truncation_marker 28) = settled_length"
proof -
  have digits: "show_nat 28 = ''28''" by code_simp
  have marker: "length (truncation_marker 28) = 28" by (simp add: length_marker digits)
  then show "length (xs @ truncation_marker 28) = settled_length" by (simp add: assms settled_length_def)
  have "is_char_boundary (xs @ truncation_marker 28) RELAY_TRUNCATION_FLOOR"
    using assms(2) by (simp add: is_char_boundary_def nth_append truncation_marker_def is_continuation_def)
  then have "floor_char_boundary (xs @ truncation_marker 28) RELAY_TRUNCATION_FLOOR = RELAY_TRUNCATION_FLOOR"
    by (rule floor_char_boundary_fix)
  with marker assms show "truncate_with_marker (clamp_keep len sz budget) (xs @ truncation_marker 28) = xs @ truncation_marker 28"
    by (simp add: clamp_keep_bounds(3) truncate_with_marker_def)
qed

lemma clamp_loop_stuck:
  assumes "json_ok v" "longest_string_path v = Some (path, settled_length)"
    and "reads path v (xs @ truncation_marker 28)" "length xs = RELAY_TRUNCATION_FLOOR"
    and "budget < sz" "budget < value_size env v"
  shows "clamp_loop env budget sz v = None"
proof -
  have floor: "\<not> settled_length \<le> RELAY_TRUNCATION_FLOOR" by (simp add: settled_length_def)
  have round: "string_at_path (truncate_with_marker (clamp_keep settled_length sz' budget)) path v = Some v"
    if "budget < sz'" for sz'
    using string_at_path_reads [OF assms(3,1)] settled_fixpoint(1) [OF that assms(4) refl] by blast
  have "e = env \<longrightarrow> b = budget \<longrightarrow> w = v \<longrightarrow> budget < sz' \<longrightarrow> False" if "clamp_loop e b sz' w = Some r" for e b sz' w r
  proof (rule clamp_loop.raw_induct [OF _ that], goal_cases)
    case 1
    then show ?case using assms(2,6) floor round by (auto split: if_splits) (metis surj_pair)
  qed
  from this [of env budget sz v] assms(5) show ?thesis by (cases "clamp_loop env budget sz v") simp_all
qed

lemma clamp_loop_result:
  assumes "clamp_loop env budget sz v = Some (sz', v')" "json_ok v"
  shows "(sz' = sz \<and> v' = v) \<or> (sz' = value_size env v' \<and> skeleton v' = skeleton v)"
proof -
  have "json_ok v \<longrightarrow> (fst r = sz \<and> snd r = v) \<or> (fst r = value_size env (snd r) \<and> skeleton (snd r) = skeleton v)"
    if "clamp_loop env budget sz v = Some r" for r
  proof (rule clamp_loop.raw_induct [OF _ that], goal_cases)
    case (1 loop env budget sz v r)
    show ?case
    proof (rule impI)
      assume ok: "json_ok v"
      show "(fst r = sz \<and> snd r = v) \<or> (fst r = value_size env (snd r) \<and> skeleton (snd r) = skeleton v)"
      proof (cases "r = (sz, v)")
        case False
        with "1"(2) obtain path len v' where p: "longest_string_path v = Some (path, len)"
          and v': "string_at_path (truncate_with_marker (clamp_keep len sz budget)) path v = Some v'"
          and r: "loop env budget (value_size env v') v' = Some r"
          by (simp split: if_splits option.splits prod.splits)
        from longest_string_path_Some [OF ok p] obtain t where "reads path v t" by metis
        from string_at_path_reads [OF this ok, of "truncate_with_marker (clamp_keep len sz budget)" 0] v'
        have "json_ok v'" "skeleton v' = skeleton v" by auto
        with "1"(1) [OF r] show ?thesis by auto
      qed simp
    qed
  qed
  from this [OF assms(1)] assms(2) show ?thesis by simp
qed

text \<open>
  What the clamp does to a document in one or more rounds: it replaces strings that are longer
  than the floor. Every shorter one, an identifier for instance, is kept.
\<close>

inductive cuts :: "json \<Rightarrow> json \<Rightarrow> bool" for v where
  cuts_refl: "cuts v v"
| cuts_step: "cuts v w \<Longrightarrow> reads path w t \<Longrightarrow> RELAY_TRUNCATION_FLOOR < length t \<Longrightarrow>
    string_at_path f path w = Some w' \<Longrightarrow> cuts v w'"

lemma cuts_trans: "cuts v w \<Longrightarrow> cuts w x \<Longrightarrow> cuts v x"
  by (rotate_tac, induction rule: cuts.induct) (auto intro: cuts.intros)

lemma clamp_loop_cuts:
  assumes "clamp_loop env budget sz v = Some (sz', v')" "json_ok v"
  shows "cuts v v'"
proof -
  have "json_ok v \<longrightarrow> cuts v (snd r)" if "clamp_loop env budget sz v = Some r" for r
  proof (rule clamp_loop.raw_induct [OF _ that], goal_cases)
    case (1 loop env budget sz v r)
    show ?case
    proof (rule impI)
      assume ok: "json_ok v"
      show "cuts v (snd r)"
      proof (cases "r = (sz, v)")
        case True
        then show ?thesis by (simp add: cuts_refl)
      next
        case False
        with "1"(2) obtain path len v' where p: "longest_string_path v = Some (path, len)" "RELAY_TRUNCATION_FLOOR < len"
          and v': "string_at_path (truncate_with_marker (clamp_keep len sz budget)) path v = Some v'"
          and r: "loop env budget (value_size env v') v' = Some r"
          by (simp split: if_splits option.splits prod.splits)
        from longest_string_path_Some [OF ok p(1)] obtain t where t: "reads path v t" "length t = len" by metis
        with p(2) have "cuts v v'" by (intro cuts_step [OF cuts_refl t(1) _ v']) simp
        moreover have "json_ok v'"
          using string_at_path_reads [OF t(1) ok, of "truncate_with_marker (clamp_keep len sz budget)" 0] v' by auto
        ultimately show ?thesis using "1"(1) [OF r] by (auto intro: cuts_trans)
      qed
    qed
  qed
  from this [OF assms(1)] assms(2) show ?thesis by simp
qed

text \<open>What clamping can make of an observation.\<close>

lemma clamp_observation_cases:
  assumes "clamp_observation env obs budget = Ok obs'" "json_ok (observation_value env obs)"
  obtains (same) "obs' = obs"
    | (warning) message where "obs' = Warning message"
    | (cut) v where "budget < observation_size env obs" "cuts (observation_value env obs) v"
        "observation_from_value env v = Inr obs'"
proof (cases "observation_size env obs \<le> budget")
  case True
  with assms(1) same show thesis by (simp add: clamp_observation_def)
next
  case False
  with assms(1) obtain sz v where loop: "clamp_loop env budget (observation_size env obs) (observation_value env obs) = Some (sz, v)"
    by (auto simp: clamp_observation_def Let_def split: option.splits)
  show thesis
    using assms(1) False warning cut [OF _ clamp_loop_cuts [OF loop assms(2)]]
    by (auto simp: clamp_observation_def Let_def loop split: if_splits sum.splits)
qed

text \<open>An encoder that measures a document by the bytes of its strings, for concrete runs.\<close>

definition string_bytes :: "json \<Rightarrow> nat" where
  "string_bytes v = sum_list (map length (strings v))"

definition clamp_env :: "json \<Rightarrow> relay_env" where
  "clamp_env v = (example_env [] [])
     \<lparr>observation_value := (\<lambda>_. v), observation_size := (\<lambda>_. string_bytes v), value_size := string_bytes\<rparr>"

lemma clamp_env_sel [simp]:
  "observation_value (clamp_env v) obs = v" "observation_size (clamp_env v) obs = string_bytes v"
  "value_size (clamp_env v) w = string_bytes w"
  by (simp_all add: clamp_env_def)

lemma walk_items_replicate:
  "walk_items (replicate n (JString t)) i p (Some (q, length t)) = Some (q, length t)"
  by (induction n arbitrary: i) simp_all







end
