(* ===== verification/Relay_Reader.thy ===== *)
theory Relay_Reader
  imports Relay_Snapshot Relay_Clamp
begin

text \<open>
  Reading a journal segment (\<open>src/src/hel_worker/journal.rs\<close>, \<open>visit_relay_journal_reader\<close> and
  \<open>read_bounded_line\<close>). The reader hands out bytes in pieces of any size; the visitor is a
  stateful callback. The lemmas show that the pieces do not matter: a scan is determined by the
  lines of the file and the bytes after the last line break.
\<close>

section \<open>Lines\<close>

text \<open>
  A \<open>BufRead\<close> is the pieces that \<open>fill_buf\<close> will hand out. An empty piece is never handed out before
  the end of the input.
\<close>

fun read_bounded_line ::
  "usize \<Rightarrow> string \<Rightarrow> usize \<Rightarrow> chunk list \<Rightarrow> ((string \<times> usize \<times> bool) \<times> chunk list) relay_result" where
  "read_bounded_line maximum line consumed_total [] = Ok ((line, consumed_total, False), [])"
| "read_bounded_line maximum line consumed_total (ReadError # cs) = Err (Bail ''i/o error'' [])"
| "read_bounded_line maximum line consumed_total (Data available # cs) =
     (if available = [] then read_bounded_line maximum line consumed_total cs
      else
        let newline = find_byte (CHR 0x0A) available;
            content = (case newline of Some i \<Rightarrow> i | None \<Rightarrow> length available);
            consumed = content + (if newline = None then 0 else 1)
        in
        obind (ok_or (checked_add_u64 (length line) content) (Bail ''relay journal line length overflow'' [])) (\<lambda>next_len.
        obind (ensure_byte_budget next_len maximum ''relay journal event'') (\<lambda>_.
        obind (ok_or (checked_add_u64 consumed_total consumed) (Bail ''relay journal length overflow'' [])) (\<lambda>consumed_total'.
          if newline \<noteq> None
          then Ok ((line @ take content available, consumed_total', True), Data (drop consumed available) # cs)
          else read_bounded_line maximum (line @ take content available) consumed_total' cs))))"

section \<open>Scanning a segment\<close>

datatype journal_read_mode = Strict | RepairTail | Recover

fun without_tail_repair :: "journal_read_mode \<Rightarrow> journal_read_mode" where
  "without_tail_repair RepairTail = Strict"
| "without_tail_repair mode = mode"

record relay_journal_gap =
  byte_offset :: u64
  byte_len :: usize

record relay_journal_scan =
  truncate_to :: "u64 option"
  scan_gaps :: "relay_journal_gap list"

text \<open>A visitor gets the event and the length of its line, and says whether to stop.\<close>

type_synonym 's visitor = "relay_event \<Rightarrow> usize \<Rightarrow> ('s, relay_err, bool) meth"

definition fails_self_validation :: "relay_env \<Rightarrow> relay_event \<Rightarrow> bool" where
  "fails_self_validation env ev \<longleftrightarrow> validate_relay_event_self env ev \<noteq> Ok ()"

fun reader_size :: "chunk list \<Rightarrow> nat" where
  "reader_size [] = 0"
| "reader_size (ReadError # cs) = Suc (reader_size cs)"
| "reader_size (Data b # cs) = Suc (length b) + reader_size cs"

lemma read_bounded_line_size:
  "read_bounded_line maximum line consumed_total cs = Ok ((line', consumed_total', True), cs') \<Longrightarrow> reader_size cs' < reader_size cs"
proof (induction cs arbitrary: line consumed_total)
  case (Cons c cs)
  show ?case
  proof (cases c)
    case (Data available)
    show ?thesis
    proof (cases "find_byte (CHR 0x0A) available")
      case None
      with Cons Data show ?thesis by (auto simp: Let_def split: if_splits dest!: Cons.IH)
    next
      case (Some i)
      with find_byte_Some [OF Some] Cons.prems Data show ?thesis by (auto simp: Let_def split: if_splits)
    qed
  qed (use Cons.prems in simp)
qed simp

function visit_relay_journal_reader ::
  "relay_env \<Rightarrow> journal_read_mode \<Rightarrow> 's visitor \<Rightarrow> u64 \<Rightarrow> relay_journal_gap list \<Rightarrow> chunk list
     \<Rightarrow> ('s, relay_err, relay_journal_scan) meth" where
  "visit_relay_journal_reader env mode visitor complete_bytes gaps reader s =
     (case read_bounded_line RELAY_EVENT_BYTE_BUDGET [] 0 reader of
        Err e \<Rightarrow> (Err e, s)
      | Diverges \<Rightarrow> (Diverges, s)
      | Ok ((line, consumed, terminated), rest) \<Rightarrow>
          if consumed = 0 then (Ok \<lparr>truncate_to = None, scan_gaps = gaps\<rparr>, s)
          else if \<not> terminated then
            (Ok \<lparr>truncate_to = (if mode = RepairTail then Some complete_bytes else None), scan_gaps = gaps\<rparr>, s)
          else
            (case checked_add_u64 complete_bytes consumed of
               None \<Rightarrow> (Err (Bail ''relay journal length overflow'' []), s)
             | Some complete' \<Rightarrow>
                 let gap = \<lparr>byte_offset = complete_bytes, byte_len = length line\<rparr> in
                 if line = [] then visit_relay_journal_reader env mode visitor complete' gaps rest s
                 else
                   (case parse_event env line of
                      None \<Rightarrow>
                        if mode = Recover
                        then visit_relay_journal_reader env mode visitor complete' (gaps @ [gap]) rest s
                        else (Err (Bail ''parse relay journal {}'' []), s)
                    | Some ev \<Rightarrow>
                        if mode = Recover \<and> fails_self_validation env ev
                        then visit_relay_journal_reader env mode visitor complete' (gaps @ [gap]) rest s
                        else
                          (case visitor ev (length line) s of
                             (Err e, s') \<Rightarrow> (Err e, s')
                           | (Diverges, s') \<Rightarrow> (Diverges, s')
                           | (Ok stop, s') \<Rightarrow>
                               if stop then (Ok \<lparr>truncate_to = None, scan_gaps = gaps\<rparr>, s')
                               else visit_relay_journal_reader env mode visitor complete' gaps rest s'))))"
  by pat_completeness auto
termination
  by (relation "measure (\<lambda>(env, mode, visitor, complete_bytes, gaps, reader, s). reader_size reader)")
    (auto dest: read_bounded_line_size)

declare visit_relay_journal_reader.simps [simp del]

section \<open>The pieces do not matter\<close>

text \<open>A line, read across any number of pieces.\<close>

lemma read_line_terminated:
  assumes "reader_bytes cs = Some (w @ CHR 0x0A # b)" "CHR 0x0A \<notin> set w"
    and "length line + length w \<le> maximum" "maximum \<le> u64_max" "consumed_total + length w < u64_max"
  shows "\<exists>cs'. read_bounded_line maximum line consumed_total cs
                 = Ok ((line @ w, consumed_total + length w + 1, True), cs') \<and> reader_bytes cs' = Some b"
  using assms
proof (induction cs arbitrary: line consumed_total w)
  case (Cons c cs)
  then obtain available where c: "c = Data available" by (cases c) auto
  with Cons.prems(1) obtain r where r: "reader_bytes cs = Some r" "available @ r = w @ CHR 0x0A # b" by auto
  show ?case
  proof (cases "find_byte (CHR 0x0A) available")
    case None
    then have "CHR 0x0A \<notin> set available" by (simp add: find_byte_None)
    with r(2) obtain w' where w': "w = available @ w'" "r = w' @ CHR 0x0A # b"
      by (auto simp: append_eq_append_conv2 append_eq_Cons_conv)
    from Cons.IH [of w' "line @ available" "consumed_total + length available"] Cons.prems(2-5) r(1) w'
    obtain cs' where "read_bounded_line maximum (line @ available) (consumed_total + length available) cs
        = Ok ((line @ w, consumed_total + length w + 1, True), cs')" "reader_bytes cs' = Some b" by auto
    then show ?thesis using None Cons.prems(3-5) w'(1)
      by (cases "available = []") (auto simp: c Let_def ensure_byte_budget_def checked_add_u64_def)
  next
    case (Some i)
    note i = find_byte_Some [OF Some]
    have split: "available = take i available @ CHR 0x0A # drop (Suc i) available"
      using i id_take_nth_drop [of i available] by simp
    from r(2) have "take i available @ CHR 0x0A # (drop (Suc i) available @ r) = w @ CHR 0x0A # b"
      by (subst (asm) split) simp
    with i Cons.prems(2) have w: "w = take i available" "b = drop (Suc i) available @ r"
      by (auto simp: append_eq_append_conv2 append_eq_Cons_conv Cons_eq_append_conv)
    with i have "length w = i" by simp
    then show ?thesis using Some i Cons.prems(3-5) w r(1)
      by (auto simp: c Let_def ensure_byte_budget_def checked_add_u64_def)
  qed
qed simp

lemma read_line_tail:
  assumes "reader_bytes cs = Some w" "CHR 0x0A \<notin> set w"
    and "length line + length w \<le> maximum" "maximum \<le> u64_max" "consumed_total + length w \<le> u64_max"
  shows "read_bounded_line maximum line consumed_total cs = Ok ((line @ w, consumed_total + length w, False), [])"
  using assms
proof (induction cs arbitrary: line consumed_total w)
  case (Cons c cs)
  then obtain available r where c: "c = Data available" "reader_bytes cs = Some r" "w = available @ r" by (cases c) auto
  with Cons.prems(2) have "find_byte (CHR 0x0A) available = None" by (simp add: find_byte_None)
  then show ?case using Cons.IH [of r "line @ available" "consumed_total + length available"] Cons.prems(2-5) c
    by (cases "available = []") (auto simp: Let_def ensure_byte_budget_def checked_add_u64_def)
qed simp

text \<open>A line over the budget is an error, wherever the pieces end.\<close>

lemma read_line_too_long:
  assumes "reader_bytes cs = Some (w @ b)" "CHR 0x0A \<notin> set w" "maximum < length line + length w" "length line \<le> maximum"
  shows "\<exists>e. read_bounded_line maximum line consumed_total cs = Err e"
  using assms
proof (induction cs arbitrary: line consumed_total w)
  case (Cons c cs)
  then obtain available r where c: "c = Data available" "reader_bytes cs = Some r" "available @ r = w @ b" by (cases c) auto
  show ?case
  proof (cases "length available < length w \<and> length line + length available \<le> maximum")
    case False
    define k where "k = (case find_byte (CHR 0x0A) available of Some i \<Rightarrow> i | None \<Rightarrow> length available)"
    have "min (length available) (length w) \<le> k"
    proof (cases "find_byte (CHR 0x0A) available")
      case (Some i)
      note i = find_byte_Some [OF Some]
      have "\<not> i < length w"
      proof
        assume "i < length w"
        with i have "w ! i = CHR 0x0A" by (metis c(3) nth_append)
        with \<open>i < length w\<close> Cons.prems(2) show False by (metis nth_mem)
      qed
      with Some show ?thesis by (simp add: k_def)
    qed (simp add: k_def)
    with False Cons.prems(3) have "maximum < length line + k" by (auto simp: min_def split: if_splits)
    then show ?thesis using Cons.prems(4) by (auto simp: c Let_def k_def ensure_byte_budget_def ok_or_def split: option.split)
  next
    case True
    then have w: "w = available @ drop (length available) w" "r = drop (length available) w @ b"
      using c(3) by (metis append_eq_append_conv_if append_take_drop_id less_imp_le)+
    then have "find_byte (CHR 0x0A) available = None" using Cons.prems(2) by (metis UnCI find_byte_None set_append)
    moreover have "\<exists>e. read_bounded_line maximum (line @ available) t cs = Err e" for t
      using Cons.IH [of "drop (length available) w" "line @ available" t] Cons.prems True c(2) w by (auto dest: in_set_dropD)
    moreover have "\<exists>e. read_bounded_line maximum line t cs = Err e" if "available = []" for t
      using Cons.IH [of w line t] Cons.prems c that by simp
    ultimately show ?thesis using True
      by (auto simp: c(1) Let_def ensure_byte_budget_def ok_or_def split: option.split)
  qed
qed simp

section \<open>A scan as a function of the lines\<close>

fun visit_lines ::
  "relay_env \<Rightarrow> journal_read_mode \<Rightarrow> 's visitor \<Rightarrow> u64 \<Rightarrow> relay_journal_gap list \<Rightarrow> string list \<Rightarrow> string
     \<Rightarrow> ('s, relay_err, relay_journal_scan) meth" where
  "visit_lines env mode visitor at gaps [] tail s =
     (Ok \<lparr>truncate_to = (if mode = RepairTail \<and> tail \<noteq> [] then Some at else None), scan_gaps = gaps\<rparr>, s)"
| "visit_lines env mode visitor at gaps (line # lines) tail s =
     (let at' = at + length line + 1;
          skip = visit_lines env mode visitor at' (gaps @ [\<lparr>byte_offset = at, byte_len = length line\<rparr>]) lines tail s
      in if line = [] then visit_lines env mode visitor at' gaps lines tail s
         else case parse_event env line of
                None \<Rightarrow> if mode = Recover then skip else (Err (Bail ''parse relay journal {}'' []), s)
              | Some ev \<Rightarrow>
                  if mode = Recover \<and> fails_self_validation env ev then skip
                  else case visitor ev (length line) s of
                         (Ok stop, s') \<Rightarrow>
                           if stop then (Ok \<lparr>truncate_to = None, scan_gaps = gaps\<rparr>, s')
                           else visit_lines env mode visitor at' gaps lines tail s'
                       | (Err e, s') \<Rightarrow> (Err e, s')
                       | (Diverges, s') \<Rightarrow> (Diverges, s'))"

definition journal_bytes :: "string list \<Rightarrow> string \<Rightarrow> string" where
  "journal_bytes lines tail = concat (map (\<lambda>line. line @ [CHR 0x0A]) lines) @ tail"

definition fits_line :: "string \<Rightarrow> bool" where
  "fits_line line \<longleftrightarrow> CHR 0x0A \<notin> set line \<and> length line \<le> RELAY_EVENT_BYTE_BUDGET"

lemma budget_u64: "RELAY_EVENT_BYTE_BUDGET < u64_max"
  by (simp add: RELAY_EVENT_BYTE_BUDGET_def u64_max_def)

lemma visit_reader_lines:
  assumes "reader_bytes cs = Some (journal_bytes lines tail)"
    and "list_all fits_line lines" "fits_line tail"
    and "at + length (journal_bytes lines tail) \<le> u64_max"
  shows "visit_relay_journal_reader env mode visitor at gaps cs s = visit_lines env mode visitor at gaps lines tail s"
  using assms
proof (induction lines arbitrary: at gaps cs s)
  case Nil
  then have "read_bounded_line RELAY_EVENT_BYTE_BUDGET [] 0 cs = Ok ((tail, length tail, False), [])"
    using read_line_tail [of cs tail "[]" RELAY_EVENT_BYTE_BUDGET 0] budget_u64
    by (simp add: journal_bytes_def fits_line_def)
  then show ?case by (subst visit_relay_journal_reader.simps) auto
next
  case (Cons line lines)
  have bytes: "journal_bytes (line # lines) tail = line @ CHR 0x0A # journal_bytes lines tail"
    by (simp add: journal_bytes_def)
  from Cons.prems(2) have fit: "CHR 0x0A \<notin> set line" "length line \<le> RELAY_EVENT_BYTE_BUDGET" "list_all fits_line lines"
    by (simp_all add: fits_line_def [of line])
  from read_line_terminated [of cs line "journal_bytes lines tail" "[]" RELAY_EVENT_BYTE_BUDGET 0]
    Cons.prems(1) fit budget_u64
  obtain cs' where cs': "read_bounded_line RELAY_EVENT_BYTE_BUDGET [] 0 cs = Ok ((line, length line + 1, True), cs')"
    "reader_bytes cs' = Some (journal_bytes lines tail)" by (auto simp: bytes)
  have le: "at + length line + 1 + length (journal_bytes lines tail) \<le> u64_max"
    using Cons.prems(4) by (simp add: bytes)
  then have add: "checked_add_u64 at (length line + 1) = Some (at + length line + 1)" by simp
  note IH = Cons.IH [OF cs'(2) fit(3) Cons.prems(3) le]
  note step = visit_relay_journal_reader.simps [of env mode visitor at gaps cs s, unfolded cs'(1) outcome.case prod.case add option.case Let_def]
  show ?case
  proof (cases "line = [] \<or> parse_event env line = None \<or> mode = Recover \<and> fails_self_validation env (the (parse_event env line))")
    case True
    then show ?thesis unfolding step visit_lines.simps Let_def IH [symmetric] by auto
  next
    case False
    then obtain ev where ev: "line \<noteq> []" "parse_event env line = Some ev" "\<not> (mode = Recover \<and> fails_self_validation env ev)" by auto
    show ?thesis
    proof (cases "visitor ev (length line) s")
      case (Pair r s')
      with ev show ?thesis unfolding step visit_lines.simps Let_def IH [symmetric] by (cases r) simp_all
    qed
  qed
qed

text \<open>The lines that hold events, with the bytes at which the others lie.\<close>

fun readable :: "relay_env \<Rightarrow> string list \<Rightarrow> (relay_event \<times> usize) list" where
  "readable env [] = []"
| "readable env (line # lines) =
     (case parse_event env line of
        Some ev \<Rightarrow> if line = [] \<or> fails_self_validation env ev then readable env lines
                  else (ev, length line) # readable env lines
      | None \<Rightarrow> readable env lines)"

fun unreadable :: "relay_env \<Rightarrow> u64 \<Rightarrow> string list \<Rightarrow> relay_journal_gap list" where
  "unreadable env at [] = []"
| "unreadable env at (line # lines) =
     (if line \<noteq> [] \<and> (case parse_event env line of Some ev \<Rightarrow> fails_self_validation env ev | None \<Rightarrow> True)
      then [\<lparr>byte_offset = at, byte_len = length line\<rparr>] else [])
     @ unreadable env (at + length line + 1) lines"

text \<open>A visitor that collects what it is shown.\<close>

definition collect :: "(relay_event \<times> usize) list visitor" where
  "collect ev n acc = (Ok False, acc @ [(ev, n)])"

lemma visit_lines_recover:
  "visit_lines env Recover collect at gaps lines tail acc =
     (Ok \<lparr>truncate_to = None, scan_gaps = gaps @ unreadable env at lines\<rparr>, acc @ readable env lines)"
proof (induction lines arbitrary: at gaps acc)
  case (Cons line lines)
  show ?case
    by (cases "parse_event env line") (simp_all add: Cons.IH [unfolded collect_def [abs_def]] Let_def collect_def)
qed simp

lemma visit_lines_strict:
  assumes "list_all (\<lambda>line. line = [] \<or> parse_event env line \<noteq> None) lines" "mode \<noteq> Recover"
  shows "visit_lines env mode collect at gaps lines tail acc =
     (Ok \<lparr>truncate_to = (if mode = RepairTail \<and> tail \<noteq> []
             then Some (at + length (journal_bytes lines [])) else None), scan_gaps = gaps\<rparr>,
      acc @ map (\<lambda>line. (the (parse_event env line), length line)) (filter (\<lambda>line. line \<noteq> []) lines))"
  using assms
proof (induction lines arbitrary: at acc)
  case Nil
  then show ?case by (simp add: journal_bytes_def)
next
  case (Cons line lines)
  then show ?case by (auto simp: Let_def collect_def [abs_def] journal_bytes_def)
qed

lemma event_line_fits: "env_ok env \<Longrightarrow> fits_line (event_json env e) \<longleftrightarrow> length (event_json env e) \<le> RELAY_EVENT_BYTE_BUDGET"
  by (simp add: fits_line_def env_okD)

lemma events_fit:
  "env_ok env \<Longrightarrow> \<forall>e \<in> set evs. length (event_json env e) \<le> RELAY_EVENT_BYTE_BUDGET \<Longrightarrow>
     list_all fits_line (map (event_json env) evs)"
  by (simp add: list_all_iff event_line_fits)

lemma readable_events:
  assumes "env_ok env" "\<forall>e \<in> set evs. validate_relay_event_self env e = Ok ()"
  shows "readable env (map (event_json env) evs) = map (\<lambda>e. (e, length (event_json env e))) evs"
    and "unreadable env at (map (event_json env) evs) = []"
  using assms(2)
  by (induction evs arbitrary: at) (simp_all add: env_okD [OF assms(1)] fails_self_validation_def)

lemma readable_append: "readable env (xs @ ys) = readable env xs @ readable env ys"
  by (induction xs) (auto split: option.split)

lemma unreadable_append:
  "unreadable env at (xs @ ys) = unreadable env at xs @ unreadable env (at + length (journal_bytes xs [])) ys"
  by (induction xs arbitrary: at) (simp_all add: journal_bytes_def add.assoc)

lemma journal_bytes_append: "journal_bytes (xs @ ys) tail = journal_bytes xs [] @ journal_bytes ys tail"
  by (simp add: journal_bytes_def)

lemma recover_overlong:
  assumes "reader_bytes cs = Some (journal_bytes lines [] @ w @ b)" "list_all fits_line lines"
    and "CHR 0x0A \<notin> set w" "RELAY_EVENT_BYTE_BUDGET < length w"
    and "at + length (journal_bytes lines []) \<le> u64_max"
  shows "\<exists>e. visit_relay_journal_reader env Recover collect at gaps cs acc = (Err e, acc @ readable env lines)"
  using assms
proof (induction lines arbitrary: at gaps cs acc)
  case Nil
  from read_line_too_long [of cs w b RELAY_EVENT_BYTE_BUDGET "[]" 0] Nil obtain e
    where "read_bounded_line RELAY_EVENT_BYTE_BUDGET [] 0 cs = Err e" by (auto simp: journal_bytes_def)
  then show ?case by (subst visit_relay_journal_reader.simps) simp
next
  case (Cons line lines)
  have bytes: "journal_bytes (line # lines) [] @ w @ b = line @ CHR 0x0A # (journal_bytes lines [] @ w @ b)"
    by (simp add: journal_bytes_def)
  from Cons.prems(2) have fit: "CHR 0x0A \<notin> set line" "length line \<le> RELAY_EVENT_BYTE_BUDGET" "list_all fits_line lines"
    by (simp_all add: fits_line_def [of line])
  from read_line_terminated [of cs line "journal_bytes lines [] @ w @ b" "[]" RELAY_EVENT_BYTE_BUDGET 0]
    Cons.prems(1) fit budget_u64
  obtain cs' where cs': "read_bounded_line RELAY_EVENT_BYTE_BUDGET [] 0 cs = Ok ((line, length line + 1, True), cs')"
    "reader_bytes cs' = Some (journal_bytes lines [] @ w @ b)" unfolding bytes by auto
  have le: "at + length line + 1 + length (journal_bytes lines []) \<le> u64_max"
    using Cons.prems(5) by (simp add: journal_bytes_def)
  then have add: "checked_add_u64 at (length line + 1) = Some (at + length line + 1)" by simp
  note IH = Cons.IH [OF cs'(2) fit(3) Cons.prems(3,4) le, unfolded collect_def [abs_def]]
  show ?case
    unfolding visit_relay_journal_reader.simps [of env Recover collect at gaps cs acc] cs'(1) outcome.case prod.case add
      option.case Let_def
    unfolding collect_def [abs_def]
    using IH [of gaps acc] IH [of "gaps @ [\<lparr>byte_offset = at, byte_len = length line\<rparr>]" acc]
      IH [of gaps "acc @ [(the (parse_event env line), length line)]"]
    by (cases "parse_event env line") auto
qed

text \<open>Two events and the one-letter encodings that the example encoder gives them.\<close>

definition event_a :: relay_event where
  "event_a = example_event 1 (Notice ''a'')"

definition event_b :: relay_event where
  "event_b = example_event 2 (Notice ''b'')"

definition journal_env :: relay_env where
  "journal_env = example_env [event_a, event_b] []"

lemma example_event_self [simp]:
  "validate_relay_event_self journal_env event_a = Ok ()" "validate_relay_event_self journal_env event_b = Ok ()"
  by (simp_all add: journal_env_def event_a_def event_b_def validate_relay_event_self_def validate_relay_digest_def relay_event_digest_def digest_over_def
        example_event_def example_env_def is_hex_digest_def RELAY_EVENT_FORMAT_V1_def RELAY_EVENT_FORMAT_V2_def
        list_all_iff is_ascii_digit_def)

lemma example_lines [simp]:
  "event_json journal_env event_a = ''t''"
  "event_json journal_env event_b = ''tt''"
  "parse_event journal_env ''ttt'' = None"
  by (simp_all add: journal_env_def example_env_def table_code_def table_decode_def event_a_def event_b_def example_event_def)

lemma journal_env_ok [simp]: "env_ok journal_env"
  by (simp add: journal_env_def)

lemma small_line [simp]: "CHR 0x0A \<notin> set w \<Longrightarrow> length w < 10 \<Longrightarrow> fits_line w"
  by (simp add: fits_line_def RELAY_EVENT_BYTE_BUDGET_def)

text \<open>
  C18: a scan depends on the bytes of the file only. However the reader splits the input, visiting
  the journal is the same as going through its lines: for each line in order an event is visited
  or a gap is noted, and the bytes after the last line break are never parsed.
\<close>

theorem scan_is_by_lines:
  assumes "reader_bytes cs = Some (journal_bytes lines tail)"
    and "list_all fits_line lines" "fits_line tail" "length (journal_bytes lines tail) \<le> u64_max"
  shows "visit_relay_journal_reader env mode visitor 0 [] cs s = visit_lines env mode visitor 0 [] lines tail s"
  using visit_reader_lines [OF assms(1-3), where at = 0] assms(4) by simp

theorem scan_is_by_lines_witness:
  "visit_relay_journal_reader journal_env RepairTail collect 0 [] [Data ''t'', Data [CHR 0x0A, CHR ''t''], Data [CHR ''t'', CHR 0x0A, CHR ''x'']] []
     = visit_lines journal_env RepairTail collect 0 [] [''t'', ''tt''] ''x'' []"
  by (rule scan_is_by_lines) (simp_all add: journal_bytes_def u64_max_def)

text \<open>
  C19: round trip of the journal. A segment written as one encoded event per line is read back as
  exactly those events in order. What follows the last line break is a torn append: it is never
  shown to the visitor, and repair cuts the file exactly at the end of the last whole record.
\<close>

theorem journal_round_trip:
  assumes "env_ok env" "\<forall>e \<in> set evs. length (event_json env e) \<le> RELAY_EVENT_BYTE_BUDGET" "fits_line tail"
    and "reader_bytes cs = Some (journal_bytes (map (event_json env) evs) tail)"
    and "length (journal_bytes (map (event_json env) evs) tail) \<le> u64_max" "mode \<noteq> Recover"
  shows "visit_relay_journal_reader env mode collect 0 [] cs [] =
    (Ok \<lparr>truncate_to = (if mode = RepairTail \<and> tail \<noteq> []
            then Some (length (journal_bytes (map (event_json env) evs) [])) else None), scan_gaps = []\<rparr>,
     map (\<lambda>e. (e, length (event_json env e))) evs)"
proof -
  note json = env_okD(4,5) [OF assms(1)]
  have parse: "list_all (\<lambda>line. line = [] \<or> parse_event env line \<noteq> None) (map (event_json env) evs)"
    by (simp add: list_all_iff json)
  have keep: "filter (\<lambda>line. line \<noteq> []) (map (event_json env) evs) = map (event_json env) evs"
    by (simp add: filter_id_conv json)
  show ?thesis
    using visit_reader_lines [OF assms(4) events_fit [OF assms(1,2)] assms(3),
        where at = 0 and env = env and mode = mode and visitor = collect and gaps = "[]" and s = "[]"] assms(5)
    by (simp add: visit_lines_strict [OF parse assms(6)] keep json)
qed

theorem journal_round_trip_witness:
  "visit_relay_journal_reader journal_env RepairTail collect 0 [] [Data ''t'', Data [CHR 0x0A, CHR ''t''], Data [CHR ''t'', CHR 0x0A, CHR ''x'']] []
     = (Ok \<lparr>truncate_to = Some 5, scan_gaps = []\<rparr>,
        [(event_a, 1), (event_b, 2)])"
  using journal_round_trip [of journal_env "[event_a, event_b]" "''x''"
      "[Data ''t'', Data [CHR 0x0A, CHR ''t''], Data [CHR ''t'', CHR 0x0A, CHR ''x'']]" RepairTail]
  by (simp add: journal_bytes_def u64_max_def RELAY_EVENT_BYTE_BUDGET_def)

text \<open>
  C20: recovery isolates corruption. If one record of a segment is replaced by any line that does
  not decode to a self-consistent event, recovery still reads every other record, and reports one
  gap at the exact position and with the exact length of the corrupt line.
\<close>

theorem recover_isolates_corruption:
  assumes "env_ok env" "\<forall>e \<in> set (before @ after). validate_relay_event_self env e = Ok ()
                          \<and> length (event_json env e) \<le> RELAY_EVENT_BYTE_BUDGET"
    and bad: "fits_line bad" "bad \<noteq> []"
      "case parse_event env bad of Some ev \<Rightarrow> fails_self_validation env ev | None \<Rightarrow> True"
    and bytes: "lines = map (event_json env) before @ bad # map (event_json env) after"
      "reader_bytes cs = Some (journal_bytes lines tail)" "fits_line tail"
      "length (journal_bytes lines tail) \<le> u64_max"
  shows "visit_relay_journal_reader env Recover collect 0 [] cs [] =
    (Ok \<lparr>truncate_to = None,
         scan_gaps = [\<lparr>byte_offset = length (journal_bytes (map (event_json env) before) []), byte_len = length bad\<rparr>]\<rparr>,
     map (\<lambda>e. (e, length (event_json env e))) (before @ after))"
proof -
  from assms(2) have ok: "\<forall>e \<in> set before. validate_relay_event_self env e = Ok ()"
    "\<forall>e \<in> set after. validate_relay_event_self env e = Ok ()"
    "\<forall>e \<in> set before. length (event_json env e) \<le> RELAY_EVENT_BYTE_BUDGET"
    "\<forall>e \<in> set after. length (event_json env e) \<le> RELAY_EVENT_BYTE_BUDGET" by auto
  have "list_all fits_line lines"
    using events_fit [OF assms(1) ok(3)] events_fit [OF assms(1) ok(4)] bad(1) by (simp add: bytes(1))
  from visit_reader_lines [OF bytes(2) this bytes(3),
      where at = 0 and env = env and visitor = collect and mode = Recover and gaps = "[]" and s = "[]"] bytes(4)
  have "visit_relay_journal_reader env Recover collect 0 [] cs [] =
      (Ok \<lparr>truncate_to = None, scan_gaps = unreadable env 0 lines\<rparr>, readable env lines)"
    by (simp add: visit_lines_recover)
  moreover have "readable env (bad # ls) = readable env ls"
    "unreadable env at (bad # ls) = \<lparr>byte_offset = at, byte_len = length bad\<rparr> # unreadable env (at + length bad + 1) ls"
    for at ls using bad(2,3) by (auto split: option.splits)
  ultimately show ?thesis
    by (simp add: bytes(1) readable_append unreadable_append readable_events [OF assms(1)] ok
             del: readable.simps unreadable.simps)
qed

theorem recover_isolates_corruption_witness:
  "visit_relay_journal_reader journal_env Recover collect 0 []
      [Data [CHR ''t'', CHR 0x0A, CHR ''t''], Data [CHR ''t'', CHR ''t'', CHR 0x0A, CHR ''t'', CHR ''t'', CHR 0x0A]] []
     = (Ok \<lparr>truncate_to = None, scan_gaps = [\<lparr>byte_offset = 2, byte_len = 3\<rparr>]\<rparr>,
        [(event_a, 1), (event_b, 2)])"
  using recover_isolates_corruption [of journal_env "[event_a]" "[event_b]" "''ttt''"
      "[''t'', ''ttt'', ''tt'']"
      "[Data [CHR ''t'', CHR 0x0A, CHR ''t''], Data [CHR ''t'', CHR ''t'', CHR 0x0A, CHR ''t'', CHR ''t'', CHR 0x0A]]" "[]"]
  by (simp add: journal_bytes_def u64_max_def RELAY_EVENT_BYTE_BUDGET_def)

text \<open>
  C21: recovery does not survive a line over the event budget. Even in recovery mode the scan ends
  in an error at such a line, and no record after it is read. (The mode's comment says that an
  unparseable record is skipped and every intact record either side of it is recovered; two
  large records whose separating line break is lost are a case.)
\<close>

theorem recover_stops_at_overlong_line:
  assumes "reader_bytes cs = Some (journal_bytes lines [] @ long @ rest)" "list_all fits_line lines"
    and "CHR 0x0A \<notin> set long" "RELAY_EVENT_BYTE_BUDGET < length long"
    and "length (journal_bytes lines []) \<le> u64_max"
  shows "\<exists>e. visit_relay_journal_reader env Recover collect 0 [] cs [] = (Err e, readable env lines)"
  using recover_overlong [OF assms(1-4), where at = 0 and acc = "[]"] assms(5) by simp

theorem recover_stops_at_overlong_line_witness:
  "\<exists>e. visit_relay_journal_reader journal_env Recover collect 0 []
      [Data [CHR ''t'', CHR 0x0A], Data (replicate (RELAY_EVENT_BYTE_BUDGET + 1) (CHR ''x'')), Data [CHR 0x0A, CHR ''t'', CHR 0x0A]] []
     = (Err e, [(event_a, 1)])"
proof -
  have "readable journal_env [''t''] = [(event_a, 1)]"
    using readable_events(1) [of journal_env "[event_a]"] by simp
  then show ?thesis
    using recover_stops_at_overlong_line [of "[Data [CHR ''t'', CHR 0x0A], Data (replicate (RELAY_EVENT_BYTE_BUDGET + 1) (CHR ''x'')),
        Data [CHR 0x0A, CHR ''t'', CHR 0x0A]]" "[''t'']" "replicate (RELAY_EVENT_BYTE_BUDGET + 1) (CHR ''x'')"
        "[CHR 0x0A, CHR ''t'', CHR 0x0A]" journal_env]
    by (simp add: journal_bytes_def u64_max_def del: replicate_Suc)
qed

end
