(* ===== verification/Relay_Disk.thy ===== *)
theory Relay_Disk
  imports Relay_Reader
begin

text \<open>
  The files of a worker root and the part of \<open>src/src/hel_worker/journal.rs\<close> that reads and
  replaces them: visiting, inspecting, sealing and naming journal segments, and the atomic
  replacement of the state file (\<open>src/src/hel_config.rs\<close>).

  Every operation on a file may fail. Which ones do is a script: the next operation succeeds,
  fails without effect, or, when it moves bytes, fails after some of them. A script whose tail
  fails forever is a crash, so what a method leaves on the disk when it returns an error is also
  what a crash at that point leaves.
\<close>

section \<open>Files\<close>

datatype io_fault = IoOk | IoErr | IoShort nat

record relay_disk =
  root_present :: bool
  state_file :: "string option"
  seed_file :: "string option"
  journal_dir :: "(string, string) btree"
  faults :: "io_fault list"
  clock_reads :: nat

type_synonym 'a disk_meth = "(relay_disk, relay_err, 'a) meth"

definition io_error :: relay_err where
  "io_error = Bail ''i/o error'' []"

definition next_fault :: "relay_disk \<Rightarrow> io_fault" where
  "next_fault d = (case faults d of [] \<Rightarrow> IoOk | f # _ \<Rightarrow> f)"

definition pop_fault :: "relay_disk \<Rightarrow> relay_disk" where
  "pop_fault d = d\<lparr>faults := tl (faults d)\<rparr>"

text \<open>An operation that takes effect or fails.\<close>

definition io_op :: "(relay_disk \<Rightarrow> relay_disk) \<Rightarrow> unit disk_meth" where
  "io_op f d = (if next_fault d = IoOk then (Ok (), f (pop_fault d)) else (Err io_error, pop_fault d))"

text \<open>An operation that leaves the contents of the files alone: a sync, a directory listing.\<close>

definition io_call :: "unit disk_meth" where
  "io_call = io_op id"

definition file_exists :: "string \<Rightarrow> relay_disk \<Rightarrow> bool" where
  "file_exists name d \<longleftrightarrow> bt_contains (journal_dir d) name"

definition set_file :: "string \<Rightarrow> string \<Rightarrow> relay_disk \<Rightarrow> relay_disk" where
  "set_file name bytes d = d\<lparr>journal_dir := bt_insert name bytes (journal_dir d)\<rparr>"

definition create_truncated :: "string \<Rightarrow> unit disk_meth" where
  "create_truncated name =
     rbind (rget root_present) (\<lambda>present. if present then io_op (set_file name []) else rfail io_error)"

definition open_append :: "string \<Rightarrow> unit disk_meth" where
  "open_append name =
     rbind (rget root_present) (\<lambda>present.
       if present then io_op (\<lambda>d. if file_exists name d then d else set_file name [] d) else rfail io_error)"

text \<open>\<open>write_all\<close>: a write that fails may have moved some of the bytes.\<close>

definition append_bytes :: "string \<Rightarrow> string \<Rightarrow> relay_disk \<Rightarrow> relay_disk" where
  "append_bytes name bytes d = d\<lparr>journal_dir := bt_modify name (\<lambda>b. b @ bytes) (journal_dir d)\<rparr>"

definition write_all :: "string \<Rightarrow> string \<Rightarrow> unit disk_meth" where
  "write_all name bytes d =
     (case next_fault d of
        IoOk \<Rightarrow> (Ok (), append_bytes name bytes (pop_fault d))
      | IoErr \<Rightarrow> (Err io_error, pop_fault d)
      | IoShort n \<Rightarrow> (Err io_error, append_bytes name (take n bytes) (pop_fault d)))"

definition set_len :: "string \<Rightarrow> u64 \<Rightarrow> unit disk_meth" where
  "set_len name n = io_op (\<lambda>d. d\<lparr>journal_dir := bt_modify name (take n) (journal_dir d)\<rparr>)"

definition remove_file :: "string \<Rightarrow> unit disk_meth" where
  "remove_file name = io_op (\<lambda>d. d\<lparr>journal_dir := bt_remove name (journal_dir d)\<rparr>)"

definition rename_file :: "string \<Rightarrow> string \<Rightarrow> unit disk_meth" where
  "rename_file from_name to_name =
     rbind (rget (\<lambda>d. bt_get (journal_dir d) from_name)) (\<lambda>file.
       case file of
         None \<Rightarrow> rfail io_error
       | Some bytes \<Rightarrow> io_op (\<lambda>d. set_file to_name bytes (d\<lparr>journal_dir := bt_remove from_name (journal_dir d)\<rparr>)))"

text \<open>
  \<open>atomic_write_existing\<close>: the body goes to a temporary file with a random name that nothing
  reads, and then replaces the target in one rename. The sync of the directory can still fail
  after the target was replaced.
\<close>

definition atomic_write_existing :: "string \<Rightarrow> unit disk_meth" where
  "atomic_write_existing body =
     rbind (rget root_present) (\<lambda>present.
       if \<not> present then rfail (Bail ''directory {} is missing'' [])
       else rseq io_call \<comment> \<open>the random suffix\<close>
           (rseq io_call \<comment> \<open>create the temporary file\<close>
           (rseq io_call \<comment> \<open>its permissions\<close>
           (rseq io_call \<comment> \<open>write the body\<close>
           (rseq io_call \<comment> \<open>sync it\<close>
           (rseq (io_op (\<lambda>d. d\<lparr>state_file := Some body\<rparr>))
                 io_call))))))"

definition persist_relay_snapshot :: "relay_env \<Rightarrow> relay_snapshot \<Rightarrow> unit disk_meth" where
  "persist_relay_snapshot env s =
     (let body = snapshot_json env s in
      rseq (rlift (ensure_byte_budget (length body) RELAY_SNAPSHOT_BYTE_BUDGET ''relay snapshot''))
           (atomic_write_existing body))"

definition read_clock :: "relay_env \<Rightarrow> i64 disk_meth" where
  "read_clock env d = (Ok (epoch_ms env (clock_reads d)), d\<lparr>clock_reads := clock_reads d + 1\<rparr>)"

section \<open>Segment names\<close>

definition RELAY_ACTIVE_SEGMENT :: string where
  "RELAY_ACTIVE_SEGMENT = ''active.jsonl''"

definition active_replacement :: string where
  "active_replacement = ''active.jsonl.new''"

text \<open>\<open>path.extension() == "gz"\<close>; a name that is only an extension has none.\<close>

definition has_gz_extension :: "string \<Rightarrow> bool" where
  "has_gz_extension name \<longleftrightarrow> length name > 3 \<and> suffix ''.gz'' name"

definition pad20 :: "nat \<Rightarrow> string" where
  "pad20 n = replicate (20 - length (show_nat n)) (CHR ''0'') @ show_nat n"

definition sealed_name :: "u64 \<Rightarrow> u64 \<Rightarrow> string" where
  "sealed_name lo hi = ''segment-'' @ pad20 lo @ ''-'' @ pad20 hi @ ''.jsonl.gz''"

definition stale_name :: "u64 \<Rightarrow> u64 \<Rightarrow> string" where
  "stale_name lo hi = ''stale-active-'' @ pad20 lo @ ''-'' @ pad20 hi @ ''.jsonl''"

definition strip_prefix :: "string \<Rightarrow> string \<Rightarrow> string option" where
  "strip_prefix p s = (if prefix p s then Some (drop (length p) s) else None)"

definition strip_suffix :: "string \<Rightarrow> string \<Rightarrow> string option" where
  "strip_suffix p s = (if suffix p s then Some (take (length s - length p) s) else None)"

definition split_once :: "char \<Rightarrow> string \<Rightarrow> (string \<times> string) option" where
  "split_once c s = map_option (\<lambda>i. (take i s, drop (Suc i) s)) (find_byte c s)"

text \<open>\<open>str::parse::<u64>\<close>.\<close>

fun decimal_value :: "nat \<Rightarrow> string \<Rightarrow> nat option" where
  "decimal_value acc [] = Some acc"
| "decimal_value acc (c # cs) =
     (if is_ascii_digit c then decimal_value (acc * 10 + (of_char c - 48)) cs else None)"

definition parse_u64 :: "string \<Rightarrow> u64 option" where
  "parse_u64 s =
     (let digits = (if length s > 1 \<and> hd s = CHR ''+'' then tl s else s) in
      if digits = [] then None
      else case decimal_value 0 digits of
             Some n \<Rightarrow> if n \<le> u64_max then Some n else None
           | None \<Rightarrow> None)"

section \<open>Spans\<close>

record relay_journal_span =
  span_path :: string
  file_first_ordinal :: u64
  file_first_previous_digest :: "string option"
  file_last_ordinal :: u64
  file_last_digest :: "string option"
  after_ordinal :: u64

definition sealed_relay_journal_metadata :: "string \<Rightarrow> relay_journal_span relay_result" where
  "sealed_relay_journal_metadata name =
     obind (ok_or (Option.bind (strip_prefix ''segment-'' name) (strip_suffix ''.jsonl.gz''))
              (Bail ''invalid sealed relay segment name {}'' [AStr name])) (\<lambda>range.
     obind (ok_or (split_once (CHR ''-'') range)
              (Bail ''invalid sealed relay segment range {}'' [AStr name])) (\<lambda>(first, last).
     obind (ok_or (parse_u64 first) (Bail ''parse first ordinal from {}'' [AStr name])) (\<lambda>first.
     obind (ok_or (parse_u64 last) (Bail ''parse last ordinal from {}'' [AStr name])) (\<lambda>last.
       if first = 0 \<or> first > last
       then Err (Bail ''invalid sealed relay segment range {}-{}'' [ANat first, ANat last])
       else Ok \<lparr>span_path = name, file_first_ordinal = first, file_first_previous_digest = None,
                file_last_ordinal = last, file_last_digest = None, after_ordinal = 0\<rparr>))))"

definition nonempty_digest :: "string \<Rightarrow> string option" where
  "nonempty_digest d = (if d = [] then None else Some d)"

section \<open>Visiting a file\<close>

text \<open>The bytes an opened file hands out, through the decoder if it is compressed.\<close>

definition open_reader :: "(string \<Rightarrow> chunk list) \<Rightarrow> string \<Rightarrow> chunk list disk_meth" where
  "open_reader decode bytes d =
     (case next_fault d of
        IoOk \<Rightarrow> (Ok (decode bytes), pop_fault d)
      | IoErr \<Rightarrow> (Err io_error, pop_fault d)
      | IoShort n \<Rightarrow> (Ok (decode (take n bytes) @ [ReadError]), pop_fault d))"

definition repair_tail :: "string \<Rightarrow> u64 option \<Rightarrow> unit disk_meth" where
  "repair_tail name truncation =
     (case truncation of
        None \<Rightarrow> rret ()
      | Some valid_len \<Rightarrow>
          rseq io_call \<comment> \<open>open for writing\<close>
          (rseq (set_len name valid_len)
          (rseq io_call \<comment> \<open>sync the file\<close>
                io_call)))"

definition visit_relay_journal_file ::
  "relay_env \<Rightarrow> string \<Rightarrow> journal_read_mode \<Rightarrow> (relay_disk \<times> 'l) visitor
     \<Rightarrow> (relay_disk \<times> 'l, relay_err, relay_journal_gap list) meth" where
  "visit_relay_journal_file env name mode visitor =
     rbind (rget (\<lambda>s. bt_get (journal_dir (fst s)) name)) (\<lambda>file.
       case file of
         None \<Rightarrow> rret []
       | Some bytes \<Rightarrow>
           if has_gz_extension name then
             rbind (on_fst (open_reader (gunzip env) bytes)) (\<lambda>reader.
             rbind (visit_relay_journal_reader env (without_tail_repair mode) visitor 0 [] reader) (\<lambda>scan.
               rret (scan_gaps scan)))
           else
             rbind (on_fst (open_reader (\<lambda>b. [Data b]) bytes)) (\<lambda>reader.
             rbind (visit_relay_journal_reader env mode visitor 0 [] reader) (\<lambda>scan.
             rseq (on_fst (repair_tail name (truncate_to scan)))
                  (rret (scan_gaps scan)))))"

section \<open>Inspecting a segment\<close>

text \<open>The locals of the visitor are the first event and the last one so far.\<close>

definition inspect_visitor :: "relay_env \<Rightarrow> (relay_disk \<times> relay_event option \<times> relay_event option) visitor" where
  "inspect_visitor env ev encoded_len =
     rseq (rlift (ensure_byte_budget encoded_len RELAY_EVENT_BYTE_BUDGET ''relay event''))
     (rbind (rget (\<lambda>s. snd (snd s))) (\<lambda>previous.
      rseq (case previous of
              Some p \<Rightarrow> rlift (validate_relay_event env (ev_ordinal p) (ev_digest p) ev)
            | None \<Rightarrow> rseq (rlift (validate_relay_event_self env ev))
                            (rmodify (\<lambda>(d, first, prev). (d, Some ev, prev))))
      (rseq (rmodify (\<lambda>(d, first, prev). (d, first, Some ev)))
            (rret False))))"

definition inspect_relay_journal_file ::
  "relay_env \<Rightarrow> string \<Rightarrow> bool \<Rightarrow> relay_journal_span option disk_meth" where
  "inspect_relay_journal_file env name repair_partial_tail =
     rbind (with_local (None, None)
              (visit_relay_journal_file env name (if repair_partial_tail then RepairTail else Strict)
                 (inspect_visitor env))) (\<lambda>(_, first, last).
       rret (map_option
         (\<lambda>(first, last).
            \<lparr>span_path = name, file_first_ordinal = ev_ordinal first,
             file_first_previous_digest = nonempty_digest (ev_previous_digest first),
             file_last_ordinal = ev_ordinal last, file_last_digest = Some (ev_digest last),
             after_ordinal = 0\<rparr>)
         (zip_option first last)))"

section \<open>Replacing the active segment\<close>

definition replace_active_with_empty :: "unit disk_meth" where
  "replace_active_with_empty =
     rseq (create_truncated active_replacement)
     (rseq io_call
           (rename_file active_replacement RELAY_ACTIVE_SEGMENT))"

text \<open>
  The encoder's output is written to the temporary file, which nothing reads before the rename.
\<close>

definition encode_visitor :: "relay_env \<Rightarrow> (relay_disk \<times> string) visitor" where
  "encode_visitor env ev encoded_len =
     rseq (rmodify (\<lambda>(d, out). (d, out @ event_json env ev @ [CHR 0x0A]))) (rret False)"

definition write_sealed_copy :: "relay_env \<Rightarrow> string \<Rightarrow> unit disk_meth" where
  "write_sealed_copy env destination =
     (let temporary = destination @ ''.new'' in
      rseq (create_truncated temporary)
      (rbind (with_local [] (visit_relay_journal_file env RELAY_ACTIVE_SEGMENT Strict (encode_visitor env)))
         (\<lambda>(_, encoded).
           rseq (write_all temporary (gzip env encoded))
           (rseq io_call
           (rseq (rename_file temporary destination)
                 io_call)))))"

text \<open>The state is the disk and the metadata of the span being sealed.\<close>

definition seal_active_relay_segment ::
  "relay_env \<Rightarrow> (relay_disk \<times> relay_journal_span, relay_err, unit) meth" where
  "seal_active_relay_segment env =
     rbind (rget (\<lambda>s. sealed_name (file_first_ordinal (snd s)) (file_last_ordinal (snd s)))) (\<lambda>destination.
       rseq (on_fst (rseq (write_sealed_copy env destination) replace_active_with_empty))
       (rseq (rmodify (\<lambda>(d, m). (d, m\<lparr>span_path := destination\<rparr>)))
             (on_fst io_call)))"

definition archive_stale_active_relay_journal :: "relay_journal_span \<Rightarrow> unit disk_meth" where
  "archive_stale_active_relay_journal metadata =
     (let archived = stale_name (file_first_ordinal metadata) (file_last_ordinal metadata) in
      rbind (rget (file_exists archived)) (\<lambda>exists.
        if exists then
          rfail (Bail ''cannot preserve stale relay journal {} because {} already exists''
                   [AStr RELAY_ACTIVE_SEGMENT, AStr archived])
        else
          rseq (rename_file RELAY_ACTIVE_SEGMENT archived)
          (rseq io_call
          (rseq replace_active_with_empty
                io_call))))"

end
