(* ===== verification/Relay_Queries.thy ===== *)
theory Relay_Queries
  imports Relay_Snapshot "HOL-Library.Product_Lexorder"
begin

text \<open>
  What the relay reads off its snapshot before it acts (\<open>src/src/hel_worker.rs\<close>): which command is
  next, what is in progress, whether the session is sealed for close. Each is a method of
  \<open>DurableRelay\<close> that reads nothing but \<open>self.snapshot\<close>.
\<close>

fun is_terminal :: "dispatch_state \<Rightarrow> bool" where
  "is_terminal DCompleted = True"
| "is_terminal DRejected = True"
| "is_terminal DInterrupted = True"
| "is_terminal _ = False"

fun in_progress :: "dispatch_state \<Rightarrow> bool" where
  "in_progress DPending = True"
| "in_progress DInFlight = True"
| "in_progress _ = False"

lemma dispatch_classes:
  "in_progress st \<Longrightarrow> \<not> is_terminal st" "st = DQueued \<or> in_progress st \<or> is_terminal st"
  by (cases st; simp)+

lemma not_terminal_iff: "\<not> is_terminal st \<longleftrightarrow> st = DQueued \<or> in_progress st"
  by (cases st) auto

lemma in_progress_not_queued [simp]: "in_progress st \<Longrightarrow> st \<noteq> DQueued"
  by auto

lemma is_terminal_not_in_progress [simp]: "is_terminal st \<Longrightarrow> \<not> in_progress st"
  by (cases st) auto

definition is_effectful :: "relay_command \<Rightarrow> bool" where
  "is_effectful cmd \<longleftrightarrow> is_effectful_acp cmd \<or> is_effectful_user_shell cmd"

text \<open>\<open>Iterator::min_by_key\<close> returns the first of the minimal elements.\<close>

fun min_by_key :: "('a \<Rightarrow> 'b::linorder) \<Rightarrow> 'a list \<Rightarrow> 'a option" where
  "min_by_key f [] = None"
| "min_by_key f (x # xs) =
     (case min_by_key f xs of
        None \<Rightarrow> Some x
      | Some y \<Rightarrow> if f y < f x then Some y else Some x)"

text \<open>\<open>Iterator::max_by_key\<close> returns the last of the maximal elements.\<close>

fun max_by_key :: "('a \<Rightarrow> 'b::linorder) \<Rightarrow> 'a list \<Rightarrow> 'a option" where
  "max_by_key f [] = None"
| "max_by_key f (x # xs) =
     (case max_by_key f xs of
        None \<Rightarrow> Some x
      | Some y \<Rightarrow> if f x > f y then Some x else Some y)"

definition accepted_ordinal_of :: "relay_snapshot \<Rightarrow> string \<Rightarrow> u64 option" where
  "accepted_ordinal_of s cid = map_option h_accepted_ordinal (bt_get (handled_commands s) cid)"

definition pending_close_barrier_id :: "relay_snapshot \<Rightarrow> string option" where
  "pending_close_barrier_id s =
     (case find (\<lambda>p. \<not> is_terminal (d_state (snd p)) \<and> is_close (d_command (snd p))) (dispatches s) of
        Some p \<Rightarrow> (case d_command (snd p) of Close barrier _ \<Rightarrow> Some barrier | _ \<Rightarrow> None)
      | None \<Rightarrow> None)"

definition close_requested :: "relay_snapshot \<Rightarrow> bool" where
  "close_requested s \<longleftrightarrow> pending_close_barrier_id s \<noteq> None"

definition promoted_config_in_progress :: "relay_snapshot \<Rightarrow> bool" where
  "promoted_config_in_progress s \<longleftrightarrow>
     list_ex (\<lambda>p. is_set_config (d_command (snd p)) \<and> in_progress (d_state (snd p))) (dispatches s)"

definition pending_checkpoint_barrier :: "relay_snapshot \<Rightarrow> bool" where
  "pending_checkpoint_barrier s \<longleftrightarrow>
     list_ex (\<lambda>p. is_begin_checkpoint (d_command (snd p))
                \<and> (d_state (snd p) = DQueued \<or> in_progress (d_state (snd p)))) (dispatches s)"

definition effectful_command_in_progress :: "relay_snapshot \<Rightarrow> bool" where
  "effectful_command_in_progress s \<longleftrightarrow>
     active_prompt s \<noteq> None
     \<or> list_ex (\<lambda>p. is_effectful (d_command (snd p)) \<and> in_progress (d_state (snd p))) (dispatches s)"

definition next_queued_checkpoint :: "relay_snapshot \<Rightarrow> (string \<times> u64) option" where
  "next_queued_checkpoint s =
     min_by_key snd
       (List.map_filter
          (\<lambda>p. if d_state (snd p) = DQueued \<and> is_begin_checkpoint (d_command (snd p))
               then map_option (\<lambda>n. (fst p, n)) (accepted_ordinal_of s (fst p)) else None)
          (dispatches s))"

text \<open>
  A control accepted before the active prompt reaches the agent first; a later one waits for the
  prompt to finish, except that \<open>Cancel\<close> bypasses it.
\<close>

definition control_entry ::
  "u64 \<Rightarrow> u64 option \<Rightarrow> relay_snapshot \<Rightarrow> string \<times> dispatch_record \<Rightarrow> (u64 \<times> string) option" where
  "control_entry before active_prompt_ordinal s p =
     (if d_state (snd p) \<noteq> DQueued \<or> \<not> is_effectful_acp (d_command (snd p))
         \<or> is_queue_entry (d_command (snd p)) then None
      else (case accepted_ordinal_of s (fst p) of
              None \<Rightarrow> None
            | Some accepted \<Rightarrow>
                if (case active_prompt_ordinal of Some prompt \<Rightarrow> accepted > prompt | None \<Rightarrow> False)
                   \<and> d_command (snd p) \<noteq> Cancel then None
                else if accepted < before then Some (accepted, fst p) else None))"

definition queued_controls_before :: "u64 \<Rightarrow> relay_snapshot \<Rightarrow> string list" where
  "queued_controls_before before s =
     (let active_prompt_ordinal =
            Option.bind (active_prompt s) (\<lambda>a. accepted_ordinal_of s (ap_command_id a))
      in map snd (sort_key fst
           (List.map_filter (control_entry before active_prompt_ordinal s) (dispatches s))))"

text \<open>The guards of \<open>promote_next_queued_command\<close>.\<close>

definition promotion_blocked :: "relay_snapshot \<Rightarrow> bool" where
  "promotion_blocked s \<longleftrightarrow>
     active_prompt s \<noteq> None \<or> promoted_config_in_progress s \<or> checkpoint_barrier s \<noteq> None
     \<or> execution s \<noteq> ExIdle \<or> pending_checkpoint_barrier s \<or> close_requested s"

definition earlier_shell_active :: "relay_snapshot \<Rightarrow> u64 \<Rightarrow> bool" where
  "earlier_shell_active s queued_ordinal \<longleftrightarrow>
     list_ex (\<lambda>p. case accepted_ordinal_of s (fst p) of
                    Some accepted \<Rightarrow> accepted < queued_ordinal | None \<Rightarrow> False)
       (active_user_shells s)"

definition promotable :: "relay_snapshot \<Rightarrow> stored_queued_command option" where
  "promotable s =
     (if promotion_blocked s then None
      else case queued_prompts s of
             [] \<Rightarrow> None
           | q # _ \<Rightarrow>
               if earlier_shell_active s
                    (case accepted_ordinal_of s (q_command_id q) of Some n \<Rightarrow> n | None \<Rightarrow> u64_max)
               then None else Some q)"

section \<open>Their meaning\<close>

lemma list_ex_btree:
  "bt_wf m \<Longrightarrow> list_ex (\<lambda>p. P (snd p)) m \<longleftrightarrow> (\<exists>k v. bt_get m k = Some v \<and> P v)"
  by (force simp: list_ex_iff bt_mem_iff [symmetric])

lemma find_close_Some:
  assumes "bt_wf (dispatches s)"
  shows "close_requested s \<longleftrightarrow>
    (\<exists>cid d. bt_get (dispatches s) cid = Some d \<and> \<not> is_terminal (d_state d) \<and> is_close (d_command d))"
proof -
  let ?P = "\<lambda>p :: string \<times> dispatch_record. \<not> is_terminal (d_state (snd p)) \<and> is_close (d_command (snd p))"
  have shape: "is_close c \<Longrightarrow> \<exists>b e. c = Close b e" for c
    by (cases c) auto
  have "close_requested s \<longleftrightarrow> find ?P (dispatches s) \<noteq> None"
  proof (cases "find ?P (dispatches s)")
    case None
    then show ?thesis by (simp add: close_requested_def pending_close_barrier_id_def)
  next
    case (Some p)
    then have "is_close (d_command (snd p))" by (auto simp: find_Some_iff)
    from shape [OF this] Some show ?thesis
      by (auto simp: close_requested_def pending_close_barrier_id_def)
  qed
  also have "\<dots> \<longleftrightarrow> (\<exists>p \<in> set (dispatches s). ?P p)"
    unfolding find_None_iff by blast
  also have "\<dots> \<longleftrightarrow>
    (\<exists>cid d. bt_get (dispatches s) cid = Some d \<and> \<not> is_terminal (d_state d) \<and> is_close (d_command d))"
    using assms by (force simp: bt_mem_iff [symmetric])
  finally show ?thesis .
qed

lemma promoted_config_iff:
  "bt_wf (dispatches s) \<Longrightarrow> promoted_config_in_progress s \<longleftrightarrow>
     (\<exists>cid d. bt_get (dispatches s) cid = Some d \<and> is_set_config (d_command d) \<and> in_progress (d_state d))"
  unfolding promoted_config_in_progress_def by (rule list_ex_btree)

lemma effectful_in_progress_iff:
  "bt_wf (dispatches s) \<Longrightarrow> effectful_command_in_progress s \<longleftrightarrow>
     active_prompt s \<noteq> None
     \<or> (\<exists>cid d. bt_get (dispatches s) cid = Some d \<and> is_effectful (d_command d) \<and> in_progress (d_state d))"
  unfolding effectful_command_in_progress_def by (subst list_ex_btree) simp_all

lemma min_by_key_mem: "min_by_key f xs = Some x \<Longrightarrow> x \<in> set xs"
  by (induction xs arbitrary: x) (auto split: option.splits if_splits)

lemma min_by_key_le: "min_by_key f xs = Some x \<Longrightarrow> y \<in> set xs \<Longrightarrow> f x \<le> f y"
proof (induction xs arbitrary: x)
  case Nil
  then show ?case by simp
next
  case (Cons a xs)
  show ?case
  proof (cases "min_by_key f xs")
    case None
    then have "xs = []" by (cases xs) (auto split: option.splits if_splits)
    with Cons.prems show ?thesis by simp
  next
    case (Some z)
    with Cons show ?thesis by (force split: if_splits)
  qed
qed

lemma min_by_key_None: "min_by_key f xs = None \<longleftrightarrow> xs = []"
  by (cases xs) (auto split: option.splits if_splits)

lemma set_map_filter: "set (List.map_filter f xs) = {y. \<exists>x \<in> set xs. f x = Some y}"
  by (force simp: List.map_filter_def)

lemma next_queued_checkpoint_Some:
  assumes "bt_wf (dispatches s)" "next_queued_checkpoint s = Some (cid, n)"
  shows "\<exists>d. bt_get (dispatches s) cid = Some d \<and> d_state d = DQueued \<and> is_begin_checkpoint (d_command d)"
    "accepted_ordinal_of s cid = Some n"
proof -
  from min_by_key_mem [OF assms(2) [unfolded next_queued_checkpoint_def]]
  obtain d where "(cid, d) \<in> set (dispatches s)" "d_state d = DQueued"
    "is_begin_checkpoint (d_command d)" and n: "accepted_ordinal_of s cid = Some n"
    unfolding set_map_filter by (auto split: if_splits)
  with assms(1) show "\<exists>d. bt_get (dispatches s) cid = Some d \<and> d_state d = DQueued
      \<and> is_begin_checkpoint (d_command d)"
    by (auto simp: bt_mem_iff)
  from n show "accepted_ordinal_of s cid = Some n" .
qed

lemma control_entry_Some:
  assumes "control_entry before apo s p = Some (n, cid)"
  shows "cid = fst p" "d_state (snd p) = DQueued" "is_effectful_acp (d_command (snd p))"
    "\<not> is_queue_entry (d_command (snd p))" "accepted_ordinal_of s cid = Some n" "n < before"
  using assms by (auto simp: control_entry_def split: if_splits option.split_asm)

lemma queued_controls_before_mem:
  assumes "bt_wf (dispatches s)" "cid \<in> set (queued_controls_before n s)"
  shows "\<exists>d. bt_get (dispatches s) cid = Some d \<and> d_state d = DQueued
           \<and> is_effectful_acp (d_command d) \<and> \<not> is_queue_entry (d_command d)"
proof -
  from assms(2) obtain p apo m where p: "p \<in> set (dispatches s)" "control_entry n apo s p = Some (m, cid)"
    unfolding queued_controls_before_def Let_def set_map set_sort set_map_filter by force
  with control_entry_Some [OF p(2)] assms(1) show ?thesis
    by (cases p) (auto simp: bt_mem_iff)
qed

lemma promotable_Some:
  "promotable s = Some q \<longleftrightarrow>
     \<not> promotion_blocked s
     \<and> (\<exists>rest. queued_prompts s = q # rest)
     \<and> \<not> earlier_shell_active s
           (case accepted_ordinal_of s (q_command_id q) of Some n \<Rightarrow> n | None \<Rightarrow> u64_max)"
  by (auto simp: promotable_def split: list.splits if_splits)

end
