(* ===== verification/Relay_Protocol.thy ===== *)
theory Relay_Protocol
  imports Relay_Types
begin

text \<open>
  The wire protocol of the relay (\<open>src/src/hel_worker/protocol.rs\<close>) and the tolerant decoding of
  one frame (\<open>src/src/hel_worker_protocol.rs\<close>): version negotiation, requests with the protocol
  version each needs, responses and errors.
  An error message is the format string of the code and its arguments, as in \<open>relay_err\<close>.
\<close>

section \<open>Versions\<close>

record relay_version_range =
  vr_min :: u32
  vr_max :: u32

definition CURRENT :: relay_version_range where
  "CURRENT = \<lparr>vr_min = RELAY_MIN_PROTOCOL_VERSION, vr_max = RELAY_PROTOCOL_VERSION\<rparr>"

definition range_contains :: "relay_version_range \<Rightarrow> u32 \<Rightarrow> bool" where
  "range_contains r version \<longleftrightarrow> vr_min r \<le> version \<and> version \<le> vr_max r"

definition negotiate :: "relay_version_range \<Rightarrow> relay_version_range \<Rightarrow> u32 option" where
  "negotiate r peer =
     (let minimum = max (vr_min r) (vr_min peer); maximum = min (vr_max r) (vr_max peer)
      in if minimum \<le> maximum then Some maximum else None)"

section \<open>Requests\<close>

record analyze_delta_repository =
  ad_root :: string
  ad_baseline_tree :: "string option"
  ad_current_tree :: string

datatype reviewer_request =
    RvStart json
  | RvAttach u64 string
  | RvAcknowledge u64 string
  | RvSubmit string relay_command
  | RvStatus
  | RvRespondElicitation string json
  | RvPause
  | RvCaptureDelta "(string, string) btree"
  | RvAdvanceBaseline "(string, string) btree"
  | RvAnalyzeDelta "analyze_delta_repository list"
  | RvTakeLaneDispatches

datatype relay_request =
    Hello string relay_version_range
  | Attach u64 string
  | Acknowledge u64 string
  | Submit string relay_command
  | Status
  | InstallPromptContext string
  | ProjectMemorySnapshot
  | InstallProjectMemorySnapshot json
  | CredentialState
  | ReadCredentials
  | InstallCredentials string
  | SkillsState
  | InstallSkills string
  | GithubTokenState
  | InstallGithubToken string
  | RemoveGithubToken
  | Compact string
  | RespondElicitation string json
  | Reviewer "string option" reviewer_request

fun action_name :: "reviewer_request \<Rightarrow> string" where
  "action_name (RvStart _) = ''reviewer_start''"
| "action_name (RvAttach _ _) = ''reviewer_attach''"
| "action_name (RvAcknowledge _ _) = ''reviewer_acknowledge''"
| "action_name (RvSubmit _ _) = ''reviewer_submit''"
| "action_name RvStatus = ''reviewer_status''"
| "action_name (RvRespondElicitation _ _) = ''reviewer_respond_elicitation''"
| "action_name RvPause = ''reviewer_pause''"
| "action_name (RvCaptureDelta _) = ''reviewer_capture_delta''"
| "action_name (RvAdvanceBaseline _) = ''reviewer_advance_baseline''"
| "action_name (RvAnalyzeDelta _) = ''reviewer_analyze_delta''"
| "action_name RvTakeLaneDispatches = ''reviewer_take_lane_dispatches''"

fun method_name :: "relay_request \<Rightarrow> string" where
  "method_name (Hello _ _) = ''hello''"
| "method_name (Attach _ _) = ''attach''"
| "method_name (Acknowledge _ _) = ''acknowledge''"
| "method_name (Submit _ _) = ''submit''"
| "method_name Status = ''status''"
| "method_name (InstallPromptContext _) = ''install_prompt_context''"
| "method_name ProjectMemorySnapshot = ''project_memory_snapshot''"
| "method_name (InstallProjectMemorySnapshot _) = ''install_project_memory_snapshot''"
| "method_name CredentialState = ''credential_state''"
| "method_name ReadCredentials = ''read_credentials''"
| "method_name (InstallCredentials _) = ''install_credentials''"
| "method_name SkillsState = ''skills_state''"
| "method_name (InstallSkills _) = ''install_skills''"
| "method_name GithubTokenState = ''github_token_state''"
| "method_name (InstallGithubToken _) = ''install_github_token''"
| "method_name RemoveGithubToken = ''remove_github_token''"
| "method_name (Compact _) = ''compact''"
| "method_name (RespondElicitation _ _) = ''respond_elicitation''"
| "method_name (Reviewer _ r) = action_name r"

fun minimum_protocol :: "relay_request \<Rightarrow> u32" where
  "minimum_protocol (RespondElicitation _ _) = 2"
| "minimum_protocol (InstallPromptContext _) = 3"
| "minimum_protocol ProjectMemorySnapshot = 4"
| "minimum_protocol (InstallProjectMemorySnapshot _) = 4"
| "minimum_protocol (Submit _ command) = command_minimum_protocol command"
| "minimum_protocol (Reviewer _ _) = 6"
| "minimum_protocol _ = RELAY_MIN_PROTOCOL_VERSION"

definition supported_at :: "relay_request \<Rightarrow> u32 \<Rightarrow> bool" where
  "supported_at request protocol_version \<longleftrightarrow>
     range_contains CURRENT protocol_version \<and> protocol_version \<ge> minimum_protocol request"

record relay_request_envelope =
  rq_request_id :: string
  rq_protocol_version :: u32
  rq_request :: relay_request

section \<open>Responses\<close>

datatype relay_error_code =
  IncompatibleProtocol | InvalidRequest | InvalidState | Desynchronized | Internal

record desynchronized_cursor =
  requested_after :: u64
  requested_digest :: string
  earliest_available :: u64
  earliest_digest :: string
  dc_latest :: u64
  dc_latest_digest :: string

record relay_protocol_error =
  pe_code :: relay_error_code
  pe_message :: relay_err
  pe_retryable :: bool
  pe_detail :: "desynchronized_cursor option"

record repo_delta =
  rd_root :: string
  rd_baseline_tree :: "string option"
  rd_current_tree :: string
  rd_patch :: string
  rd_diffstat :: string
  rd_changed_lines :: usize

datatype relay_response_payload =
    PHello u32 string string
  | PAttached relay_operational_state "relay_event list" u64 string
  | PAcknowledged u64 string
  | PAccepted string u64
  | PStatus relay_operational_state
  | PPromptContextInstalled
  | PProjectMemorySnapshot json json
  | PProjectMemorySnapshotInstalled
  | PCredentialState bool string "i64 option"
  | PCredentials string
  | PSkillsState bool string
  | PGithubTokenState bool string
  | PCompacted string
  | PElicitationResolved string
  | PReviewerStarted "string option" "json list" bool relay_operational_state
  | PReviewerPaused
  | PReviewDelta "repo_delta list"
  | PReviewBaselineAdvanced
  | PReviewChangedFunctions string
  | PLaneDispatches "json list"

datatype relay_response_body =
    BodyOk relay_response_payload
  | BodyError relay_protocol_error

record relay_response_envelope =
  rs_request_id :: string
  rs_protocol_version :: u32
  rs_body :: relay_response_body

definition relay_protocol_error ::
  "relay_error_code \<Rightarrow> relay_err \<Rightarrow> bool \<Rightarrow> desynchronized_cursor option \<Rightarrow> relay_protocol_error" where
  "relay_protocol_error code message retryable detail =
     \<lparr>pe_code = code, pe_message = message, pe_retryable = retryable, pe_detail = detail\<rparr>"

definition relay_error ::
  "relay_error_code \<Rightarrow> relay_err \<Rightarrow> bool \<Rightarrow> desynchronized_cursor option \<Rightarrow> relay_response_body" where
  "relay_error code message retryable detail =
     BodyError (relay_protocol_error code message retryable detail)"

definition incompatible_request_protocol :: "u32 \<Rightarrow> relay_response_body" where
  "incompatible_request_protocol protocol_version =
     relay_error IncompatibleProtocol
       (Bail ''request uses protocol {protocol_version}, relay supports protocol {}-{}''
          [ANat protocol_version, ANat RELAY_MIN_PROTOCOL_VERSION, ANat RELAY_PROTOCOL_VERSION])
       False None"

definition incompatible_request_protocol_response :: "string \<Rightarrow> u32 \<Rightarrow> relay_response_envelope" where
  "incompatible_request_protocol_response request_id protocol_version =
     \<lparr>rs_request_id = request_id, rs_protocol_version = protocol_version,
      rs_body = incompatible_request_protocol protocol_version\<rparr>"

definition unsupported_relay_method_response ::
  "string \<Rightarrow> u32 \<Rightarrow> string \<Rightarrow> relay_response_envelope" where
  "unsupported_relay_method_response request_id protocol_version method =
     \<lparr>rs_request_id = request_id, rs_protocol_version = protocol_version,
      rs_body = relay_error InvalidRequest
        (Bail ''relay does not support method {method:?}'' [AStr method]) False None\<rparr>"

definition invalid_relay_request_response ::
  "string \<Rightarrow> u32 \<Rightarrow> relay_err \<Rightarrow> relay_response_envelope" where
  "invalid_relay_request_response request_id protocol_version message =
     \<lparr>rs_request_id = request_id, rs_protocol_version = protocol_version,
      rs_body = relay_error InvalidRequest message False None\<rparr>"

section \<open>Decoding one frame\<close>

datatype decoded_relay_request =
    DecKnown relay_request_envelope
  | DecUnknown string u32 string
  | DecInvalid string u32 relay_err

record raw_request_envelope =
  raw_request_id :: string
  raw_protocol_version :: u32
  raw_request :: json

text \<open>
  The three decoders of \<open>serde_json\<close> the function calls; the two that can report an error return
  its text on the left.
\<close>

record frame_codec =
  parse_value :: "string \<Rightarrow> json option"
  parse_raw_envelope :: "string \<Rightarrow> string + raw_request_envelope"
  request_from_value :: "json \<Rightarrow> string + relay_request"

definition json_get :: "json \<Rightarrow> string \<Rightarrow> json option" where
  "json_get v key = (case v of JObject entries \<Rightarrow> map_of entries key | _ \<Rightarrow> None)"

definition json_as_str :: "json \<Rightarrow> string option" where
  "json_as_str v = (case v of JString t \<Rightarrow> Some t | _ \<Rightarrow> None)"

definition digits_value :: "string \<Rightarrow> nat" where
  "digits_value ds = foldl (\<lambda>n c. 10 * n + (of_char c - 48)) 0 ds"

definition json_as_u64 :: "json \<Rightarrow> u64 option" where
  "json_as_u64 v =
     (case v of
        JNumber ds \<Rightarrow> if ds \<noteq> [] \<and> list_all is_ascii_digit ds \<and> digits_value ds \<le> u64_max
                     then Some (digits_value ds) else None
      | _ \<Rightarrow> None)"

definition u32_max :: u32 where
  "u32_max = 4294967295"

definition unwrap_or :: "'a \<Rightarrow> 'a option \<Rightarrow> 'a" where
  "unwrap_or d x = (case x of Some v \<Rightarrow> v | None \<Rightarrow> d)"

definition is_served_relay_method :: "string \<Rightarrow> bool" where
  "is_served_relay_method method \<longleftrightarrow>
     method \<in> set [''hello'', ''attach'', ''acknowledge'', ''submit'', ''status'',
       ''credential_state'', ''read_credentials'', ''install_credentials'', ''skills_state'',
       ''install_skills'', ''compact'', ''respond_elicitation'']"

definition decode_relay_request :: "frame_codec \<Rightarrow> string \<Rightarrow> decoded_relay_request" where
  "decode_relay_request codec bytes =
     (let identity = unwrap_or JNull (parse_value codec bytes);
          request_id = unwrap_or ''invalid-request''
            (Option.bind (json_get identity ''request_id'') json_as_str);
          protocol_version = unwrap_or RELAY_PROTOCOL_VERSION
            (Option.bind (Option.bind (json_get identity ''protocol_version'') json_as_u64)
               (\<lambda>v. if v \<le> u32_max then Some v else None))
      in case parse_raw_envelope codec bytes of
           Inl err \<Rightarrow> DecInvalid request_id protocol_version
                       (Bail ''invalid relay request envelope: {error}'' [AStr err])
         | Inr raw \<Rightarrow>
             (let method = unwrap_or []
                    (Option.bind (json_get (raw_request raw) ''method'') json_as_str)
              in case request_from_value codec (raw_request raw) of
                   Inr request \<Rightarrow>
                     DecKnown \<lparr>rq_request_id = raw_request_id raw,
                               rq_protocol_version = raw_protocol_version raw,
                               rq_request = request\<rparr>
                 | Inl err \<Rightarrow>
                     if method \<noteq> [] \<and> \<not> is_served_relay_method method then
                       DecUnknown (raw_request_id raw) (raw_protocol_version raw) method
                     else
                       DecInvalid (raw_request_id raw) (raw_protocol_version raw)
                         (Bail ''invalid {method:?} relay request: {error}'' [AStr method, AStr err])))"

section \<open>Properties\<close>

text \<open>
  C11: negotiation picks the highest version that both peers speak, and fails exactly when they
  have no version in common.
\<close>

theorem negotiate_greatest_common:
  "(case negotiate a b of
      Some v \<Rightarrow> range_contains a v \<and> range_contains b v
                \<and> (\<forall>w. range_contains a w \<and> range_contains b w \<longrightarrow> w \<le> v)
    | None \<Rightarrow> (\<nexists>w. range_contains a w \<and> range_contains b w))"
  by (auto simp: negotiate_def range_contains_def Let_def)

theorem negotiate_greatest_common_witness:
  "negotiate CURRENT \<lparr>vr_min = 2, vr_max = 9\<rparr> = Some 6
   \<and> range_contains CURRENT 6 \<and> range_contains \<lparr>vr_min = 2, vr_max = 9\<rparr> 6
   \<and> \<not> range_contains CURRENT 7 \<and> negotiate CURRENT \<lparr>vr_min = 7, vr_max = 9\<rparr> = None"
proof -
  have "negotiate CURRENT \<lparr>vr_min = 2, vr_max = 9\<rparr> = Some 6"
    and "negotiate CURRENT \<lparr>vr_min = 7, vr_max = 9\<rparr> = None"
    by (simp_all add: negotiate_def CURRENT_def RELAY_MIN_PROTOCOL_VERSION_def RELAY_PROTOCOL_VERSION_def)
  with negotiate_greatest_common [of CURRENT "\<lparr>vr_min = 2, vr_max = 9\<rparr>"]
    negotiate_greatest_common [of CURRENT "\<lparr>vr_min = 7, vr_max = 9\<rparr>"]
  show ?thesis by (auto simp: range_contains_def)
qed

text \<open>The method names that \<open>is_served_relay_method\<close> knows, by request.\<close>

lemma method_name_served:
  "is_served_relay_method (method_name r) \<longleftrightarrow>
     (case r of
        InstallPromptContext _ \<Rightarrow> False | ProjectMemorySnapshot \<Rightarrow> False
      | InstallProjectMemorySnapshot _ \<Rightarrow> False | GithubTokenState \<Rightarrow> False
      | InstallGithubToken _ \<Rightarrow> False | RemoveGithubToken \<Rightarrow> False | Reviewer _ _ \<Rightarrow> False
      | _ \<Rightarrow> True)"
proof (cases r)
  case (Reviewer role q)
  then show ?thesis by (cases q) (simp_all add: is_served_relay_method_def)
qed (simp_all add: is_served_relay_method_def)

lemma method_name_nonempty: "method_name r \<noteq> []"
proof (cases r)
  case (Reviewer role q)
  then show ?thesis by (cases q) simp_all
qed simp_all

lemma decode_readable_envelope:
  assumes "parse_raw_envelope codec bytes = Inr raw"
    and "request_from_value codec (raw_request raw) = Inl err"
    and "json_get (raw_request raw) ''method'' = Some (JString m)"
  shows "decode_relay_request codec bytes =
    (if m \<noteq> [] \<and> \<not> is_served_relay_method m
     then DecUnknown (raw_request_id raw) (raw_protocol_version raw) m
     else DecInvalid (raw_request_id raw) (raw_protocol_version raw)
            (Bail ''invalid {method:?} relay request: {error}'' [AStr m, AStr err]))"
  using assms by (simp add: decode_relay_request_def Let_def json_as_str_def unwrap_or_def)

definition example_codec :: "string \<Rightarrow> frame_codec" where
  "example_codec m =
     \<lparr>parse_value = (\<lambda>_. None),
      parse_raw_envelope = (\<lambda>_. Inr \<lparr>raw_request_id = ''r1'', raw_protocol_version = 6,
         raw_request = JObject [(''method'', JString m)]\<rparr>),
      request_from_value = (\<lambda>_. Inl ''missing field'')\<rparr>"



end
