(* ===== verification/Relay_Machine.thy ===== *)
theory Relay_Machine
  imports Relay_Queries Relay_Protocol
begin

text \<open>
  The relay as a machine on snapshots. A step is an event whose guard holds (the guard is the
  condition under which the code appends that event), or one of the few changes that bypass the
  journal: claiming pending commands, acknowledging, pruning finished commands, installing
  prompt context, and putting an in-flight close back after a restart. The methods of
  \<open>DurableRelay\<close> are shown to do nothing else (theory \<open>Relay_Refinement\<close>).
\<close>

section \<open>Admission of a command\<close>

definition validate_identifier :: "string \<Rightarrow> string \<Rightarrow> unit relay_result" where
  "validate_identifier value name =
     (if length value < 8 \<or> length value > 128
         \<or> \<not> list_all (\<lambda>c. is_ascii_alphanumeric c \<or> c = CHR ''-'' \<or> c = CHR ''_'') value
      then Err (Bail ''invalid {name}'' [AStr name]) else Ok ())"

definition completes_pending_close :: "relay_snapshot \<Rightarrow> relay_command \<Rightarrow> bool" where
  "completes_pending_close s cmd \<longleftrightarrow>
     (case (pending_close_barrier_id s, cmd) of
        (Some barrier, CompleteCheckpoint b) \<Rightarrow> b = barrier
      | _ \<Rightarrow> False)"

definition exact_cut :: "relay_snapshot \<Rightarrow> string \<Rightarrow> relay_cursor \<Rightarrow> bool" where
  "exact_cut s barrier expected \<longleftrightarrow>
     checkpoint_barrier s = Some barrier
     \<and> (case zip_option (checkpoint_ready_through s) (checkpoint_ready_digest s) of
          Some (n, d) \<Rightarrow> n = cur_ordinal expected \<and> d = cur_digest expected
        | None \<Rightarrow> False)
     \<and> latest_ordinal s = cur_ordinal expected \<and> latest_digest s = cur_digest expected"

text \<open>
  The checks of \<open>submit_command\<close> that read only the snapshot, in order: \<open>Some\<close> is the error that
  is returned instead of accepting the command.
\<close>

definition submit_refusal :: "relay_snapshot \<Rightarrow> relay_command \<Rightarrow> (relay_error_code \<times> string) option" where
  "submit_refusal s cmd =
     (if pending_close_barrier_id s \<noteq> None \<and> \<not> completes_pending_close s cmd then
        Some (InvalidState, ''relay session is sealed for close'')
      else if (execution s = ExClosing \<or> execution s = ExClosed) \<and> \<not> completes_pending_close s cmd then
        Some (InvalidState, ''relay session is closing'')
      else case cmd of
        Prompt prompt \<Rightarrow> if prompt = [] then Some (InvalidRequest, ''prompt is empty'') else None
      | RunUserShell command \<Rightarrow>
          if is_blank command then Some (InvalidRequest, ''shell command is empty'') else None
      | CancelUserShell shell \<Rightarrow>
          if \<not> bt_contains (active_user_shells s) shell
          then Some (InvalidState, ''there is no active shell command with that ID'') else None
      | SetConfig key val \<Rightarrow>
          if is_blank key \<or> is_blank val
          then Some (InvalidRequest, ''configuration key and value are required'') else None
      | RecordNotice text \<Rightarrow>
          if is_blank text then Some (InvalidRequest, ''notice text is required'') else None
      | Cancel \<Rightarrow>
          if active_prompt s = None
          then Some (InvalidState, ''there is no active prompt to cancel'') else None
      | RemoveQueuedPrompt queued \<Rightarrow>
          if \<not> list_ex (\<lambda>q. q_command_id q = queued) (queued_prompts s)
          then Some (InvalidRequest, ''unknown queued prompt'') else None
      | CompleteCheckpoint barrier \<Rightarrow>
          if checkpoint_barrier s \<noteq> Some barrier \<or> checkpoint_ready_through s = None
          then Some (InvalidState, ''checkpoint barrier is not active'') else None
      | ReleaseCheckpoint barrier \<Rightarrow>
          if checkpoint_barrier s \<noteq> Some barrier \<or> checkpoint_ready_through s = None
          then Some (InvalidState, ''checkpoint barrier is not active'') else None
      | Close barrier expected \<Rightarrow>
          if \<not> exact_cut s barrier expected
          then Some (InvalidState, ''close does not match the current checkpoint cut'') else None
      | _ \<Rightarrow> None)"

section \<open>Claims\<close>

record claimed_steering_prompt =
  st_queued_command_id :: string
  st_prompt :: "content_block list"

record claimed_relay_command =
  cl_command_id :: string
  cl_accepted_ordinal :: u64
  cl_command :: relay_command
  cl_hidden_prompt_context :: "string option"
  cl_steering_prompt :: "claimed_steering_prompt option"

definition steering_prompt :: "relay_snapshot \<Rightarrow> relay_command \<Rightarrow> claimed_steering_prompt option" where
  "steering_prompt s cmd =
     (if cmd = Cancel then
        (case queued_prompts s of
           [] \<Rightarrow> None
         | q # _ \<Rightarrow>
             (case q_payload q of
                QPrompt p \<Rightarrow> Some \<lparr>st_queued_command_id = q_command_id q, st_prompt = p\<rparr>
              | QSetConfig _ _ \<Rightarrow> None))
      else None)"

definition attach_prompt_context :: "string \<Rightarrow> pending_prompt_context \<Rightarrow> pending_prompt_context" where
  "attach_prompt_context cid c = (if pc_attached c = None then c\<lparr>pc_attached := Some cid\<rparr> else c)"

definition attach_shell_context ::
  "string \<Rightarrow> u64 \<Rightarrow> pending_user_shell_context \<Rightarrow> pending_user_shell_context" where
  "attach_shell_context cid accepted c =
     (if sc_accepted_ordinal c \<ge> accepted then c
      else if sc_attached c = None then c\<lparr>sc_attached := Some cid\<rparr> else c)"

fun join_blank_line :: "string list \<Rightarrow> string" where
  "join_blank_line [] = []"
| "join_blank_line [x] = x"
| "join_blank_line (x # y # xs) = x @ [CHR 0x0A, CHR 0x0A] @ join_blank_line (y # xs)"

text \<open>The contexts a claimed prompt carries, in the order they are joined.\<close>

definition hidden_contexts :: "string \<Rightarrow> u64 \<Rightarrow> relay_snapshot \<Rightarrow> string list" where
  "hidden_contexts cid accepted s =
     (case pending_prompt_ctx s of
        Some c \<Rightarrow> (let c' = attach_prompt_context cid c
                  in if pc_attached c' = Some cid then [pc_text c'] else [])
      | None \<Rightarrow> [])
     @ map sc_text
         (filter (\<lambda>c. \<not> sc_accepted_ordinal c \<ge> accepted \<and> sc_attached c = Some cid)
           (map (attach_shell_context cid accepted) (pending_user_shell_contexts s)))"

definition claim_command ::
  "u64 \<times> string \<Rightarrow> relay_snapshot \<Rightarrow> claimed_relay_command list \<times> relay_snapshot" where
  "claim_command p s =
     (let accepted = fst p; cid = snd p in
      case bt_get (dispatches s) cid of
        None \<Rightarrow> ([], s)
      | Some d \<Rightarrow>
          (let steer = steering_prompt s (d_command d);
               s1 = set_dispatch_state cid DInFlight s;
               contexts = (if is_prompt (d_command d) then hidden_contexts cid accepted s1 else []);
               s2 = (if is_prompt (d_command d) then
                       s1\<lparr>pending_prompt_ctx := map_option (attach_prompt_context cid) (pending_prompt_ctx s1),
                          pending_user_shell_contexts :=
                            map (attach_shell_context cid accepted) (pending_user_shell_contexts s1)\<rparr>
                     else s1)
           in ([\<lparr>cl_command_id = cid, cl_accepted_ordinal = accepted, cl_command = d_command d,
                 cl_hidden_prompt_context = (if contexts = [] then None else Some (join_blank_line contexts)),
                 cl_steering_prompt = steer\<rparr>], s2)))"

fun claim_commands ::
  "(u64 \<times> string) list \<Rightarrow> relay_snapshot \<Rightarrow> claimed_relay_command list \<times> relay_snapshot" where
  "claim_commands [] s = ([], s)"
| "claim_commands (p # ps) s =
     (let (c, s1) = claim_command p s; (cs, s2) = claim_commands ps s1 in (c @ cs, s2))"

definition claimable :: "relay_snapshot \<Rightarrow> (u64 \<times> string) list" where
  "claimable s =
     sort_key fst
       (List.map_filter
          (\<lambda>p. if d_state (snd p) \<noteq> DPending then None
               else (case checkpoint_barrier s of
                       Some b \<Rightarrow> if fst p = b then map_option (\<lambda>n. (n, fst p)) (accepted_ordinal_of s (fst p))
                                else None
                     | None \<Rightarrow> map_option (\<lambda>n. (n, fst p)) (accepted_ordinal_of s (fst p))))
          (dispatches s))"

section \<open>Pruning\<close>

definition prunable_command_ids :: "relay_snapshot \<Rightarrow> u64 \<Rightarrow> string list" where
  "prunable_command_ids s through =
     map fst (filter (\<lambda>p. case h_terminal_ordinal (snd p) of
                            Some terminal \<Rightarrow> terminal \<le> through | None \<Rightarrow> False)
                (handled_commands s))"

definition prune_commands :: "string list \<Rightarrow> relay_snapshot \<Rightarrow> relay_snapshot" where
  "prune_commands cids s =
     s\<lparr>handled_commands := fold bt_remove cids (handled_commands s),
       dispatches := fold bt_remove cids (dispatches s)\<rparr>"

section \<open>Steps\<close>

definition queue_guard :: "relay_snapshot \<Rightarrow> string \<Rightarrow> relay_command \<Rightarrow> bool" where
  "queue_guard s cid cmd \<longleftrightarrow>
     length cid \<le> 128 \<and> \<not> bt_contains (handled_commands s) cid \<and> submit_refusal s cmd = None
     \<and> (\<forall>t. cmd = AdvanceRecoveryFloor t \<longrightarrow>
           recovery_floor_ordinal s \<le> cur_ordinal t \<and> cur_ordinal t \<le> latest_ordinal s)"

definition start_guard :: "relay_snapshot \<Rightarrow> string \<Rightarrow> bool" where
  "start_guard s cid \<longleftrightarrow>
     (\<exists>d. bt_get (dispatches s) cid = Some d \<and> d_state d = DQueued
        \<and> (is_queue_entry (d_command d) \<longrightarrow> (\<exists>q. promotable s = Some q \<and> q_command_id q = cid))
        \<and> (is_begin_checkpoint (d_command d) \<longrightarrow> \<not> effectful_command_in_progress s)
        \<and> (\<not> is_relay_local (d_command d) \<longrightarrow> checkpoint_barrier s = None))"

definition complete_guard :: "relay_snapshot \<Rightarrow> string \<Rightarrow> bool" where
  "complete_guard s cid \<longleftrightarrow>
     (\<exists>d. bt_get (dispatches s) cid = Some d
        \<and> (is_relay_local (d_command d) \<and> \<not> is_terminal (d_state d)
           \<or> d_state d = DInFlight \<and> \<not> is_begin_checkpoint (d_command d)))"

definition terminate_guard :: "relay_snapshot \<Rightarrow> string \<Rightarrow> bool" where
  "terminate_guard s cid \<longleftrightarrow>
     (\<exists>d. bt_get (dispatches s) cid = Some d \<and> \<not> is_terminal (d_state d))"

definition ready_guard :: "relay_snapshot \<Rightarrow> string \<Rightarrow> bool" where
  "ready_guard s cid \<longleftrightarrow>
     (\<exists>d. bt_get (dispatches s) cid = Some d \<and> d_state d = DInFlight)
     \<and> checkpoint_barrier s = Some cid \<and> checkpoint_ready_through s = None"

text \<open>The same guards as computations.\<close>

lemma guard_code [code]:
  "queue_guard s cid cmd \<longleftrightarrow>
     length cid \<le> 128 \<and> \<not> bt_contains (handled_commands s) cid \<and> submit_refusal s cmd = None
     \<and> (case cmd of
           AdvanceRecoveryFloor t \<Rightarrow> recovery_floor_ordinal s \<le> cur_ordinal t \<and> cur_ordinal t \<le> latest_ordinal s
         | _ \<Rightarrow> True)"
  "start_guard s cid \<longleftrightarrow>
     (case bt_get (dispatches s) cid of
        Some d \<Rightarrow> d_state d = DQueued
          \<and> (is_queue_entry (d_command d) \<longrightarrow> map_option q_command_id (promotable s) = Some cid)
          \<and> (is_begin_checkpoint (d_command d) \<longrightarrow> \<not> effectful_command_in_progress s)
          \<and> (\<not> is_relay_local (d_command d) \<longrightarrow> checkpoint_barrier s = None)
      | None \<Rightarrow> False)"
  "complete_guard s cid \<longleftrightarrow>
     (case bt_get (dispatches s) cid of
        Some d \<Rightarrow> is_relay_local (d_command d) \<and> \<not> is_terminal (d_state d)
          \<or> d_state d = DInFlight \<and> \<not> is_begin_checkpoint (d_command d)
      | None \<Rightarrow> False)"
  "terminate_guard s cid \<longleftrightarrow>
     (case bt_get (dispatches s) cid of Some d \<Rightarrow> \<not> is_terminal (d_state d) | None \<Rightarrow> False)"
  "ready_guard s cid \<longleftrightarrow>
     (case bt_get (dispatches s) cid of Some d \<Rightarrow> d_state d = DInFlight | None \<Rightarrow> False)
     \<and> checkpoint_barrier s = Some cid \<and> checkpoint_ready_through s = None"
  by (cases cmd; simp add: queue_guard_def)
    (auto simp: start_guard_def complete_guard_def terminate_guard_def ready_guard_def split: option.splits)

fun runtime_observation :: "relay_observation \<Rightarrow> bool" where
  "runtime_observation (CommandQueued _ _ _) = False"
| "runtime_observation (CommandStarted _ _) = False"
| "runtime_observation (CommandCompleted _ _) = False"
| "runtime_observation (CommandRejected _ _ _) = False"
| "runtime_observation (CommandInterrupted _ _ _) = False"
| "runtime_observation (CheckpointReady _ _) = False"
| "runtime_observation Closing = False"
| "runtime_observation Closed = False"
| "runtime_observation _ = True"

fun event_guard :: "relay_snapshot \<Rightarrow> relay_observation \<Rightarrow> bool" where
  "event_guard s (CommandQueued cid cmd _) = queue_guard s cid cmd"
| "event_guard s (CommandStarted cid _) = start_guard s cid"
| "event_guard s (CommandCompleted cid _) = complete_guard s cid"
| "event_guard s (CommandRejected cid _ _) = terminate_guard s cid"
| "event_guard s (CommandInterrupted cid _ _) = terminate_guard s cid"
| "event_guard s (CheckpointReady cid _) = ready_guard s cid"
| "event_guard s Closed = (execution s = ExClosed)"
| "event_guard s obs = runtime_observation obs"

inductive relay_step :: "relay_env \<Rightarrow> relay_snapshot \<Rightarrow> relay_snapshot \<Rightarrow> bool" for env where
  step_event:
    "event_guard s (ev_observation ev) \<Longrightarrow> apply_relay_event env ev s = Ok s' \<Longrightarrow> relay_step env s s'"
| step_claim:
    "\<forall>p \<in> set ps. \<exists>d. bt_get (dispatches s) (snd p) = Some d \<and> d_state d = DPending \<Longrightarrow>
     relay_step env s (snd (claim_commands ps s))"
| step_acknowledge:
    "acknowledged_through s < n \<Longrightarrow> n \<le> latest_ordinal s \<Longrightarrow> is_hex_digest d \<Longrightarrow>
     relay_step env s (s\<lparr>acknowledged_through := n, acknowledged_digest := d\<rparr>)"
| step_prune:
    "relay_step env s (prune_commands (prunable_command_ids s through) s)"
| step_context:
    "relay_step env s (s\<lparr>pending_prompt_ctx := c\<rparr>)"
| step_reclose:
    "bt_get (dispatches s) cid = Some d \<Longrightarrow> d_state d = DInFlight \<Longrightarrow> is_close (d_command d) \<Longrightarrow>
     relay_step env s (set_dispatch_state cid DPending s)"

inductive relay_steps :: "relay_env \<Rightarrow> relay_snapshot \<Rightarrow> relay_snapshot \<Rightarrow> bool" for env where
  steps_refl [intro, simp]: "relay_steps env s s"
| steps_step: "relay_steps env s s' \<Longrightarrow> relay_step env s' s'' \<Longrightarrow> relay_steps env s s''"

lemma relay_step_steps: "relay_step env s s' \<Longrightarrow> relay_steps env s s'"
  by (rule steps_step [OF steps_refl])

lemma relay_steps_trans: "relay_steps env s s' \<Longrightarrow> relay_steps env s' s'' \<Longrightarrow> relay_steps env s s''"
  by (rotate_tac, induction rule: relay_steps.induct) (auto intro: steps_step)

end
