(* ===== verification/Relay_Store.thy ===== *)
theory Relay_Store
  imports Relay_Disk Relay_Machine
begin

text \<open>
  \<open>DurableRelay\<close> (\<open>src/src/hel_worker.rs\<close>) and its methods that make an event or a snapshot durable
  (\<open>src/src/hel_worker/journal.rs\<close>): appending an event, persisting and committing a snapshot,
  sealing the active segment, rewriting the journal and collecting history.
\<close>

record durable_relay =
  relay_version :: string
  snapshot :: relay_snapshot
  journal_spans :: "relay_journal_span list"
  hot_events :: "relay_event list"
  replay_cursors :: "(u64 \<times> string) list"
  unpersisted_journal_bytes :: usize
  journal_generation :: u64
  acp_activity :: i64
  active_agent_terminals :: "(string, active_agent_terminal) btree"
  closed_agent_terminals :: "(string, unit) btree"
  disk :: relay_disk

type_synonym 'a relay_meth = "(durable_relay, relay_err, 'a) meth"

text \<open>A method of the disk, run by the relay that owns it.\<close>

definition rdisk :: "'a disk_meth \<Rightarrow> 'a relay_meth" where
  "rdisk m r = (case m (disk r) of (x, d) \<Rightarrow> (x, r\<lparr>disk := d\<rparr>))"

lemma wp_rdisk [wp_simps]:
  "wp (rdisk m) Q E r = wp m (\<lambda>x d. Q x (r\<lparr>disk := d\<rparr>)) (\<lambda>d. E (r\<lparr>disk := d\<rparr>)) (disk r)"
  by (simp add: wp_def rdisk_def split: prod.splits outcome.splits)

section \<open>Memory\<close>

definition agent_terminal_started :: "active_agent_terminal \<Rightarrow> durable_relay \<Rightarrow> durable_relay" where
  "agent_terminal_started terminal r =
     (if bt_contains (closed_agent_terminals r) (at_terminal_id terminal)
      then r\<lparr>closed_agent_terminals := bt_remove (at_terminal_id terminal) (closed_agent_terminals r)\<rparr>
      else r\<lparr>active_agent_terminals :=
               bt_insert (at_terminal_id terminal) terminal (active_agent_terminals r)\<rparr>)"

definition agent_terminal_closed :: "string \<Rightarrow> durable_relay \<Rightarrow> durable_relay" where
  "agent_terminal_closed terminal_id r =
     r\<lparr>active_agent_terminals := bt_remove terminal_id (active_agent_terminals r),
       closed_agent_terminals := bt_insert terminal_id () (closed_agent_terminals r)\<rparr>"

definition clear_agent_terminals :: "durable_relay \<Rightarrow> durable_relay" where
  "clear_agent_terminals r = r\<lparr>active_agent_terminals := [], closed_agent_terminals := []\<rparr>"

definition mark_acp_activity :: "relay_env \<Rightarrow> unit relay_meth" where
  "mark_acp_activity env = rbind (rdisk (read_clock env)) (\<lambda>now. rmodify (\<lambda>r. r\<lparr>acp_activity := now\<rparr>))"

definition last_at_ms :: "i64 \<Rightarrow> i64 option" where
  "last_at_ms value = (if value > 0 then Some value else None)"

definition operational_state :: "durable_relay \<Rightarrow> relay_operational_state" where
  "operational_state r =
     (snapshot_operational_state (snapshot r))
       \<lparr>os_last_acp_activity_at_ms := last_at_ms (acp_activity r),
        os_active_agent_terminals := bt_values (active_agent_terminals r)\<rparr>"

definition push_hot :: "relay_event list \<Rightarrow> relay_event \<Rightarrow> relay_event list" where
  "push_hot hot ev = (if length hot = RELAY_HOT_EVENT_CAPACITY then tl hot else hot) @ [ev]"

definition push_hot_event :: "relay_event \<Rightarrow> durable_relay \<Rightarrow> durable_relay" where
  "push_hot_event ev r = r\<lparr>hot_events := push_hot (hot_events r) ev\<rparr>"

definition invalidate_replay_plans :: "durable_relay \<Rightarrow> durable_relay" where
  "invalidate_replay_plans r = r\<lparr>journal_generation := wrapping_add_u64 (journal_generation r) 1\<rparr>"

text \<open>The last span grows if it is the active segment; otherwise a new span begins.\<close>

definition record_append :: "relay_event \<Rightarrow> relay_journal_span list \<Rightarrow> relay_journal_span list" where
  "record_append ev spans =
     (if spans \<noteq> [] \<and> span_path (last spans) = RELAY_ACTIVE_SEGMENT
      then butlast spans
             @ [(last spans)\<lparr>file_last_ordinal := ev_ordinal ev, file_last_digest := Some (ev_digest ev)\<rparr>]
      else spans
             @ [\<lparr>span_path = RELAY_ACTIVE_SEGMENT, file_first_ordinal = ev_ordinal ev,
                 file_first_previous_digest = nonempty_digest (ev_previous_digest ev),
                 file_last_ordinal = ev_ordinal ev, file_last_digest = Some (ev_digest ev),
                 after_ordinal = ev_ordinal ev - 1\<rparr>])"

definition record_journal_append :: "relay_event \<Rightarrow> durable_relay \<Rightarrow> durable_relay" where
  "record_journal_append ev r = r\<lparr>journal_spans := record_append ev (journal_spans r)\<rparr>"

section \<open>Snapshots\<close>

definition persist_snapshot :: "relay_env \<Rightarrow> unit relay_meth" where
  "persist_snapshot env =
     rbind (rget snapshot) (\<lambda>s.
     rseq (rdisk (persist_relay_snapshot env s))
          (rmodify (\<lambda>r. r\<lparr>unpersisted_journal_bytes := 0\<rparr>)))"

definition commit_snapshot :: "relay_env \<Rightarrow> relay_snapshot \<Rightarrow> unit relay_meth" where
  "commit_snapshot env next_snapshot =
     rseq (rdisk (persist_relay_snapshot env next_snapshot))
     (rseq (rmodify (\<lambda>r. r\<lparr>snapshot := next_snapshot\<rparr>))
           (rmodify (\<lambda>r. r\<lparr>unpersisted_journal_bytes := 0\<rparr>)))"

section \<open>Sealing\<close>

definition relay_segment_byte_limit :: u64 where
  "relay_segment_byte_limit = RELAY_SEGMENT_BYTE_LIMIT"

fun position :: "('a \<Rightarrow> bool) \<Rightarrow> 'a list \<Rightarrow> nat option" where
  "position P [] = None"
| "position P (x # xs) = (if P x then Some 0 else map_option Suc (position P xs))"

text \<open>The span at an index is lent to the sealing function, which may change it.\<close>

definition seal_span :: "relay_env \<Rightarrow> nat \<Rightarrow> unit relay_meth" where
  "seal_span env i r =
     (case seal_active_relay_segment env (disk r, journal_spans r ! i) of
        (x, (d, span)) \<Rightarrow> (x, r\<lparr>disk := d, journal_spans := (journal_spans r)[i := span]\<rparr>))"

definition seal_active_segment_if_needed :: "relay_env \<Rightarrow> unit relay_meth" where
  "seal_active_segment_if_needed env =
     rbind (rget (\<lambda>r. bt_get (journal_dir (disk r)) RELAY_ACTIVE_SEGMENT)) (\<lambda>active.
       case active of
         None \<Rightarrow> rret ()
       | Some bytes \<Rightarrow>
           rseq (rdisk io_call) \<comment> \<open>the metadata of the file\<close>
           (if length bytes < relay_segment_byte_limit then rret ()
            else rbind (rget (\<lambda>r. position (\<lambda>span. span_path span = RELAY_ACTIVE_SEGMENT) (journal_spans r))) (\<lambda>index.
              case index of
                None \<Rightarrow> rfail (Bail ''active relay segment has data but no journal metadata'' [])
              | Some i \<Rightarrow> rseq (rmodify invalidate_replay_plans) (seal_span env i))))"

section \<open>Appending an event\<close>

definition ensure_serialized_budget :: "usize \<Rightarrow> usize \<Rightarrow> string \<Rightarrow> unit relay_result" where
  "ensure_serialized_budget sz budget description = ensure_byte_budget sz budget description"

definition stages_snapshot :: "relay_observation \<Rightarrow> bool" where
  "stages_snapshot obs = observation_changes_state obs"

definition new_event :: "u64 \<Rightarrow> i64 \<Rightarrow> string option \<Rightarrow> relay_observation \<Rightarrow> relay_event" where
  "new_event ordinal now command_id obs =
     \<lparr>ev_format = RELAY_EVENT_FORMAT_V2, ev_ordinal = ordinal, ev_previous_digest = [], ev_digest = [],
      ev_recorded_at_ms = now, ev_command_id = command_id, ev_observation = obs\<rparr>"

definition stage_event :: "relay_env \<Rightarrow> relay_event \<Rightarrow> relay_snapshot \<Rightarrow> relay_snapshot option relay_result" where
  "stage_event env ev s =
     (if stages_snapshot (ev_observation ev) then
        obind (apply_relay_event env ev s) (\<lambda>next_snapshot.
        obind (ensure_serialized_budget (snapshot_size env next_snapshot) RELAY_SNAPSHOT_BYTE_BUDGET ''relay snapshot'') (\<lambda>_.
        obind (ensure_serialized_budget (state_size env (snapshot_operational_state next_snapshot))
                 RELAY_STATE_BYTE_BUDGET ''relay operational state'') (\<lambda>_.
          Ok (Some next_snapshot))))
      else Ok None)"

definition append_line :: "string \<Rightarrow> unit disk_meth" where
  "append_line encoded =
     rbind (rget (file_exists RELAY_ACTIVE_SEGMENT)) (\<lambda>exists.
     rseq (open_append RELAY_ACTIVE_SEGMENT)
     (rseq (write_all RELAY_ACTIVE_SEGMENT encoded)
     (rseq io_call
           (rwhen (\<not> exists) io_call))))"

text \<open>What an append does in memory once the line is on the disk.\<close>

definition publish_event :: "relay_env \<Rightarrow> relay_event \<Rightarrow> relay_snapshot option \<Rightarrow> unit relay_meth" where
  "publish_event env ev staged =
     rseq (case staged of
             Some next_snapshot \<Rightarrow> rmodify (\<lambda>r. r\<lparr>snapshot := next_snapshot\<rparr>)
           | None \<Rightarrow>
               rbind (rget snapshot) (\<lambda>s.
               rbind (rlift (apply_relay_event env ev s)) (\<lambda>s'. rmodify (\<lambda>r. r\<lparr>snapshot := s'\<rparr>))))
     (rseq (rmodify (record_journal_append ev))
           (rmodify (push_hot_event ev)))"

definition append_relay_event :: "relay_env \<Rightarrow> string option \<Rightarrow> relay_observation \<Rightarrow> u64 relay_meth" where
  "append_relay_event env command_id observation =
     rbind (rget snapshot) (\<lambda>s.
     rbind (rlift (ok_or (checked_add_u64 (latest_ordinal s) 1) (Bail ''relay event ordinal exhausted'' []))) (\<lambda>ordinal.
     rbind (rlift (clamp_observation env observation (RELAY_EVENT_BYTE_BUDGET - RELAY_EVENT_ENVELOPE_RESERVE))) (\<lambda>obs.
     rbind (rdisk (read_clock env)) (\<lambda>now.
     rbind (rlift (relay_event_digest env (new_event ordinal now command_id obs))) (\<lambda>digest.
       let ev = (new_event ordinal now command_id obs)\<lparr>ev_digest := digest\<rparr>;
           encoded = event_json env ev
       in
       rseq (rlift (ensure_byte_budget (length encoded) RELAY_EVENT_BYTE_BUDGET ''relay event''))
       (rbind (rlift (stage_event env ev s)) (\<lambda>staged.
        rseq (seal_active_segment_if_needed env)
        (rseq (rdisk (append_line (encoded @ [CHR 0x0A])))
        (rseq (publish_event env ev staged)
        (rseq (rmodify (\<lambda>r. r\<lparr>unpersisted_journal_bytes :=
                  saturating_add_u64 (unpersisted_journal_bytes r) (length encoded + 1)\<rparr>))
        (rbind (rget unpersisted_journal_bytes) (\<lambda>lag.
         rseq (rwhen (stages_snapshot obs \<or> lag \<ge> RELAY_SNAPSHOT_LAG_BYTE_LIMIT) (persist_snapshot env))
              (rret ordinal)))))))))))))"

section \<open>Rewriting and collecting\<close>

text \<open>The locals of the rewrite: the first and last event written, and the ordinal reached.\<close>

type_synonym rewrite_locals = "relay_event option \<times> relay_event option \<times> u64"

definition rewrite_visitor ::
  "relay_env \<Rightarrow> u64 \<Rightarrow> relay_journal_span \<Rightarrow> (relay_disk \<times> rewrite_locals) visitor" where
  "rewrite_visitor env retain_after span ev encoded_len =
     rbind (rget (\<lambda>s. snd (snd (snd s)))) (\<lambda>written_through.
       if ev_ordinal ev \<le> after_ordinal span \<or> ev_ordinal ev \<le> written_through then rret False
       else if ev_ordinal ev \<le> retain_after then
         rseq (rmodify (\<lambda>(d, first, last, _). (d, first, last, ev_ordinal ev))) (rret False)
       else
         rbind (rlift (ok_or (checked_add_u64 written_through 1) (Bail ''relay event ordinal exhausted'' []))) (\<lambda>expected.
           if ev_ordinal ev \<noteq> expected then
             rfail (Bail ''relay journal rewrite has a gap: expected {expected}, found {}''
                      [ANat expected, ANat (ev_ordinal ev)])
           else
             rseq (on_fst (write_all active_replacement (event_json env ev)))
             (rseq (on_fst (write_all active_replacement [CHR 0x0A]))
             (rseq (rmodify (\<lambda>(d, first, last, _).
                       (d, if first = None then Some ev else first, Some ev, ev_ordinal ev)))
                   (rret False)))))"

definition rewritten_spans :: "u64 \<Rightarrow> relay_event option \<Rightarrow> relay_event option \<Rightarrow> relay_journal_span list" where
  "rewritten_spans retain_after first_ev last_ev =
     (case (first_ev, last_ev) of
        (Some f, Some l) \<Rightarrow>
          [\<lparr>span_path = RELAY_ACTIVE_SEGMENT, file_first_ordinal = ev_ordinal f,
            file_first_previous_digest = Some (ev_previous_digest f),
            file_last_ordinal = ev_ordinal l, file_last_digest = Some (ev_digest l),
            after_ordinal = retain_after\<rparr>]
      | _ \<Rightarrow> [])"

definition write_replacement :: "relay_env \<Rightarrow> u64 \<Rightarrow> relay_journal_span list \<Rightarrow> rewrite_locals disk_meth" where
  "write_replacement env retain_after spans =
     rseq (io_op (\<lambda>d. d\<lparr>root_present := True\<rparr>)) \<comment> \<open>create the directory\<close>
     (rseq (create_truncated active_replacement)
     (rbind (with_local (None, None, retain_after)
              (rforeach (\<lambda>span. rbind (visit_relay_journal_file env (span_path span) Strict
                                         (rewrite_visitor env retain_after span)) (\<lambda>_. rret ())) spans)) (\<lambda>(_, locals).
      rseq io_call \<comment> \<open>sync the replacement\<close>
           (rret locals))))"

definition remove_sealed_segments :: "unit disk_meth" where
  "remove_sealed_segments =
     rseq io_call \<comment> \<open>list the directory\<close>
     (rbind (rget (\<lambda>d. filter has_gz_extension (map fst (journal_dir d))))
        (rforeach remove_file))"

definition rewrite_relay_journal :: "relay_env \<Rightarrow> u64 \<Rightarrow> unit relay_meth" where
  "rewrite_relay_journal env retain_after =
     rseq (rmodify invalidate_replay_plans)
     (rbind (rget journal_spans) (\<lambda>spans.
      rbind (rdisk (write_replacement env retain_after spans)) (\<lambda>(first, last, _).
      rseq (rdisk (rename_file active_replacement RELAY_ACTIVE_SEGMENT))
      (rseq (rmodify (\<lambda>r. r\<lparr>journal_spans := rewritten_spans retain_after first last\<rparr>))
      (rseq (rdisk io_call)
      (rseq (rdisk remove_sealed_segments)
            (rdisk io_call)))))))"

definition journal_floor :: "durable_relay \<Rightarrow> u64" where
  "journal_floor r =
     (case journal_spans r of [] \<Rightarrow> latest_ordinal (snapshot r) | span # _ \<Rightarrow> after_ordinal span)"

definition garbage_collect_relay_history :: "relay_env \<Rightarrow> unit relay_meth" where
  "garbage_collect_relay_history env =
     rbind (rget (\<lambda>r. retained_through (snapshot r))) (\<lambda>through.
     rbind (rget (\<lambda>r. through > journal_floor r)) (\<lambda>rewrites_journal.
     rbind (rget unpersisted_journal_bytes) (\<lambda>lag.
     rseq (rwhen (rewrites_journal \<and> lag > 0) (persist_snapshot env))
     (rseq (rwhen rewrites_journal (rewrite_relay_journal env through))
     (rbind (rget snapshot) (\<lambda>s.
      rbind (rget unpersisted_journal_bytes) (\<lambda>lag.
      rseq (rwhen (prunable_command_ids s through \<noteq> [] \<or> lag > 0)
              (commit_snapshot env (prune_commands (prunable_command_ids s through) s)))
           (rmodify (\<lambda>r. r\<lparr>hot_events := filter (\<lambda>ev. ev_ordinal ev > through) (hot_events r)\<rparr>)))))))))"

end
