(* ===== verification/Relay_Journal.thy ===== *)
theory Relay_Journal
  imports Relay_Store
begin

text \<open>
  Opening the journal after a restart (\<open>src/src/hel_worker/journal.rs\<close>, \<open>open_relay_journal\<close>): which
  segments make up the retained history, the events past the stored snapshot that have to be
  applied again, and the checks that refuse a journal with holes or conflicts. The state file and
  the seed of a restored session are read here too (\<open>src/src/hel_worker.rs\<close>, \<open>DurableRelay::open\<close>).
\<close>

section \<open>The segments of the directory\<close>

definition segment_names :: "relay_disk \<Rightarrow> string list" where
  "segment_names d =
     filter (\<lambda>name. name = RELAY_ACTIVE_SEGMENT \<or> has_gz_extension name) (map fst (journal_dir d))"

definition segment_metadata ::
  "relay_env \<Rightarrow> string \<Rightarrow> relay_journal_span list \<Rightarrow> relay_journal_span list disk_meth" where
  "segment_metadata env name files =
     (if name = RELAY_ACTIVE_SEGMENT then
        rbind (inspect_relay_journal_file env name True) (\<lambda>metadata.
          rret (files @ (case metadata of Some m \<Rightarrow> [m] | None \<Rightarrow> [])))
      else
        rbind (rlift (sealed_relay_journal_metadata name)) (\<lambda>metadata. rret (files @ [metadata])))"

definition journal_files :: "relay_env \<Rightarrow> relay_journal_span list disk_meth" where
  "journal_files env =
     rbind (rget root_present) (\<lambda>present.
     rseq (rwhen present io_call) \<comment> \<open>list the directory\<close>
     (rbind (rget (\<lambda>d. if present then segment_names d else [])) (\<lambda>names.
        rfold (segment_metadata env) names [])))"

section \<open>Assembling the spans\<close>

definition original_frontiers :: "relay_snapshot \<Rightarrow> (string \<times> u64 \<times> string) list" where
  "original_frontiers s =
     [(''snapshot'', latest_ordinal s, latest_digest s),
      (''acknowledgement'', acknowledged_through s, acknowledged_digest s),
      (''recovery floor'', recovery_floor_ordinal s, recovery_floor_digest s)]"

definition check_retained_digest :: "u64 \<Rightarrow> string \<Rightarrow> (string \<times> u64 \<times> string) list \<Rightarrow> unit relay_result" where
  "check_retained_digest retained digest frontiers =
     (case find (\<lambda>(name, ordinal, d). ordinal = retained \<and> d \<noteq> digest) frontiers of
        Some (name, _) \<Rightarrow> Err (Bail ''relay {name} digest conflicts with retained frontier'' [AStr name])
      | None \<Rightarrow> Ok ())"

definition check_frontiers_retained :: "u64 \<Rightarrow> u64 \<Rightarrow> (string \<times> u64 \<times> string) list \<Rightarrow> unit relay_result" where
  "check_frontiers_retained retained journal_latest frontiers =
     (case find (\<lambda>(name, ordinal, d). ordinal > retained \<and> ordinal > journal_latest) frontiers of
        Some (name, ordinal, _) \<Rightarrow> Err (Bail ''relay {name} event {ordinal} is not retained'' [AStr name, ANat ordinal])
      | None \<Rightarrow> Ok ())"

definition latest_of_files :: "u64 \<Rightarrow> relay_journal_span list \<Rightarrow> u64" where
  "latest_of_files retained files =
     (if files = [] then retained else fold max (map file_last_ordinal files) 0)"

definition span_candidate :: "relay_journal_span list \<Rightarrow> u64 \<Rightarrow> relay_journal_span option" where
  "span_candidate files previous =
     max_by_key (\<lambda>file. (file_last_ordinal file, span_path file = RELAY_ACTIVE_SEGMENT))
       (filter (\<lambda>file. file_first_ordinal file \<le> previous + 1 \<and> file_last_ordinal file > previous) files)"

lemma max_by_key_mem: "max_by_key f xs = Some x \<Longrightarrow> x \<in> set xs"
  by (induction xs arbitrary: x) (auto split: option.splits if_splits)

lemma span_candidate_Some:
  "span_candidate files previous = Some c \<Longrightarrow>
     c \<in> set files \<and> file_first_ordinal c \<le> previous + 1 \<and> previous < file_last_ordinal c"
  by (auto simp: span_candidate_def dest: max_by_key_mem)

function assemble_spans ::
  "relay_journal_span list \<Rightarrow> u64 \<Rightarrow> u64 \<Rightarrow> relay_journal_span list relay_result" where
  "assemble_spans files journal_latest previous =
     (if previous < journal_latest then
        obind (ok_or (checked_add_u64 previous 1) (Bail ''relay event ordinal exhausted'' [])) (\<lambda>_.
          case span_candidate files previous of
            None \<Rightarrow> Err (Bail ''relay journal has a gap after event {}'' [ANat previous])
          | Some candidate \<Rightarrow>
              obind (assemble_spans files journal_latest (file_last_ordinal candidate)) (\<lambda>spans.
                Ok (candidate\<lparr>after_ordinal := previous\<rparr> # spans)))
      else Ok [])"
  by pat_completeness auto
termination
  by (relation "measure (\<lambda>(files, journal_latest, previous). journal_latest - previous)")
    (auto dest: span_candidate_Some)

declare assemble_spans.simps [simp del]

section \<open>Applying the tail\<close>

record tail_recovery =
  tr_ordinal :: u64
  tr_digest :: string
  tr_snapshot :: relay_snapshot
  tr_hot :: "relay_event list"
  tr_boundary_verified :: bool

definition recover_event ::
  "relay_env \<Rightarrow> relay_journal_span \<Rightarrow> u64 \<Rightarrow> relay_event \<Rightarrow> tail_recovery \<Rightarrow> tail_recovery relay_result" where
  "recover_event env span boundary ev t =
     (if ev_ordinal ev < boundary then Ok t
      else if ev_ordinal ev = boundary then
        (if ev_digest ev \<noteq> tr_digest t
         then Err (Bail ''overlapping relay journal {} conflicts at event {}'' [AStr (span_path span), ANat (ev_ordinal ev)])
         else Ok (t\<lparr>tr_boundary_verified := True\<rparr>))
      else if \<not> tr_boundary_verified t then
        Err (Bail ''overlapping relay journal {} does not contain boundary event {}'' [AStr (span_path span), ANat boundary])
      else
        obind (validate_relay_event env (tr_ordinal t) (tr_digest t) ev) (\<lambda>_.
        obind (apply_relay_event env ev (tr_snapshot t)) (\<lambda>s.
          Ok (t\<lparr>tr_snapshot := s, tr_ordinal := ev_ordinal ev, tr_digest := ev_digest ev,
                tr_hot := push_hot (tr_hot t) ev\<rparr>))))"

definition recover_visitor :: "relay_env \<Rightarrow> relay_journal_span \<Rightarrow> u64 \<Rightarrow> (relay_disk \<times> tail_recovery) visitor" where
  "recover_visitor env span boundary ev encoded_len =
     rbind (rget snd) (\<lambda>t.
     rbind (rlift (recover_event env span boundary ev t)) (\<lambda>t'.
     rseq (rmodify (\<lambda>(d, _). (d, t')))
          (rret False)))"

definition recover_span :: "relay_env \<Rightarrow> relay_journal_span \<Rightarrow> tail_recovery \<Rightarrow> tail_recovery disk_meth" where
  "recover_span env span t =
     (if file_last_ordinal span \<le> tr_ordinal t then rret t
      else
        let boundary = tr_ordinal t;
            verified = (file_first_ordinal span = saturating_add_u64 boundary 1)
        in
        rbind (with_local (t\<lparr>tr_boundary_verified := verified\<rparr>)
                 (visit_relay_journal_file env (span_path span) Strict (recover_visitor env span boundary))) (\<lambda>(_, t').
          if tr_ordinal t' \<noteq> file_last_ordinal span
          then rfail (Bail ''relay journal {} ended at event {recovered_ordinal}, expected {}''
                        [AStr (span_path span), ANat (tr_ordinal t'), ANat (file_last_ordinal span)])
          else rret t'))"

section \<open>The recent events\<close>

text \<open>The locals are the previous event and the events of the segment that count.\<close>

definition recent_visitor ::
  "relay_env \<Rightarrow> relay_journal_span \<Rightarrow> u64 \<Rightarrow> (relay_disk \<times> relay_event option \<times> relay_event list) visitor" where
  "recent_visitor env span latest ev encoded_len =
     rbind (rget (\<lambda>s. fst (snd s))) (\<lambda>previous.
     rseq (rlift (case previous of
                    Some p \<Rightarrow> validate_relay_event env (ev_ordinal p) (ev_digest p) ev
                  | None \<Rightarrow> validate_relay_event_self env ev))
     (rseq (rmodify (\<lambda>(d, _, events).
               (d, Some ev, if ev_ordinal ev > after_ordinal span \<and> ev_ordinal ev \<le> latest then events @ [ev] else events)))
           (rret False)))"

fun fill_recent :: "relay_event list \<Rightarrow> relay_event list \<Rightarrow> relay_event list" where
  "fill_recent [] recent = recent"
| "fill_recent (ev # evs) recent =
     (if length (ev # recent) = RELAY_HOT_EVENT_CAPACITY then ev # recent else fill_recent evs (ev # recent))"

fun read_recent ::
  "relay_env \<Rightarrow> u64 \<Rightarrow> relay_journal_span list \<Rightarrow> relay_event list \<Rightarrow> relay_event list disk_meth" where
  "read_recent env latest [] recent = rret recent"
| "read_recent env latest (span # spans) recent =
     rbind (with_local (None, []) (visit_relay_journal_file env (span_path span) Strict (recent_visitor env span latest)))
       (\<lambda>(_, _, segment_events).
         let recent' = fill_recent (rev segment_events) recent in
         if length recent' = RELAY_HOT_EVENT_CAPACITY then rret recent' else read_recent env latest spans recent')"

section \<open>Opening\<close>

definition check_frontier_event :: "u64 \<Rightarrow> relay_snapshot \<Rightarrow> relay_event list \<Rightarrow> unit relay_result" where
  "check_frontier_event retained s hot =
     (if latest_ordinal s > retained then
        (if hot = [] then Err (Bail ''relay journal is missing snapshot frontier event {}'' [ANat (latest_ordinal s)])
         else if ev_ordinal (last hot) \<noteq> latest_ordinal s \<or> ev_digest (last hot) \<noteq> latest_digest s
         then Err (Bail ''relay snapshot digest conflicts with journal event {}'' [ANat (latest_ordinal s)])
         else Ok ())
      else Ok ())"

definition keep_active_span ::
  "relay_journal_span list \<Rightarrow> u64 \<Rightarrow> relay_journal_span list \<Rightarrow> relay_journal_span list disk_meth" where
  "keep_active_span files previous spans =
     (case find (\<lambda>file. span_path file = RELAY_ACTIVE_SEGMENT) files of
        None \<Rightarrow> rret spans
      | Some active_file \<Rightarrow>
          if list_ex (\<lambda>span. span_path span = RELAY_ACTIVE_SEGMENT) spans then rret spans
          else if file_last_ordinal active_file = previous
          then rret (spans @ [active_file\<lparr>after_ordinal := previous\<rparr>])
          else if file_last_ordinal active_file < previous
          then rseq (archive_stale_active_relay_journal active_file) (rret spans)
          else rret spans)"

definition open_relay_journal ::
  "relay_env \<Rightarrow> u64 \<Rightarrow> string \<Rightarrow> u64 \<Rightarrow> relay_snapshot
     \<Rightarrow> (relay_journal_span list \<times> relay_event list \<times> relay_snapshot) disk_meth" where
  "open_relay_journal env retained digest snapshot_ordinal s =
     rbind (journal_files env) (\<lambda>files.
     rseq (rlift (check_retained_digest retained digest (original_frontiers s)))
     (let journal_latest = latest_of_files retained files in
      rbind (rlift (assemble_spans files journal_latest retained)) (\<lambda>spans.
      if journal_latest < snapshot_ordinal
      then rfail (Bail ''relay snapshot frontier {} is ahead of retained journal {journal_latest}''
                    [ANat snapshot_ordinal, ANat journal_latest])
      else
        rseq (rlift (check_frontiers_retained retained journal_latest (original_frontiers s)))
        (rbind (rfold (recover_span env) spans
                  \<lparr>tr_ordinal = snapshot_ordinal, tr_digest = latest_digest s, tr_snapshot = s, tr_hot = [],
                   tr_boundary_verified = False\<rparr>) (\<lambda>t.
         rbind (if length (tr_hot t) < RELAY_HOT_EVENT_CAPACITY
                then read_recent env (latest_ordinal (tr_snapshot t)) (rev spans) []
                else rret (tr_hot t)) (\<lambda>hot.
         rseq (rlift (check_frontier_event retained (tr_snapshot t) hot))
         (rbind (keep_active_span files (if spans = [] then retained else file_last_ordinal (last spans)) spans) (\<lambda>spans'.
          rret (spans', hot, tr_snapshot t)))))))))"

section \<open>The stored snapshot\<close>

definition validate_seed :: "restored_relay_seed \<Rightarrow> unit relay_result" where
  "validate_seed seed =
     obind (validate_relay_digest (event_frontier_digest seed) ''restored relay event frontier digest'') (\<lambda>_.
       if (event_frontier seed = 0) \<noteq> (event_frontier_digest seed = RELAY_EVENT_GENESIS_DIGEST)
       then Err (Bail ''restored relay event frontier and genesis digest disagree'' [])
       else Ok ())"

definition read_restored_relay_seed :: "relay_env \<Rightarrow> restored_relay_seed option disk_meth" where
  "read_restored_relay_seed env =
     rbind (rget seed_file) (\<lambda>file.
       case file of
         None \<Rightarrow> rret None
       | Some bytes \<Rightarrow>
           rseq io_call
           (rbind (rlift (ok_or (parse_seed env bytes) (Bail ''parse {}'' []))) (\<lambda>seed.
            rseq (rlift (validate_seed seed)) (rret (Some seed)))))"

fun decode_contents :: "relay_env \<Rightarrow> json list \<Rightarrow> content_block list option" where
  "decode_contents env [] = Some []"
| "decode_contents env (j # js) =
     (case parse_content env j of
        None \<Rightarrow> None
      | Some b \<Rightarrow> map_option ((#) b) (decode_contents env js))"

definition restored_payload :: "relay_env \<Rightarrow> canonical_queued_prompt \<Rightarrow> stored_queued_payload relay_result" where
  "restored_payload env queued =
     (case cq_kind queued of
        CQPrompt \<Rightarrow>
          obind (ok_or (decode_contents env (cq_content queued))
                   (Bail ''decode ACP content for restored queued command {}'' [AStr (cq_command_id queued)]))
            (\<lambda>prompt. Ok (QPrompt prompt))
      | CQSetConfig key val \<Rightarrow> Ok (QSetConfig key val))"

fun payload_command :: "stored_queued_payload \<Rightarrow> relay_command" where
  "payload_command (QPrompt prompt) = Prompt prompt"
| "payload_command (QSetConfig key val) = SetConfig key val"

definition restore_queued ::
  "relay_env \<Rightarrow> u64 \<Rightarrow> canonical_queued_prompt \<Rightarrow> relay_snapshot \<Rightarrow> relay_snapshot relay_result" where
  "restore_queued env frontier queued s =
     (let cid = cq_command_id queued in
      obind (validate_identifier cid ''restored queued command ID'') (\<lambda>_.
        if cq_content queued = [] then Err (Bail ''restored queued command {} is empty'' [AStr cid])
        else if bt_contains (handled_commands s) cid then
          Err (Bail ''restored canonical session contains duplicate queued command {}'' [AStr cid])
        else
          obind (restored_payload env queued) (\<lambda>payload.
            let command = payload_command payload in
            Ok (s\<lparr>handled_commands := bt_insert cid
                     \<lparr>h_command = command, h_accepted_ordinal = frontier, h_terminal_ordinal = None\<rparr> (handled_commands s),
                  dispatches := bt_insert cid \<lparr>d_command = command, d_state = DQueued\<rparr> (dispatches s),
                  queued_prompts := queued_prompts s
                     @ [\<lparr>q_command_id = cid, q_payload = payload, q_created_at_ms = cq_queued_at_ms queued\<rparr>]\<rparr>))))"

definition seeded_snapshot :: "relay_env \<Rightarrow> restored_relay_seed \<Rightarrow> relay_snapshot \<Rightarrow> relay_snapshot relay_result" where
  "seeded_snapshot env restored s =
     ofold (restore_queued env (event_frontier restored)) (seed_queued_prompts restored)
       (s\<lparr>latest_ordinal := event_frontier restored, latest_digest := event_frontier_digest restored,
          acknowledged_through := event_frontier restored, acknowledged_digest := event_frontier_digest restored,
          recovery_floor_ordinal := event_frontier restored, recovery_floor_digest := event_frontier_digest restored\<rparr>)"

definition check_stored_snapshot :: "string \<Rightarrow> relay_snapshot \<Rightarrow> relay_snapshot relay_result" where
  "check_stored_snapshot sid s =
     (if format_version s > RELAY_STATE_VERSION then
        Err (Bail ''relay state schema {} is newer than supported schema {RELAY_STATE_VERSION}''
               [ANat (format_version s), ANat RELAY_STATE_VERSION])
      else if session_id s \<noteq> sid then
        Err (Bail ''relay state belongs to session {}, not {session_id}'' [AStr (session_id s), AStr sid])
      else Ok (s\<lparr>format_version := RELAY_STATE_VERSION\<rparr>))"

definition load_snapshot :: "relay_env \<Rightarrow> string \<Rightarrow> relay_snapshot disk_meth" where
  "load_snapshot env sid =
     rbind (rget state_file) (\<lambda>file.
       case file of
         Some bytes \<Rightarrow>
           rseq io_call
           (rseq (rlift (ensure_byte_budget (length bytes) RELAY_SNAPSHOT_BYTE_BUDGET ''relay snapshot''))
           (rbind (rlift (ok_or (parse_snapshot env bytes) (Bail ''parse {}'' []))) (\<lambda>s.
              rlift (check_stored_snapshot sid s))))
       | None \<Rightarrow>
           rbind (read_restored_relay_seed env) (\<lambda>seed.
             rlift (case seed of
                      None \<Rightarrow> Ok (new_snapshot sid)
                    | Some restored \<Rightarrow> seeded_snapshot env restored (new_snapshot sid))))"

end
