(* ===== verification/Relay_Replay.thy ===== *)
theory Relay_Replay
  imports Relay_Journal
begin

text \<open>
  Replaying history to a controller (\<open>src/src/hel_worker.rs\<close>, \<open>RelayReplayPlan\<close>): a plan is a
  point-in-time view of the journal that is read without the relay lock. Cursor validation, the
  digest at an ordinal, and the assembly of one page of events, which reads the segments as they
  are by then.
\<close>

record relay_event_page =
  pg_events :: "relay_event list"
  pg_through_ordinal :: u64
  pg_through_digest :: string

record relay_replay_plan =
  pl_spans :: "relay_journal_span list"
  pl_hot_digests :: "(u64 \<times> string) list"
  pl_latest_ordinal :: u64
  pl_latest_digest :: string
  pl_acknowledged_through :: u64
  pl_acknowledged_digest :: string
  pl_recovery_floor_ordinal :: u64
  pl_recovery_floor_digest :: string
  pl_retained_through :: u64
  pl_retained_digest :: string
  pl_generation :: u64

definition replay_plan :: "durable_relay \<Rightarrow> relay_replay_plan" where
  "replay_plan r =
     \<lparr>pl_spans = journal_spans r,
      pl_hot_digests = map (\<lambda>ev. (ev_ordinal ev, ev_digest ev)) (hot_events r) @ replay_cursors r,
      pl_latest_ordinal = latest_ordinal (snapshot r), pl_latest_digest = latest_digest (snapshot r),
      pl_acknowledged_through = acknowledged_through (snapshot r),
      pl_acknowledged_digest = acknowledged_digest (snapshot r),
      pl_recovery_floor_ordinal = recovery_floor_ordinal (snapshot r),
      pl_recovery_floor_digest = recovery_floor_digest (snapshot r),
      pl_retained_through = retained_through (snapshot r),
      pl_retained_digest = retained_digest (snapshot r),
      pl_generation = journal_generation r\<rparr>"

section \<open>The digest at an ordinal\<close>

text \<open>The first event of a segment names the digest before it, if it is of the first format.\<close>

definition boundary_visitor :: "relay_env \<Rightarrow> (relay_disk \<times> string option) visitor" where
  "boundary_visitor env ev encoded_len =
     rseq (rlift (validate_relay_event_self env ev))
     (rseq (rwhen (ev_format ev = RELAY_EVENT_FORMAT_V1 \<and> ev_previous_digest ev \<noteq> [])
              (rmodify (\<lambda>(d, _). (d, Some (ev_previous_digest ev)))))
           (rret True))"

text \<open>The locals are the digest and the previous event.\<close>

definition digest_visitor ::
  "relay_env \<Rightarrow> string \<Rightarrow> u64 \<Rightarrow> (relay_disk \<times> string option \<times> relay_event option) visitor" where
  "digest_visitor env path ordinal ev encoded_len =
     rseq (rlift (validate_relay_event_self env ev))
     (rbind (rget (\<lambda>s. snd (snd s))) (\<lambda>previous.
      rseq (rlift (case previous of
                     Some p \<Rightarrow>
                       if ev_format ev = RELAY_EVENT_FORMAT_V1 \<and> ev_previous_digest ev \<noteq> ev_digest p
                       then Err (Bail ''relay journal {} event {} does not chain from event {}''
                                   [AStr path, ANat (ev_ordinal ev), ANat (ev_ordinal p)])
                       else Ok ()
                   | None \<Rightarrow> Ok ()))
      (if ev_ordinal ev = ordinal
       then rseq (rmodify (\<lambda>(d, _, p). (d, Some (ev_digest ev), p))) (rret True)
       else rseq (rmodify (\<lambda>(d, g, _). (d, g, Some ev))) (rret False))))"

definition digest_in_spans :: "relay_env \<Rightarrow> relay_journal_span list \<Rightarrow> u64 \<Rightarrow> string option disk_meth" where
  "digest_in_spans env spans ordinal =
     (case find (\<lambda>span. ordinal > after_ordinal span \<and> ordinal \<le> file_last_ordinal span) spans of
        None \<Rightarrow> rret None
      | Some span \<Rightarrow>
          rbind (with_local (None, None)
                   (visit_relay_journal_file env (span_path span) Strict (digest_visitor env (span_path span) ordinal)))
            (\<lambda>(_, digest, _). rret digest))"

definition digest_at :: "relay_env \<Rightarrow> relay_replay_plan \<Rightarrow> u64 \<Rightarrow> string option disk_meth" where
  "digest_at env plan ordinal =
     (if ordinal = 0 then rret (Some RELAY_EVENT_GENESIS_DIGEST)
      else if ordinal = pl_latest_ordinal plan then rret (Some (pl_latest_digest plan))
      else if ordinal = pl_acknowledged_through plan then rret (Some (pl_acknowledged_digest plan))
      else if ordinal = pl_recovery_floor_ordinal plan then rret (Some (pl_recovery_floor_digest plan))
      else case find (\<lambda>p. fst p = ordinal) (pl_hot_digests plan) of
        Some p \<Rightarrow> rret (Some (snd p))
      | None \<Rightarrow>
          (case find (\<lambda>span. checked_sub_u64 (file_first_ordinal span) 1 = Some ordinal
                           \<and> ordinal \<ge> after_ordinal span) (pl_spans plan) of
             None \<Rightarrow> digest_in_spans env (pl_spans plan) ordinal
           | Some span \<Rightarrow>
               (case file_first_previous_digest span of
                  Some digest \<Rightarrow> rret (Some digest)
                | None \<Rightarrow>
                    rbind (with_local None
                             (visit_relay_journal_file env (span_path span) Strict (boundary_visitor env)))
                      (\<lambda>(_, digest).
                        if digest \<noteq> None then rret digest else digest_in_spans env (pl_spans plan) ordinal))))"

definition validate_cursor :: "relay_env \<Rightarrow> relay_replay_plan \<Rightarrow> u64 \<Rightarrow> string \<Rightarrow> unit disk_meth" where
  "validate_cursor env plan after_ord after_digest =
     (if after_ord < pl_retained_through plan then
        rfail (Bail ''event {after_ordinal} is no longer available; relay retained events after {}''
                 [ANat after_ord, ANat (pl_retained_through plan)])
      else if after_ord > pl_latest_ordinal plan then
        rfail (Bail ''event {after_ordinal} is newer than relay frontier {}''
                 [ANat after_ord, ANat (pl_latest_ordinal plan)])
      else
        rseq (rlift (validate_relay_digest after_digest ''event cursor digest''))
        (rbind (digest_at env plan after_ord) (\<lambda>digest.
           case digest of
             None \<Rightarrow> rfail (Bail ''relay digest missing at event {after_ordinal}'' [ANat after_ord])
           | Some expected \<Rightarrow>
               if after_digest \<noteq> expected
               then rfail (Bail ''event {after_ordinal} digest does not match the relay event chain'' [ANat after_ord])
               else rret ())))"

section \<open>One page\<close>

record page_locals =
  pq_events :: "relay_event list"
  pq_used :: usize
  pq_through_ordinal :: u64
  pq_through_digest :: string
  pq_full :: bool

text \<open>What the visitor does with one event: skip it, stop, fail, or add it to the page.\<close>

definition page_event ::
  "relay_env \<Rightarrow> relay_replay_plan \<Rightarrow> usize \<Rightarrow> relay_journal_span \<Rightarrow> relay_event \<Rightarrow> usize \<Rightarrow> page_locals
     \<Rightarrow> (bool \<times> page_locals) relay_result" where
  "page_event env plan byte_budget span ev encoded_len p =
     (if ev_ordinal ev \<le> after_ordinal span \<or> ev_ordinal ev \<le> pq_through_ordinal p then Ok (False, p)
      else if ev_ordinal ev > pl_latest_ordinal plan then Ok (True, p)
      else
        obind (ok_or (checked_add_u64 (pq_through_ordinal p) 1) (Bail ''relay event ordinal exhausted'' [])) (\<lambda>expected.
          if ev_ordinal ev \<noteq> expected then
            Err (Bail ''relay journal page has a gap after event {through_ordinal}: found {}''
                   [ANat (pq_through_ordinal p), ANat (ev_ordinal ev)])
          else if ev_format ev = RELAY_EVENT_FORMAT_V1 \<and> ev_previous_digest ev \<noteq> pq_through_digest p then
            Err (Bail ''relay journal event {} does not chain from event {through_ordinal}''
                   [ANat (ev_ordinal ev), ANat (pq_through_ordinal p)])
          else
            obind (validate_relay_event env (pq_through_ordinal p) (pq_through_digest p) ev) (\<lambda>_.
              if pq_events p \<noteq> [] \<and> saturating_add_u64 (pq_used p) encoded_len > byte_budget
              then Ok (True, p\<lparr>pq_full := True\<rparr>)
              else Ok (False, p\<lparr>pq_used := saturating_add_u64 (pq_used p) encoded_len,
                               pq_through_ordinal := ev_ordinal ev, pq_through_digest := ev_digest ev,
                               pq_events := pq_events p @ [ev]\<rparr>))))"

definition page_visitor ::
  "relay_env \<Rightarrow> relay_replay_plan \<Rightarrow> usize \<Rightarrow> relay_journal_span \<Rightarrow> (relay_disk \<times> page_locals) visitor" where
  "page_visitor env plan byte_budget span ev encoded_len =
     rbind (rget snd) (\<lambda>p.
     rbind (rlift (page_event env plan byte_budget span ev encoded_len p)) (\<lambda>(stop, p').
     rseq (rmodify (\<lambda>(d, _). (d, p')))
          (rret stop)))"

text \<open>An error while reading a span is marked if newer history lies behind the span.\<close>

definition mark_unreadable :: "u64 \<Rightarrow> u64 \<Rightarrow> ('s, relay_err, 'a) meth \<Rightarrow> ('s, relay_err, 'a) meth" where
  "mark_unreadable span_last latest m s =
     (case m s of
        (Err e, s') \<Rightarrow> (Err (if span_last < latest then UnreadableSpan span_last e else e), s')
      | other \<Rightarrow> other)"

definition page_span ::
  "relay_env \<Rightarrow> relay_replay_plan \<Rightarrow> usize \<Rightarrow> relay_journal_span \<Rightarrow> page_locals \<Rightarrow> page_locals disk_meth" where
  "page_span env plan byte_budget span p =
     (if pq_full p \<or> file_last_ordinal span \<le> pq_through_ordinal p then rret p
      else
        rbind (mark_unreadable (file_last_ordinal span) (pl_latest_ordinal plan)
                 (with_local p (visit_relay_journal_file env (span_path span) Strict (page_visitor env plan byte_budget span))))
          (\<lambda>(_, p').
            if \<not> pq_full p' \<and> pq_through_ordinal p' < min (file_last_ordinal span) (pl_latest_ordinal plan)
            then rfail (Bail ''relay journal {} no longer covers event {}''
                          [AStr (span_path span), ANat (file_last_ordinal span)])
            else rret p'))"

definition read_events_after ::
  "relay_env \<Rightarrow> relay_replay_plan \<Rightarrow> u64 \<Rightarrow> string \<Rightarrow> usize \<Rightarrow> relay_event_page disk_meth" where
  "read_events_after env plan after_ord after_digest byte_budget =
     rbind (rfold (page_span env plan byte_budget) (pl_spans plan)
              \<lparr>pq_events = [], pq_used = 0, pq_through_ordinal = after_ord, pq_through_digest = after_digest,
               pq_full = False\<rparr>) (\<lambda>p.
       if \<not> pq_full p \<and> (pq_through_ordinal p \<noteq> pl_latest_ordinal plan \<or> pq_through_digest p \<noteq> pl_latest_digest plan)
       then rfail (Bail ''relay journal ended at event {through_ordinal}, expected frontier {}''
                     [ANat (pq_through_ordinal p), ANat (pl_latest_ordinal plan)])
       else rret \<lparr>pg_events = pq_events p, pg_through_ordinal = pq_through_ordinal p,
                  pg_through_digest = pq_through_digest p\<rparr>)"

definition usize_max :: usize where
  "usize_max = u64_max"

definition events_after :: "relay_env \<Rightarrow> u64 \<Rightarrow> string \<Rightarrow> relay_event list relay_meth" where
  "events_after env after_ord after_digest =
     rbind (rget replay_plan) (\<lambda>plan.
     rseq (rdisk (validate_cursor env plan after_ord after_digest))
     (rbind (rdisk (read_events_after env plan after_ord after_digest usize_max)) (\<lambda>page.
      rret (pg_events page))))"

section \<open>Attaching\<close>

definition desynchronized_detail :: "relay_replay_plan \<Rightarrow> u64 \<Rightarrow> string \<Rightarrow> desynchronized_cursor" where
  "desynchronized_detail plan after_ord after_digest =
     \<lparr>requested_after = after_ord, requested_digest = after_digest,
      earliest_available = pl_retained_through plan, earliest_digest = pl_retained_digest plan,
      dc_latest = pl_latest_ordinal plan, dc_latest_digest = pl_latest_digest plan\<rparr>"

definition cursor_visitor :: "relay_env \<Rightarrow> u64 \<Rightarrow> (relay_disk \<times> (u64 \<times> string) option) visitor" where
  "cursor_visitor env corrupt_last ev encoded_len =
     (if ev_ordinal ev > corrupt_last \<and> \<not> fails_self_validation env ev
      then rseq (rmodify (\<lambda>(d, _). (d, Some (ev_ordinal ev, ev_digest ev)))) (rret True)
      else rret False)"

text \<open>The result of the scan is dropped (\<open>let _ =\<close>), an error too; what it found counts.\<close>

fun recovery_cursor_after ::
  "relay_env \<Rightarrow> relay_replay_plan \<Rightarrow> u64 \<Rightarrow> relay_journal_span list \<Rightarrow> relay_disk \<Rightarrow> (u64 \<times> string) \<times> relay_disk" where
  "recovery_cursor_after env plan corrupt_last [] d = ((pl_latest_ordinal plan, pl_latest_digest plan), d)"
| "recovery_cursor_after env plan corrupt_last (span # spans) d =
     (if file_last_ordinal span \<le> corrupt_last then recovery_cursor_after env plan corrupt_last spans d
      else
        case visit_relay_journal_file env (span_path span) Recover (cursor_visitor env corrupt_last) (d, None) of
          (_, d', Some cursor) \<Rightarrow> (cursor, d')
        | (_, d', None) \<Rightarrow> recovery_cursor_after env plan corrupt_last spans d')"

text \<open>\<open>match\<close> on the result of a method.\<close>

definition rtry :: "('s, 'e, 'a) meth \<Rightarrow> ('a \<Rightarrow> ('s, 'f, 'b) meth) \<Rightarrow> ('e \<Rightarrow> ('s, 'f, 'b) meth) \<Rightarrow> ('s, 'f, 'b) meth" where
  "rtry m f g s = (case m s of (Ok x, s') \<Rightarrow> f x s' | (Err e, s') \<Rightarrow> g e s' | (Diverges, s') \<Rightarrow> (Diverges, s'))"

type_synonym reply = "relay_protocol_error + relay_response_payload"

definition plan_attach ::
  "relay_env \<Rightarrow> relay_replay_plan \<Rightarrow> u64 \<Rightarrow> string \<Rightarrow> relay_operational_state \<Rightarrow> reply disk_meth" where
  "plan_attach env plan after_ord after_digest state =
     rtry (validate_cursor env plan after_ord after_digest)
       (\<lambda>_.
         rtry (read_events_after env plan after_ord after_digest RELAY_REPLAY_BYTE_BUDGET)
           (\<lambda>page.
             rseq (rlift (ensure_serialized_budget (state_size env state) RELAY_STATE_BYTE_BUDGET ''relay operational state''))
               (rret (Inr (PAttached state (pg_events page) (pg_through_ordinal page) (pg_through_digest page)))))
           (\<lambda>e.
             case e of
               UnreadableSpan recover_after _ \<Rightarrow>
                 (\<lambda>d. case recovery_cursor_after env plan recover_after (pl_spans plan) d of
                    ((earliest, digest), d') \<Rightarrow>
                      (Ok (Inl (relay_protocol_error Desynchronized e False
                         (Some ((desynchronized_detail plan after_ord after_digest)
                                  \<lparr>earliest_available := earliest, earliest_digest := digest\<rparr>)))), d'))
             | _ \<Rightarrow> rfail e))
       (\<lambda>e. rret (Inl (relay_protocol_error Desynchronized e False (Some (desynchronized_detail plan after_ord after_digest)))))"

definition attach :: "relay_env \<Rightarrow> u64 \<Rightarrow> string \<Rightarrow> reply relay_meth" where
  "attach env after_ord after_digest =
     rbind (rget operational_state) (\<lambda>state.
     rbind (rget replay_plan) (\<lambda>plan.
       rdisk (plan_attach env plan after_ord after_digest state)))"

text \<open>A proven cursor is remembered at the back of a bounded queue, once.\<close>

definition remember_cursor :: "u64 \<times> string \<Rightarrow> (u64 \<times> string) list \<Rightarrow> (u64 \<times> string) list" where
  "remember_cursor cursor cursors =
     (if cursors \<noteq> [] \<and> last cursors = cursor then cursors
      else
        let kept = filter (\<lambda>c. fst c \<noteq> fst cursor) cursors in
        (if length kept = RELAY_REPLAY_CURSOR_CAPACITY then tl kept else kept) @ [cursor])"

definition remember_replay_cursor :: "relay_response_envelope \<Rightarrow> durable_relay \<Rightarrow> durable_relay" where
  "remember_replay_cursor response r =
     (case rs_body response of
        BodyOk (PAttached _ _ through_ordinal through_digest) \<Rightarrow>
          r\<lparr>replay_cursors := remember_cursor (through_ordinal, through_digest) (replay_cursors r)\<rparr>
      | _ \<Rightarrow> r)"

section \<open>Attaching without the lock\<close>

record deferred_relay_attach =
  da_request_id :: string
  da_protocol_version :: u32
  da_plan :: relay_replay_plan
  da_state :: relay_operational_state
  da_after_ordinal :: u64
  da_after_digest :: string

text \<open>The disk is the one at the time of the reading, after whatever the relay did meanwhile.\<close>

definition finish_attach :: "relay_env \<Rightarrow> deferred_relay_attach \<Rightarrow> (relay_disk, unit, relay_response_envelope) meth" where
  "finish_attach env a =
     rtry (plan_attach env (da_plan a) (da_after_ordinal a) (da_after_digest a) (da_state a))
       (\<lambda>reply. rret \<lparr>rs_request_id = da_request_id a, rs_protocol_version = da_protocol_version a,
                     rs_body = (case reply of Inr payload \<Rightarrow> BodyOk payload | Inl e \<Rightarrow> BodyError e)\<rparr>)
       (\<lambda>e. rret \<lparr>rs_request_id = da_request_id a, rs_protocol_version = da_protocol_version a,
                 rs_body = relay_error Internal e True None\<rparr>)"

definition stale_journal_response :: "string \<Rightarrow> u32 \<Rightarrow> relay_response_envelope" where
  "stale_journal_response request_id protocol_version =
     \<lparr>rs_request_id = request_id, rs_protocol_version = protocol_version,
      rs_body = relay_error Internal
        (Bail ''relay journal was resealed or collected while the replay page was being read; attach again'' [])
        True None\<rparr>"

end
