(* ===== verification/Hel_Diff.thy ===== *)
theory Hel_Diff
  imports Relay_Types
begin

text \<open>
  Storing an edit as a patch (\<open>src/src/hel_diff.rs\<close>). The line diff and the rendering of hunks
  (crate \<open>similar\<close>) and the JSON form of a patch (crate \<open>serde_json\<close>) are parameters; the deadline of
  the diff only affects which valid diff \<open>similar\<close> returns.
\<close>

definition DIFF_PATCH_META_KEY :: string where
  "DIFF_PATCH_META_KEY = ''dev.mj.diffPatch''"

definition DIFF_PATCH_BYTES :: usize where
  "DIFF_PATCH_BYTES = 128 * 1024"

record diff_patch =
  patch_text :: string
  insertions :: usize
  deletions :: usize
  created :: bool
  truncated :: bool

datatype change_tag = ChInsert | ChDelete | ChEqual

text \<open>The changes of a line diff, and its hunks as text.\<close>

record diff_env =
  line_changes :: "string \<Rightarrow> string \<Rightarrow> change_tag list"
  diff_hunks :: "string \<Rightarrow> string \<Rightarrow> string list"
  patch_value :: "diff_patch \<Rightarrow> json"
  parse_patch :: "json \<Rightarrow> diff_patch option"

section \<open>Building a patch\<close>

fun trim_start_slashes :: "string \<Rightarrow> string" where
  "trim_start_slashes [] = []"
| "trim_start_slashes (c # cs) = (if c = CHR ''/'' then trim_start_slashes cs else c # cs)"

definition count_changes :: "change_tag list \<Rightarrow> usize \<times> usize" where
  "count_changes changes =
     fold (\<lambda>tag (ins, del). case tag of ChInsert \<Rightarrow> (ins + 1, del) | ChDelete \<Rightarrow> (ins, del + 1) | ChEqual \<Rightarrow> (ins, del))
       changes (0, 0)"

fun assemble_hunks :: "string list \<Rightarrow> string \<Rightarrow> string \<times> bool" where
  "assemble_hunks [] acc = (acc, False)"
| "assemble_hunks (hunk # hunks) acc =
     (if length acc + length hunk > DIFF_PATCH_BYTES then (acc, True) else assemble_hunks hunks (acc @ hunk))"

definition dropped_hunks_notice :: string where
  "dropped_hunks_notice = ''[mj dropped the remaining hunks]'' @ [CHR 0x0A]"

definition patch_header :: "string \<Rightarrow> bool \<Rightarrow> string" where
  "patch_header path is_created =
     (let relative = trim_start_slashes path;
          old_header = (if is_created then ''/dev/null'' else ''a/'' @ relative)
      in ''--- '' @ old_header @ [CHR 0x0A] @ ''+++ b/'' @ relative @ [CHR 0x0A])"

definition build_patch :: "diff_env \<Rightarrow> string \<Rightarrow> string option \<Rightarrow> string \<Rightarrow> diff_patch" where
  "build_patch env path old new =
     (let old_content = (case old of Some t \<Rightarrow> t | None \<Rightarrow> []);
          (ins, del) = count_changes (line_changes env old_content new);
          (body, cut) = assemble_hunks (diff_hunks env old_content new) (patch_header path (old = None))
      in \<lparr>patch_text = (if cut then body @ dropped_hunks_notice else body), insertions = ins, deletions = del,
          created = (old = None), truncated = cut\<rparr>)"

section \<open>Compacting\<close>

definition put_patch :: "diff_env \<Rightarrow> diff_patch \<Rightarrow> acp_diff \<Rightarrow> acp_diff" where
  "put_patch env patch diff =
     diff\<lparr>diff_meta := Some (bt_insert DIFF_PATCH_META_KEY (patch_value env patch)
            (case diff_meta diff of Some m \<Rightarrow> m | None \<Rightarrow> []))\<rparr>"

definition compact_diff :: "diff_env \<Rightarrow> acp_diff \<Rightarrow> bool \<times> acp_diff" where
  "compact_diff env diff =
     (if old_text diff = None \<and> new_text diff = [] then (False, diff)
      else (True, (put_patch env (build_patch env (diff_path diff) (old_text diff) (new_text diff)) diff)
                    \<lparr>old_text := None, new_text := []\<rparr>))"

definition compact_item :: "diff_env \<Rightarrow> tool_call_content \<Rightarrow> bool \<times> tool_call_content" where
  "compact_item env item =
     (case item of
        TCDiff diff \<Rightarrow> (case compact_diff env diff of (changed, diff') \<Rightarrow> (changed, TCDiff diff'))
      | TCOther j \<Rightarrow> (False, TCOther j))"

definition compact_tool_call_content :: "diff_env \<Rightarrow> tool_call_content list \<Rightarrow> bool \<times> tool_call_content list" where
  "compact_tool_call_content env content =
     (list_ex (\<lambda>item. fst (compact_item env item)) content, map (\<lambda>item. snd (compact_item env item)) content)"

definition stored_patch :: "diff_env \<Rightarrow> acp_diff \<Rightarrow> diff_patch option" where
  "stored_patch env diff =
     Option.bind (Option.bind (diff_meta diff) (\<lambda>m. bt_get m DIFF_PATCH_META_KEY)) (parse_patch env)"

definition patch_of :: "diff_env \<Rightarrow> acp_diff \<Rightarrow> diff_patch" where
  "patch_of env diff =
     (case stored_patch env diff of
        Some patch \<Rightarrow> patch
      | None \<Rightarrow> build_patch env (diff_path diff) (old_text diff) (new_text diff))"

definition drop_patch_text :: "diff_env \<Rightarrow> acp_diff \<Rightarrow> bool \<times> acp_diff" where
  "drop_patch_text env diff =
     (case compact_diff env diff of
        (changed, diff') \<Rightarrow>
          (case stored_patch env diff' of
             None \<Rightarrow> (changed, diff')
           | Some patch \<Rightarrow>
               if patch_text patch = [] \<and> truncated patch then (changed, diff')
               else (True, put_patch env (patch\<lparr>patch_text := [], truncated := True\<rparr>) diff')))"

section \<open>Lemmas\<close>

definition diff_env_ok :: "diff_env \<Rightarrow> bool" where
  "diff_env_ok env \<longleftrightarrow> (\<forall>p. parse_patch env (patch_value env p) = Some p)"

lemma stored_put [simp]: "diff_env_ok env \<Longrightarrow> stored_patch env (put_patch env p diff) = Some p"
  by (simp add: stored_patch_def put_patch_def diff_env_ok_def)

lemma stored_clear [simp]: "stored_patch env (diff\<lparr>old_text := a, new_text := b\<rparr>) = stored_patch env diff"
  by (simp add: stored_patch_def)

lemma put_patch_texts [simp]:
  "old_text (put_patch env p diff) = old_text diff" "new_text (put_patch env p diff) = new_text diff"
  by (simp_all add: put_patch_def)

lemma compact_diff_texts: "old_text (snd (compact_diff env diff)) = None" "new_text (snd (compact_diff env diff)) = []"
  by (simp_all add: compact_diff_def)

lemma compact_compact: "compact_diff env (snd (compact_diff env diff)) = (False, snd (compact_diff env diff))"
  by (subst compact_diff_def) (simp add: compact_diff_texts)

lemma assemble_hunks_bound:
  "length acc \<le> max DIFF_PATCH_BYTES n \<Longrightarrow> length (fst (assemble_hunks hunks acc)) \<le> max DIFF_PATCH_BYTES n"
  by (induction hunks acc rule: assemble_hunks.induct) auto

text \<open>The text is the header and a prefix of the hunks: all of them, or those before the first that does not fit.\<close>

lemma assemble_hunks_prefix:
  "\<exists>k. fst (assemble_hunks hunks acc) = acc @ concat (take k hunks)
     \<and> (snd (assemble_hunks hunks acc) \<longleftrightarrow> k < length hunks) \<and> k \<le> length hunks"
proof (induction hunks acc rule: assemble_hunks.induct)
  case (1 acc)
  show ?case by simp
next
  case (2 hunk hunks acc)
  show ?case
  proof (cases "length acc + length hunk > DIFF_PATCH_BYTES")
    case True
    then show ?thesis by (intro exI [of _ 0]) simp
  next
    case False
    with 2 obtain k where "fst (assemble_hunks hunks (acc @ hunk)) = (acc @ hunk) @ concat (take k hunks)"
      "snd (assemble_hunks hunks (acc @ hunk)) \<longleftrightarrow> k < length hunks" "k \<le> length hunks" by auto
    with False show ?thesis by (intro exI [of _ "Suc k"]) simp
  qed
qed

section \<open>Properties\<close>

text \<open>
  C22: compaction loses nothing a reader asks for. After a tool call's content is compacted, no
  diff holds a file copy any more, the patch a reader gets for each diff that held one is the one
  it would have computed from the two copies, and compacting again changes nothing.
\<close>

theorem compaction_keeps_patches:
  assumes "diff_env_ok env" "(compacted, content') = compact_tool_call_content env content"
  shows "length content' = length content
    \<and> (\<forall>i < length content. \<forall>diff. content ! i = TCDiff diff \<longrightarrow>
         (\<exists>diff'. content' ! i = TCDiff diff' \<and> old_text diff' = None \<and> new_text diff' = []
            \<and> (if old_text diff = None \<and> new_text diff = [] then diff' = diff
               else patch_of env diff' = build_patch env (diff_path diff) (old_text diff) (new_text diff))))
    \<and> compact_tool_call_content env content' = (False, content')"
proof -
  have again: "compact_item env (snd (compact_item env item)) = (False, snd (compact_item env item))" for item
    by (cases item) (simp_all add: compact_item_def compact_compact case_prod_beta)
  show ?thesis
    using assms again
    by (auto simp: compact_tool_call_content_def compact_item_def compact_diff_def patch_of_def comp_def list_ex_iff)
qed

definition example_diff_env :: diff_env where
  "example_diff_env =
     \<lparr>line_changes = (\<lambda>old new. if old = new then [ChEqual] else [ChDelete, ChInsert]),
      diff_hunks = (\<lambda>old new. [''-'' @ old, ''+'' @ new]),
      patch_value = (\<lambda>p. JArray [JString (patch_text p), JNumber (replicate (insertions p) (CHR ''1'')),
        JNumber (replicate (deletions p) (CHR ''1'')), JBool (created p), JBool (truncated p)]),
      parse_patch = (\<lambda>v. case v of
          JArray [JString t, JNumber i, JNumber d, JBool c, JBool tr] \<Rightarrow>
            Some \<lparr>patch_text = t, insertions = length i, deletions = length d, created = c, truncated = tr\<rparr>
        | _ \<Rightarrow> None)\<rparr>"

lemma example_diff_env_ok [simp]: "diff_env_ok example_diff_env"
  by (simp add: diff_env_ok_def example_diff_env_def)

definition example_diff :: acp_diff where
  "example_diff = \<lparr>diff_path = ''/a'', old_text = Some ''x'', new_text = ''y'', diff_meta = None\<rparr>"

theorem compaction_keeps_patches_witness:
  "patch_text (patch_of example_diff_env (snd (compact_diff example_diff_env example_diff)))
     = ''--- a/a'' @ [CHR 0x0A] @ ''+++ b/a'' @ [CHR 0x0A] @ ''-x+y''
   \<and> insertions (patch_of example_diff_env (snd (compact_diff example_diff_env example_diff))) = 1"
proof -
  obtain c items where run: "(c, items) = compact_tool_call_content example_diff_env [TCDiff example_diff]"
    by (metis surj_pair)
  from compaction_keeps_patches [OF example_diff_env_ok this] obtain diff' where
    diff': "items ! 0 = TCDiff diff'"
    "patch_of example_diff_env diff' = build_patch example_diff_env ''/a'' (Some ''x'') ''y''"
    by (auto simp: example_diff_def)
  moreover from run have "items ! 0 = TCDiff (snd (compact_diff example_diff_env example_diff))"
    by (simp add: compact_tool_call_content_def compact_item_def split: prod.splits)
  ultimately show ?thesis
    by (simp add: build_patch_def example_diff_env_def count_changes_def patch_header_def DIFF_PATCH_BYTES_def)
qed

text \<open>
  C23: dropping the text of an edit keeps its diffstat. Whatever form the diff was stored in, the
  counts a reader gets after the text is dropped are the ones it got before, and a second pass
  changes nothing.
\<close>

theorem drop_patch_text_keeps_counts:
  assumes "diff_env_ok env" "stored_patch env diff \<noteq> None \<longrightarrow> old_text diff = None \<and> new_text diff = []"
    and "old_text diff \<noteq> None \<or> new_text diff \<noteq> [] \<or> stored_patch env diff \<noteq> None"
    and "drop_patch_text env diff = (changed, diff')"
  shows "insertions (patch_of env diff') = insertions (patch_of env diff)
    \<and> deletions (patch_of env diff') = deletions (patch_of env diff)
    \<and> created (patch_of env diff') = created (patch_of env diff)
    \<and> patch_text (patch_of env diff') = [] \<and> drop_patch_text env diff' = (False, diff')"
proof -
  obtain p where p: "patch_of env diff = p" "stored_patch env (snd (compact_diff env diff)) = Some p"
    using assms(1-3) by (cases "stored_patch env diff") (auto simp: compact_diff_def patch_of_def)
  from compact_diff_texts [of env diff] have texts: "old_text diff' = None \<and> new_text diff' = []"
    using assms(4) by (auto simp: drop_patch_text_def split: prod.splits option.splits if_splits)
  have stored: "stored_patch env diff' = Some (p\<lparr>patch_text := [], truncated := True\<rparr>)"
    using assms(1,4) p(2) by (auto simp: drop_patch_text_def split: prod.splits if_splits)
  then show ?thesis using p(1) texts
    by (simp add: patch_of_def drop_patch_text_def compact_diff_def)
qed

theorem drop_patch_text_keeps_counts_witness:
  "insertions (patch_of example_diff_env (snd (drop_patch_text example_diff_env example_diff))) = 1
   \<and> patch_text (patch_of example_diff_env (snd (drop_patch_text example_diff_env example_diff))) = []"
proof -
  obtain c d where "drop_patch_text example_diff_env example_diff = (c, d)" by fastforce
  from drop_patch_text_keeps_counts [OF example_diff_env_ok _ _ this] this show ?thesis
    by (simp add: example_diff_def stored_patch_def patch_of_def build_patch_def example_diff_env_def
          count_changes_def patch_header_def DIFF_PATCH_BYTES_def)
qed

text \<open>
  C24: how long a patch can be. The text of a patch stays within the budget plus the notice that
  hunks were dropped, unless the header alone is longer; it always ends at the end of a hunk; and
  it is marked as truncated exactly if a hunk is missing.
\<close>

theorem build_patch_bounds:
  "length (patch_text (build_patch env path old new))
     \<le> max DIFF_PATCH_BYTES (length (patch_header path (old = None))) + length dropped_hunks_notice
   \<and> (\<exists>k. patch_text (build_patch env path old new)
            = patch_header path (old = None) @ concat (take k (diff_hunks env (case old of Some t \<Rightarrow> t | None \<Rightarrow> []) new))
              @ (if truncated (build_patch env path old new) then dropped_hunks_notice else [])
          \<and> (truncated (build_patch env path old new)
               \<longleftrightarrow> k < length (diff_hunks env (case old of Some t \<Rightarrow> t | None \<Rightarrow> []) new)))"
proof -
  let ?hunks = "diff_hunks env (case old of Some t \<Rightarrow> t | None \<Rightarrow> []) new"
  let ?r = "assemble_hunks ?hunks (patch_header path (old = None))"
  have build: "patch_text (build_patch env path old new) = (if snd ?r then fst ?r @ dropped_hunks_notice else fst ?r)"
    "truncated (build_patch env path old new) = snd ?r"
    by (simp_all add: build_patch_def Let_def split: prod.splits)
  show ?thesis
    using assemble_hunks_bound [of "patch_header path (old = None)" "length (patch_header path (old = None))" ?hunks]
      assemble_hunks_prefix [of ?hunks "patch_header path (old = None)"]
    unfolding build by auto
qed

end
