(* ===== verification/Relay_Commands.thy ===== *)
theory Relay_Commands
  imports Relay_Replay Hel_Diff
begin

text \<open>
  The methods of \<open>DurableRelay\<close> that change the session (\<open>src/src/hel_worker.rs\<close>): accepting,
  promoting, starting, claiming and finishing commands, recording what the agent does,
  acknowledging, recovering after a restart, and answering a request. Each one is translated
  statement by statement, with the appends and commits of \<open>Relay_Store\<close> as its effects.
\<close>

section \<open>Promotion and starts\<close>

definition append_started :: "relay_env \<Rightarrow> string \<Rightarrow> u64 relay_meth" where
  "append_started env cid =
     rbind (rdisk (read_clock env)) (\<lambda>now. append_relay_event env (Some cid) (CommandStarted cid now))"

definition promote_next_queued_command :: "relay_env \<Rightarrow> u64 option relay_meth" where
  "promote_next_queued_command env =
     rbind (rget (\<lambda>r. promotable (snapshot r))) (\<lambda>next.
       case next of
         None \<Rightarrow> rret None
       | Some queued \<Rightarrow> rbind (append_started env (q_command_id queued)) (\<lambda>ordinal. rret (Some ordinal)))"

definition start_queued_controls :: "relay_env \<Rightarrow> string list \<Rightarrow> unit relay_meth" where
  "start_queued_controls env cids =
     rforeach (\<lambda>cid. rbind (append_started env cid) (\<lambda>_. rret ())) cids"

section \<open>Relay-local commands\<close>

definition removed_command_ids :: "relay_snapshot \<Rightarrow> relay_command \<Rightarrow> string list" where
  "removed_command_ids s cmd =
     (case cmd of
        RemoveQueuedPrompt queued \<Rightarrow>
          if list_ex (\<lambda>q. q_command_id q = queued) (queued_prompts s) then [queued] else []
      | ClearQueuedPrompts \<Rightarrow> map q_command_id (queued_prompts s)
      | _ \<Rightarrow> [])"

definition local_outcome :: "relay_snapshot \<Rightarrow> relay_command \<Rightarrow> relay_command_outcome" where
  "local_outcome s cmd =
     (case cmd of
        CompleteCheckpoint _ \<Rightarrow> OCheckpointCompleted
      | ReleaseCheckpoint _ \<Rightarrow> OCheckpointReleased
      | AdvanceRecoveryFloor _ \<Rightarrow> ORecoveryFloorAdvanced
      | RecordNotice _ \<Rightarrow> ONoticeRecorded
      | _ \<Rightarrow> OQueueChanged (removed_command_ids s cmd))"

definition append_notice :: "relay_env \<Rightarrow> string \<Rightarrow> relay_command \<Rightarrow> unit relay_meth" where
  "append_notice env cid cmd =
     (case cmd of
        RecordNotice message \<Rightarrow> rbind (append_relay_event env (Some cid) (Notice message)) (\<lambda>_. rret ())
      | _ \<Rightarrow> rret ())"

definition finish_relay_local_command :: "relay_env \<Rightarrow> string \<Rightarrow> unit relay_meth" where
  "finish_relay_local_command env cid =
     rbind (rget (\<lambda>r. bt_get (dispatches (snapshot r)) cid)) (\<lambda>dispatch.
       case dispatch of
         None \<Rightarrow> rfail (Bail ''unknown relay-local command {command_id}'' [AStr cid])
       | Some d \<Rightarrow>
           if \<not> is_relay_local (d_command d) then rfail (Bail ''command {command_id} is not relay-local'' [AStr cid])
           else if is_terminal (d_state d) then
             rwhen (d_state d = DCompleted \<and> releases_history (d_command d)) (garbage_collect_relay_history env)
           else
             rseq (append_notice env cid (d_command d))
             (rseq (if d_state d = DQueued then rbind (append_started env cid) (\<lambda>_. rret ()) else rret ())
             (rbind (rget (\<lambda>r. local_outcome (snapshot r) (d_command d))) (\<lambda>outcome.
              rbind (append_relay_event env (Some cid) (CommandCompleted cid outcome)) (\<lambda>_.
              rwhen (releases_history (d_command d)) (garbage_collect_relay_history env))))))"

section \<open>Submitting a command\<close>

definition recovery_floor_rejection :: "relay_env \<Rightarrow> relay_cursor \<Rightarrow> relay_err option relay_meth" where
  "recovery_floor_rejection env through =
     rbind (rget snapshot) (\<lambda>s.
       if cur_ordinal through > latest_ordinal s then
         rret (Some (Bail ''recovery floor {} is ahead of the relay frontier {}''
                       [ANat (cur_ordinal through), ANat (latest_ordinal s)]))
       else if cur_ordinal through < recovery_floor_ordinal s then
         rret (Some (Bail ''recovery floor {} is behind the current floor {}''
                       [ANat (cur_ordinal through), ANat (recovery_floor_ordinal s)]))
       else if validate_relay_digest (cur_digest through) ''recovery floor digest'' \<noteq> Ok () then
         rret (Some (Bail ''recovery floor digest is malformed'' []))
       else
         rbind (rget replay_plan) (\<lambda>plan.
         rbind (rdisk (digest_at env plan (cur_ordinal through))) (\<lambda>digest.
           case digest of
             None \<Rightarrow> rret (Some (Bail ''relay digest is unavailable at event {}'' [ANat (cur_ordinal through)]))
           | Some expected \<Rightarrow>
               if cur_digest through \<noteq> expected
               then rret (Some (Bail ''recovery floor digest does not match the relay event chain at event {}''
                                  [ANat (cur_ordinal through)]))
               else rret None)))"

definition floor_check :: "relay_env \<Rightarrow> relay_command \<Rightarrow> relay_err option relay_meth" where
  "floor_check env cmd =
     (case cmd of AdvanceRecoveryFloor through \<Rightarrow> recovery_floor_rejection env through | _ \<Rightarrow> rret None)"

definition refuse :: "relay_error_code \<Rightarrow> relay_err \<Rightarrow> reply relay_meth" where
  "refuse code message = rret (Inl (relay_protocol_error code message False None))"

definition accept_command :: "relay_env \<Rightarrow> string \<Rightarrow> relay_command \<Rightarrow> reply relay_meth" where
  "accept_command env cid cmd =
     rbind (rdisk (read_clock env)) (\<lambda>created_at_ms.
     rbind (append_relay_event env (Some cid) (CommandQueued cid cmd created_at_ms)) (\<lambda>accepted.
     rseq (rwhen (is_relay_local cmd) (finish_relay_local_command env cid))
     (rbind (promote_next_queued_command env) (\<lambda>_.
      rret (Inr (PAccepted cid accepted))))))"

definition submit_command :: "relay_env \<Rightarrow> string \<Rightarrow> relay_command \<Rightarrow> reply relay_meth" where
  "submit_command env cid cmd =
     (case ensure_serialized_budget (command_size env cmd) RELAY_COMMAND_BYTE_BUDGET ''relay command'' of
        Ok _ \<Rightarrow>
          if validate_identifier cid ''command ID'' \<noteq> Ok () then refuse InvalidRequest (Bail ''invalid command ID'' [])
          else
            rbind (rget snapshot) (\<lambda>s.
              case bt_get (handled_commands s) cid of
                Some handled \<Rightarrow>
                  if h_command handled \<noteq> cmd
                  then refuse InvalidRequest (Bail ''command ID was already used for a different command'' [])
                  else rseq (rwhen (is_relay_local cmd) (finish_relay_local_command env cid))
                            (rret (Inr (PAccepted cid (h_accepted_ordinal handled))))
              | None \<Rightarrow>
                  (case submit_refusal s cmd of
                     Some (code, message) \<Rightarrow> refuse code (Bail message [])
                   | None \<Rightarrow>
                       rbind (floor_check env cmd) (\<lambda>rejection.
                         case rejection of
                           Some message \<Rightarrow> refuse InvalidState message
                         | None \<Rightarrow> accept_command env cid cmd)))
      | Err e \<Rightarrow> refuse InvalidRequest e
      | Diverges \<Rightarrow> rlift Diverges)"

section \<open>Claims\<close>

text \<open>What may start before the claim: earlier controls, then the barrier, or all controls.\<close>

definition start_before_claim :: "relay_env \<Rightarrow> usize \<Rightarrow> unit relay_meth" where
  "start_before_claim env maximum =
     rbind (rget snapshot) (\<lambda>s.
       if checkpoint_barrier s \<noteq> None then rret ()
       else
         case next_queued_checkpoint s of
           Some (barrier_id, barrier_ordinal) \<Rightarrow>
             let earlier_controls = queued_controls_before barrier_ordinal s in
             if earlier_controls \<noteq> [] then start_queued_controls env (take maximum earlier_controls)
             else if \<not> effectful_command_in_progress s
             then rbind (append_started env barrier_id) (\<lambda>_. rret ())
             else rret ()
         | None \<Rightarrow> start_queued_controls env (take maximum (queued_controls_before u64_max s)))"

definition claim_pending_commands_up_to ::
  "relay_env \<Rightarrow> bool \<Rightarrow> usize \<Rightarrow> claimed_relay_command list relay_meth" where
  "claim_pending_commands_up_to env acp_session_configured maximum =
     (if \<not> acp_session_configured \<or> maximum = 0 then rret []
      else
        rbind (promote_next_queued_command env) (\<lambda>_.
        rseq (start_before_claim env maximum)
        (rbind (rget snapshot) (\<lambda>s.
           let (claimed, next_snapshot) = claim_commands (take maximum (claimable s)) s in
           rseq (rwhen (claimed \<noteq> []) (commit_snapshot env next_snapshot))
                (rret claimed)))))"

definition claim_pending_commands :: "relay_env \<Rightarrow> bool \<Rightarrow> claimed_relay_command list relay_meth" where
  "claim_pending_commands env acp_session_configured =
     claim_pending_commands_up_to env acp_session_configured usize_max"

text \<open>The shell commands to start: cancellations always, runs up to the limit.\<close>

definition cancelled_shells :: "relay_snapshot \<Rightarrow> string list" where
  "cancelled_shells s =
     List.map_filter (\<lambda>p. if d_state (snd p) = DQueued
         then (case d_command (snd p) of CancelUserShell shell \<Rightarrow> Some shell | _ \<Rightarrow> None) else None) (dispatches s)"

definition shell_barrier_ordinal :: "relay_snapshot \<Rightarrow> u64" where
  "shell_barrier_ordinal s = (case next_queued_checkpoint s of Some (_, ordinal) \<Rightarrow> ordinal | None \<Rightarrow> u64_max)"

fun is_cancel_user_shell :: "relay_command \<Rightarrow> bool" where
  "is_cancel_user_shell (CancelUserShell _) = True"
| "is_cancel_user_shell _ = False"

definition queued_shells :: "(string \<Rightarrow> u64 \<Rightarrow> relay_command \<Rightarrow> bool) \<Rightarrow> relay_snapshot \<Rightarrow> (u64 \<times> string) list" where
  "queued_shells P s =
     sort (List.map_filter (\<lambda>p.
        if d_state (snd p) \<noteq> DQueued then None
        else case accepted_ordinal_of s (fst p) of
               None \<Rightarrow> None
             | Some accepted \<Rightarrow> if P (fst p) accepted (d_command (snd p)) then Some (accepted, fst p) else None) (dispatches s))"

definition selected_shells :: "usize \<Rightarrow> relay_snapshot \<Rightarrow> (u64 \<times> string) list" where
  "selected_shells maximum_runs s =
     (let cancels = queued_shells (\<lambda>_ _ cmd. is_cancel_user_shell cmd) s;
          runs = queued_shells (\<lambda>cid accepted cmd. is_run_user_shell cmd \<and> accepted < shell_barrier_ordinal s
                                \<and> cid \<notin> set (cancelled_shells s)) s
      in sort (cancels @ take maximum_runs runs))"

definition claim_shell :: "u64 \<times> string \<Rightarrow> relay_snapshot \<Rightarrow> claimed_relay_command list \<times> relay_snapshot" where
  "claim_shell p s =
     (case bt_get (dispatches s) (snd p) of
        None \<Rightarrow> ([], s)
      | Some d \<Rightarrow>
          ([\<lparr>cl_command_id = snd p, cl_accepted_ordinal = fst p, cl_command = d_command d,
             cl_hidden_prompt_context = None, cl_steering_prompt = None\<rparr>],
           set_dispatch_state (snd p) DInFlight s))"

fun claim_shells :: "(u64 \<times> string) list \<Rightarrow> relay_snapshot \<Rightarrow> claimed_relay_command list \<times> relay_snapshot" where
  "claim_shells [] s = ([], s)"
| "claim_shells (p # ps) s =
     (let (c, s1) = claim_shell p s; (cs, s2) = claim_shells ps s1 in (c @ cs, s2))"

definition claim_pending_user_shell_commands_up_to ::
  "relay_env \<Rightarrow> usize \<Rightarrow> claimed_relay_command list relay_meth" where
  "claim_pending_user_shell_commands_up_to env maximum_runs =
     rbind (rget snapshot) (\<lambda>s.
       if checkpoint_barrier s \<noteq> None then rret []
       else
         let selected = selected_shells maximum_runs s in
         rseq (start_queued_controls env (map snd selected))
         (rbind (rget snapshot) (\<lambda>s'.
            let (claimed, next_snapshot) = claim_shells selected s' in
            rseq (rwhen (claimed \<noteq> []) (commit_snapshot env next_snapshot))
                 (rret claimed))))"

section \<open>Recording\<close>

definition record_observation :: "relay_env \<Rightarrow> relay_observation \<Rightarrow> u64 relay_meth" where
  "record_observation env obs = append_relay_event env None obs"

fun compact_update :: "diff_env \<Rightarrow> session_update \<Rightarrow> session_update" where
  "compact_update denv (SUToolCall content rest) = SUToolCall (snd (compact_tool_call_content denv content)) rest"
| "compact_update denv (SUToolCallUpdate content rest) =
     SUToolCallUpdate (map_option (\<lambda>c. snd (compact_tool_call_content denv c)) content) rest"
| "compact_update denv update = update"

definition record_session_update :: "relay_env \<Rightarrow> diff_env \<Rightarrow> session_update \<Rightarrow> u64 relay_meth" where
  "record_session_update env denv update =
     record_observation env (SessionUpdated (compact_update denv update))"

definition require_dispatch :: "string \<Rightarrow> dispatch_record relay_meth" where
  "require_dispatch cid =
     rbind (rget (\<lambda>r. bt_get (dispatches (snapshot r)) cid)) (\<lambda>dispatch.
       rlift (ok_or dispatch (Bail ''unknown relay command {command_id}'' [AStr cid])))"

definition require_in_flight :: "string \<Rightarrow> dispatch_record relay_meth" where
  "require_in_flight cid =
     rbind (require_dispatch cid) (\<lambda>d.
       if d_state d \<noteq> DInFlight then rfail (Bail ''relay command {command_id} is not in flight'' [AStr cid])
       else rret d)"

definition then_promote :: "relay_env \<Rightarrow> u64 relay_meth \<Rightarrow> u64 relay_meth" where
  "then_promote env m =
     rbind m (\<lambda>ordinal. rbind (promote_next_queued_command env) (\<lambda>_. rret ordinal))"

definition record_command_completed :: "relay_env \<Rightarrow> string \<Rightarrow> relay_command_outcome \<Rightarrow> u64 relay_meth" where
  "record_command_completed env cid outcome =
     rbind (require_in_flight cid) (\<lambda>d.
       if is_begin_checkpoint (d_command d)
       then rfail (Bail ''checkpoint barriers complete through record_checkpoint_ready'' [])
       else then_promote env (append_relay_event env (Some cid) (CommandCompleted cid outcome)))"

definition record_command_rejected :: "relay_env \<Rightarrow> string \<Rightarrow> string \<Rightarrow> u64 relay_meth" where
  "record_command_rejected env cid message =
     rbind (require_dispatch cid) (\<lambda>d.
       then_promote env (append_relay_event env (Some cid) (CommandRejected cid (command_kind (d_command d)) message)))"

definition record_command_interrupted :: "relay_env \<Rightarrow> string \<Rightarrow> string \<Rightarrow> u64 relay_meth" where
  "record_command_interrupted env cid message =
     rbind (require_dispatch cid) (\<lambda>d.
       then_promote env (append_relay_event env (Some cid) (CommandInterrupted cid (command_kind (d_command d)) message)))"

definition record_checkpoint_ready :: "relay_env \<Rightarrow> string \<Rightarrow> u64 relay_meth" where
  "record_checkpoint_ready env cid =
     rbind (require_in_flight cid) (\<lambda>d.
     rbind (rget snapshot) (\<lambda>s.
       if checkpoint_barrier s \<noteq> Some cid then rfail (Bail ''checkpoint barrier {command_id} is not active'' [AStr cid])
       else if checkpoint_ready_through s \<noteq> None
       then rfail (Bail ''checkpoint barrier {command_id} is already ready'' [AStr cid])
       else if \<not> is_begin_checkpoint (d_command d)
       then rfail (Bail ''command {command_id} is not a checkpoint barrier'' [AStr cid])
       else
         rbind (rlift (ok_or (checked_add_u64 (latest_ordinal s) 1) (Bail ''relay event ordinal exhausted'' []))) (\<lambda>through.
           append_relay_event env (Some cid) (CheckpointReady cid through))))"

definition cancel_checkpoint_barrier_on_disconnect :: "relay_env \<Rightarrow> string \<Rightarrow> u64 option relay_meth" where
  "cancel_checkpoint_barrier_on_disconnect env cid =
     rbind (rget (\<lambda>r. bt_get (dispatches (snapshot r)) cid)) (\<lambda>dispatch.
       case dispatch of
         None \<Rightarrow> rret None
       | Some d \<Rightarrow>
           if \<not> is_begin_checkpoint (d_command d) \<or> \<not> (d_state d = DQueued \<or> in_progress (d_state d)) then rret None
           else
             rbind (then_promote env (append_relay_event env (Some cid)
                      (CommandInterrupted cid KBeginCheckpoint
                         ''checkpoint barrier cancelled because its controller disconnected''))) (\<lambda>ordinal.
             rret (Some ordinal)))"

section \<open>Acknowledging and prompt context\<close>

definition acknowledge :: "relay_env \<Rightarrow> u64 \<Rightarrow> string \<Rightarrow> reply relay_meth" where
  "acknowledge env through_ordinal through_digest =
     rbind (rget replay_plan) (\<lambda>plan.
     rtry (rdisk (validate_cursor env plan through_ordinal through_digest))
       (\<lambda>_.
         rbind (rget snapshot) (\<lambda>s.
         rseq (rwhen (through_ordinal > acknowledged_through s)
                 (commit_snapshot env (s\<lparr>acknowledged_through := through_ordinal, acknowledged_digest := through_digest\<rparr>)))
         (rbind (rget (\<lambda>r. through_ordinal = acknowledged_through (snapshot r))) (\<lambda>current.
          rseq (rwhen current (garbage_collect_relay_history env))
          (rbind (rget snapshot) (\<lambda>s'.
             rret (Inr (PAcknowledged (acknowledged_through s') (acknowledged_digest s')))))))))
       (\<lambda>e. rret (Inl (relay_protocol_error Desynchronized e False
                         (Some (desynchronized_detail plan through_ordinal through_digest))))))"

definition extend_context :: "string \<Rightarrow> pending_prompt_context option \<Rightarrow> pending_prompt_context option" where
  "extend_context new_part context =
     (case context of
        Some c \<Rightarrow> Some (if pc_text c \<noteq> new_part then c\<lparr>pc_text := pc_text c @ [CHR 0x0A, CHR 0x0A] @ new_part\<rparr> else c)
      | None \<Rightarrow> Some \<lparr>pc_text = new_part, pc_attached = None\<rparr>)"

definition install_prompt_context :: "relay_env \<Rightarrow> string \<Rightarrow> unit relay_meth" where
  "install_prompt_context env new_part =
     (if is_blank new_part then rfail (Bail ''pending prompt context is empty'' [])
      else
        rbind (rget snapshot) (\<lambda>s.
          if active_prompt s \<noteq> None
             \<or> (case pending_prompt_ctx s of Some c \<Rightarrow> pc_attached c \<noteq> None | None \<Rightarrow> False)
          then rfail (Bail ''cannot replace prompt context while its prompt is active'' [])
          else
            let next = s\<lparr>pending_prompt_ctx := extend_context new_part (pending_prompt_ctx s)\<rparr> in
            rseq (rlift (ensure_serialized_budget (snapshot_size env next) RELAY_SNAPSHOT_BYTE_BUDGET
                           ''relay snapshot with pending prompt context''))
                 (commit_snapshot env next)))"

end
