(* ===== verification/Relay_Service.thy ===== *)
theory Relay_Service
  imports Relay_Commands
begin

text \<open>
  The relay as a service: opening a worker root (\<open>src/src/hel_worker.rs\<close>, \<open>DurableRelay::open\<close>, with
  the recovery of \<open>src/src/hel_worker/journal.rs\<close>), answering one request (\<open>handle\<close>), and the loop
  that reads request frames and writes response frames (\<open>src/src/hel_worker/protocol.rs\<close>).
\<close>

section \<open>Recovery of unfinished commands\<close>

definition unfinished :: "(dispatch_record \<Rightarrow> bool) \<Rightarrow> relay_snapshot \<Rightarrow> (u64 \<times> string) list" where
  "unfinished P s =
     sort (List.map_filter (\<lambda>p. if P (snd p) then map_option (\<lambda>n. (n, fst p)) (accepted_ordinal_of s (fst p)) else None)
             (dispatches s))"

definition relay_local_unfinished :: "dispatch_record \<Rightarrow> bool" where
  "relay_local_unfinished d \<longleftrightarrow> is_relay_local (d_command d) \<and> \<not> is_terminal (d_state d)"

definition ownerless_barrier :: "dispatch_record \<Rightarrow> bool" where
  "ownerless_barrier d \<longleftrightarrow> is_begin_checkpoint (d_command d) \<and> \<not> is_terminal (d_state d)"

definition interrupted_shell_result :: "string \<Rightarrow> user_shell_result" where
  "interrupted_shell_result command =
     \<lparr>us_command = command, us_stdout = [], us_stderr = [], us_stdout_truncated = False, us_stderr_truncated = False,
      us_exit_code = None, us_signal = None, us_duration_ms = 0, us_status = ShInterrupted,
      us_error = Some ''worker restarted while the shell command was running; it was not replayed''\<rparr>"

text \<open>What becomes of one command that was in flight; the result says whether a close was kept.\<close>

definition recover_in_flight :: "relay_env \<Rightarrow> string \<Rightarrow> bool \<Rightarrow> bool relay_meth" where
  "recover_in_flight env cid restored_close =
     rbind (rget (\<lambda>r. bt_get (dispatches (snapshot r)) cid)) (\<lambda>dispatch.
       case map_option d_command dispatch of
         Some (Close _ _) \<Rightarrow>
           rseq (rmodify (\<lambda>r. r\<lparr>snapshot := set_dispatch_state cid DPending (snapshot r)\<rparr>)) (rret True)
       | Some (RunUserShell command) \<Rightarrow>
           rbind (record_command_completed env cid (OUserShell (interrupted_shell_result command))) (\<lambda>_. rret restored_close)
       | _ \<Rightarrow>
           rbind (record_command_interrupted env cid
                    ''relay restarted while the ACP command was in flight; it was not replayed'') (\<lambda>_. rret restored_close))"

definition recover_nonterminal_commands :: "relay_env \<Rightarrow> unit relay_meth" where
  "recover_nonterminal_commands env =
     rbind (rget (\<lambda>r. unfinished relay_local_unfinished (snapshot r))) (\<lambda>relay_local.
     rseq (rforeach (\<lambda>p. finish_relay_local_command env (snd p)) relay_local)
     (rbind (rget (\<lambda>r. unfinished ownerless_barrier (snapshot r))) (\<lambda>barriers.
      rseq (rforeach (\<lambda>p. rbind (record_command_interrupted env (snd p)
                ''relay restarted without the controller that owned the checkpoint barrier'') (\<lambda>_. rret ())) barriers)
      (rbind (rget (\<lambda>r. unfinished (\<lambda>d. d_state d = DInFlight) (snapshot r))) (\<lambda>in_flight.
       rbind (rfold (\<lambda>p. recover_in_flight env (snd p)) in_flight False) (\<lambda>restored_close.
       rwhen restored_close (persist_snapshot env)))))))"

section \<open>Adopting commands outside the queue\<close>

definition unqueued :: "relay_snapshot \<Rightarrow> (u64 \<times> string \<times> stored_queued_payload) list" where
  "unqueued s =
     List.map_filter (\<lambda>p.
       if d_state (snd p) \<noteq> DQueued \<or> \<not> is_queue_entry (d_command (snd p))
          \<or> list_ex (\<lambda>q. q_command_id q = fst p) (queued_prompts s) then None
       else case (accepted_ordinal_of s (fst p), queue_payload (d_command (snd p))) of
              (Some accepted, Some payload) \<Rightarrow> Some (accepted, fst p, payload)
            | _ \<Rightarrow> None) (dispatches s)"

definition stamp_adopted ::
  "relay_env \<Rightarrow> u64 \<times> string \<times> stored_queued_payload \<Rightarrow> (u64 \<times> stored_queued_command) list
     \<Rightarrow> (u64 \<times> stored_queued_command) list disk_meth" where
  "stamp_adopted env p adopted =
     rbind (read_clock env) (\<lambda>now.
       rret (adopted @ [(fst p, \<lparr>q_command_id = fst (snd p), q_payload = snd (snd p), q_created_at_ms = now\<rparr>)]))"

definition merge_adopted :: "(u64 \<times> stored_queued_command) list \<Rightarrow> relay_snapshot \<Rightarrow> stored_queued_command list" where
  "merge_adopted adopted s =
     map snd (sort_key fst
       (map (\<lambda>q. (case accepted_ordinal_of s (q_command_id q) of Some n \<Rightarrow> n | None \<Rightarrow> 0, q)) (queued_prompts s)
        @ adopted))"

definition adopt_unqueued_queue_commands :: "relay_env \<Rightarrow> unit relay_meth" where
  "adopt_unqueued_queue_commands env =
     rbind (rget (\<lambda>r. unqueued (snapshot r))) (\<lambda>found.
     rbind (rdisk (rfold (stamp_adopted env) found [])) (\<lambda>adopted.
       if adopted = [] then rret ()
       else
         rseq (rmodify (\<lambda>r. r\<lparr>snapshot := (snapshot r)\<lparr>queued_prompts := merge_adopted adopted (snapshot r)\<rparr>\<rparr>))
              (persist_snapshot env)))"

section \<open>Opening a worker root\<close>

definition opened_relay ::
  "string \<Rightarrow> relay_journal_span list \<Rightarrow> relay_event list \<Rightarrow> relay_snapshot \<Rightarrow> relay_disk \<Rightarrow> durable_relay" where
  "opened_relay version spans hot s d =
     \<lparr>relay_version = version, snapshot = s, journal_spans = spans, hot_events = hot, replay_cursors = [],
      unpersisted_journal_bytes = 0, journal_generation = 0, acp_activity = 0, active_agent_terminals = [],
      closed_agent_terminals = [], disk = d\<rparr>"

text \<open>Everything that is read before the relay exists: its spans, recent events and snapshot.\<close>

definition load_relay ::
  "relay_env \<Rightarrow> string \<Rightarrow> (u64 \<times> relay_journal_span list \<times> relay_event list \<times> relay_snapshot) disk_meth" where
  "load_relay env sid =
     rseq (rlift (validate_identifier sid ''session ID''))
     (rseq (io_op (\<lambda>d. d\<lparr>root_present := True\<rparr>))
     (rbind (load_snapshot env sid) (\<lambda>s.
      rseq (rlift (validate_relay_snapshot_frontiers s))
      (rbind (open_relay_journal env (retained_through s) (retained_digest s) (latest_ordinal s) s) (\<lambda>(spans, hot, s').
       rseq (rlift (ensure_serialized_budget (state_size env (snapshot_operational_state s'))
                      RELAY_STATE_BYTE_BUDGET ''relay operational state''))
            (rret (latest_ordinal s, spans, hot, s')))))))"

definition recover_relay :: "relay_env \<Rightarrow> u64 \<Rightarrow> unit relay_meth" where
  "recover_relay env snapshot_ordinal =
     rbind (rget (\<lambda>r. state_file (disk r) = None \<or> latest_ordinal (snapshot r) > snapshot_ordinal)) (\<lambda>behind.
     rseq (rwhen behind (persist_snapshot env))
     (rseq (adopt_unqueued_queue_commands env)
     (rseq (recover_nonterminal_commands env)
     (rbind (promote_next_queued_command env) (\<lambda>_. rret ())))))"

definition relay_open :: "relay_env \<Rightarrow> string \<Rightarrow> string \<Rightarrow> durable_relay disk_meth" where
  "relay_open env sid version d =
     (case load_relay env sid d of
        (Ok (snapshot_ordinal, spans, hot, s), d') \<Rightarrow>
          (case recover_relay env snapshot_ordinal (opened_relay version spans hot s d') of
             (Ok _, r) \<Rightarrow> (Ok r, disk r) | (Err e, r) \<Rightarrow> (Err e, disk r) | (Diverges, r) \<Rightarrow> (Diverges, disk r))
      | (Err e, d') \<Rightarrow> (Err e, d')
      | (Diverges, d') \<Rightarrow> (Diverges, d'))"

section \<open>Answering a request\<close>

definition incompatible_hello :: "relay_version_range \<Rightarrow> relay_response_body" where
  "incompatible_hello supported =
     relay_error IncompatibleProtocol
       (Bail ''controller supports {}-{}, relay supports protocol {}-{}''
          [ANat (vr_min supported), ANat (vr_max supported), ANat RELAY_MIN_PROTOCOL_VERSION, ANat RELAY_PROTOCOL_VERSION])
       False None"

definition envelope_rejection :: "relay_request_envelope \<Rightarrow> durable_relay \<Rightarrow> relay_response_body option" where
  "envelope_rejection envelope r =
     (if is_blank (rq_request_id envelope) \<or> length (rq_request_id envelope) > 256
      then Some (relay_error InvalidRequest (Bail ''request_id is required'' []) False None)
      else
        case rq_request envelope of
          Hello _ supported \<Rightarrow>
            (case negotiate CURRENT supported of
               None \<Rightarrow> Some (incompatible_hello supported)
             | Some negotiated \<Rightarrow> Some (BodyOk (PHello negotiated (relay_version r) (session_id (snapshot r)))))
        | request \<Rightarrow>
            if \<not> supported_at request (rq_protocol_version envelope)
            then Some (incompatible_request_protocol (rq_protocol_version envelope)) else None)"

definition reply_body :: "reply \<Rightarrow> relay_response_body" where
  "reply_body reply = (case reply of Inr payload \<Rightarrow> BodyOk payload | Inl e \<Rightarrow> BodyError e)"

definition transport_only :: "string \<Rightarrow> relay_response_body" where
  "transport_only message = relay_error InvalidState (Bail message []) False None"

definition handle_request :: "relay_env \<Rightarrow> relay_request \<Rightarrow> relay_response_body relay_meth" where
  "handle_request env request =
     (case request of
        Attach after_ord after_digest \<Rightarrow> rbind (attach env after_ord after_digest) (\<lambda>reply. rret (reply_body reply))
      | Acknowledge through_ordinal through_digest \<Rightarrow>
          rbind (acknowledge env through_ordinal through_digest) (\<lambda>reply. rret (reply_body reply))
      | Submit cid cmd \<Rightarrow> rbind (submit_command env cid cmd) (\<lambda>reply. rret (reply_body reply))
      | Status \<Rightarrow>
          rbind (rget operational_state) (\<lambda>state.
          rseq (rlift (ensure_serialized_budget (state_size env state) RELAY_STATE_BYTE_BUDGET ''relay operational state''))
               (rret (BodyOk (PStatus state))))
      | InstallPromptContext new_part \<Rightarrow>
          rseq (install_prompt_context env new_part) (rret (BodyOk PPromptContextInstalled))
      | Compact _ \<Rightarrow> rret (transport_only ''compaction requests must be handled by the live relay transport'')
      | RespondElicitation _ _ \<Rightarrow> rret (transport_only ''elicitation responses must be handled by the live relay transport'')
      | Reviewer _ _ \<Rightarrow> rret (transport_only ''reviewer requests must be handled by the live relay transport'')
      | _ \<Rightarrow> rret (transport_only ''connection-only requests must be handled by the live relay transport''))"

definition handle_inner :: "relay_env \<Rightarrow> relay_request_envelope \<Rightarrow> relay_response_body relay_meth" where
  "handle_inner env envelope =
     rbind (rget (envelope_rejection envelope)) (\<lambda>rejection.
       case rejection of
         Some body \<Rightarrow> rret body
       | None \<Rightarrow> handle_request env (rq_request envelope))"

definition response_version :: "u32 \<Rightarrow> relay_response_body \<Rightarrow> u32" where
  "response_version requested body = (case body of BodyOk (PHello negotiated _ _) \<Rightarrow> negotiated | _ \<Rightarrow> requested)"

text \<open>No error of the handler leaves this method: it becomes a retryable error response.\<close>

definition handle :: "relay_env \<Rightarrow> relay_request_envelope \<Rightarrow> relay_response_envelope relay_meth" where
  "handle env envelope =
     rbind (rtry (handle_inner env envelope) rret (\<lambda>e. rret (relay_error Internal e True None))) (\<lambda>body.
       rret \<lparr>rs_request_id = rq_request_id envelope,
             rs_protocol_version = response_version (rq_protocol_version envelope) body, rs_body = body\<rparr>)"

definition take_deferred_attach :: "relay_request_envelope \<Rightarrow> durable_relay \<Rightarrow> deferred_relay_attach option" where
  "take_deferred_attach envelope r =
     (case rq_request envelope of
        Attach after_ord after_digest \<Rightarrow>
          if envelope_rejection envelope r \<noteq> None then None
          else Some \<lparr>da_request_id = rq_request_id envelope, da_protocol_version = rq_protocol_version envelope,
                     da_plan = replay_plan r, da_state = operational_state r,
                     da_after_ordinal = after_ord, da_after_digest = after_digest\<rparr>
      | _ \<Rightarrow> None)"

section \<open>Frames\<close>

text \<open>The decoder of a request line is a parameter; so is the writer, which may fail.\<close>

definition read_relay_frame ::
  "(string \<Rightarrow> relay_request_envelope option) \<Rightarrow> chunk list \<Rightarrow> (relay_request_envelope option \<times> chunk list) relay_result" where
  "read_relay_frame parse_request reader =
     obind (read_bounded_line MAX_FRAME_BYTES [] 0 reader) (\<lambda>((line, consumed, _), rest).
       if consumed = 0 then Ok (None, rest)
       else
         let frame = (if line \<noteq> [] \<and> last line = CHR 0x0D then butlast line else line) in
         if frame = [] then Err (Bail ''empty relay protocol frame'' [])
         else case parse_request frame of
                None \<Rightarrow> Err (Bail ''parse relay protocol request'' [])
              | Some envelope \<Rightarrow> Ok (Some envelope, rest))"

lemma read_bounded_line_progress:
  "read_bounded_line maximum line consumed_total cs = Ok ((line', consumed_total', terminated), cs') \<Longrightarrow>
     consumed_total \<noteq> consumed_total' \<Longrightarrow> reader_size cs' < reader_size cs"
proof (induction cs arbitrary: line consumed_total)
  case (Cons c cs)
  show ?case
  proof (cases c)
    case (Data available)
    show ?thesis
    proof (cases "find_byte (CHR 0x0A) available")
      case None
      have rest: "reader_size cs' \<le> reader_size cs"
        if "read_bounded_line maximum l t cs = Ok ((line', consumed_total', terminated), cs')" for l t
      proof (cases "t = consumed_total'")
        case True
        have "reader_size xs' \<le> reader_size xs"
          if "read_bounded_line maximum l t xs = Ok ((line', t', terminated), xs')" for xs xs' l t t'
          using that
        proof (induction xs arbitrary: l t)
          case (Cons x xs)
          then show ?case
            by (cases x) (auto simp: Let_def split: if_splits option.splits dest!: find_byte_Some, force+)
        qed simp
        with that show ?thesis by blast
      next
        case False
        with Cons.IH [OF that] show ?thesis by simp
      qed
      with Cons None Data show ?thesis by (auto simp: Let_def split: if_splits dest!: rest)
    next
      case (Some i)
      with find_byte_Some [OF Some] Cons.prems Data show ?thesis by (auto simp: Let_def split: if_splits)
    qed
  qed (use Cons.prems in simp)
qed simp

lemma read_relay_frame_progress:
  "read_relay_frame parse_request reader = Ok (Some envelope, rest) \<Longrightarrow> reader_size rest < reader_size reader"
  by (auto simp: read_relay_frame_def Let_def dest!: read_bounded_line_progress split: if_splits option.splits)

function serve_relay_json_lines ::
  "relay_env \<Rightarrow> (string \<Rightarrow> relay_request_envelope option) \<Rightarrow> ('w \<Rightarrow> relay_response_envelope \<Rightarrow> (relay_err, 'w) outcome)
     \<Rightarrow> chunk list \<Rightarrow> (durable_relay \<times> 'w, relay_err, unit) meth" where
  "serve_relay_json_lines env parse_request write_relay_frame reader (r, w) =
     (case read_relay_frame parse_request reader of
        Err e \<Rightarrow> (Err e, (r, w))
      | Diverges \<Rightarrow> (Diverges, (r, w))
      | Ok (None, _) \<Rightarrow> (Ok (), (r, w))
      | Ok (Some envelope, rest) \<Rightarrow>
          (case handle env envelope r of
             (Ok response, r') \<Rightarrow>
               (case write_relay_frame w response of
                  Ok w' \<Rightarrow> serve_relay_json_lines env parse_request write_relay_frame rest (r', w')
                | Err e \<Rightarrow> (Err e, (r', w))
                | Diverges \<Rightarrow> (Diverges, (r', w)))
           | (Err e, r') \<Rightarrow> (Err e, (r', w))
           | (Diverges, r') \<Rightarrow> (Diverges, (r', w))))"
  by pat_completeness auto
termination
  by (relation "measure (\<lambda>(env, parse_request, write, reader, s). reader_size reader)")
    (auto dest: read_relay_frame_progress)

declare serve_relay_json_lines.simps [simp del]

end
