(* ===== verification/Relay_Invariant.thy ===== *)
theory Relay_Invariant
  imports Relay_Machine
begin

text \<open>
  The invariant of the relay's snapshot. It speaks of the command ledger through \<open>entry\<close>: the
  command a dispatch record holds and whether it waits, has started or is done. Seven parts: the
  ledger itself, the prompt queue, the running turn, the checkpoint barrier, the close, the user
  shells and the frontiers. The steps of the machine fall into five classes by what they do to
  \<open>entry\<close>, and each class is treated once: accept, start, finish, forget, and leave alone (which
  covers a claim, since a pending and an in-flight command have both started).
\<close>

section \<open>The invariant\<close>

datatype phase = Waiting | Started | Done

fun phase_of :: "dispatch_state \<Rightarrow> phase" where
  "phase_of DQueued = Waiting"
| "phase_of DPending = Started"
| "phase_of DInFlight = Started"
| "phase_of DCompleted = Done"
| "phase_of DRejected = Done"
| "phase_of DInterrupted = Done"

lemma phase_of_iff:
  "phase_of st = Waiting \<longleftrightarrow> st = DQueued" "phase_of st = Started \<longleftrightarrow> in_progress st"
  "phase_of st = Done \<longleftrightarrow> is_terminal st"
  by (cases st; simp)+

definition entry :: "relay_snapshot \<Rightarrow> string \<Rightarrow> (relay_command \<times> phase) option" where
  "entry s cid = map_option (\<lambda>d. (d_command d, phase_of (d_state d))) (bt_get (dispatches s) cid)"

lemma entry_Some:
  "entry s cid = Some (cmd, ph) \<longleftrightarrow>
     (\<exists>d. bt_get (dispatches s) cid = Some d \<and> d_command d = cmd \<and> phase_of (d_state d) = ph)"
  by (auto simp: entry_def)

lemma entry_None: "entry s cid = None \<longleftrightarrow> bt_get (dispatches s) cid = None"
  by (simp add: entry_def)

definition ledger_ok :: "relay_snapshot \<Rightarrow> bool" where
  "ledger_ok s \<longleftrightarrow>
     bt_wf (dispatches s) \<and> bt_wf (handled_commands s)
     \<and> (\<forall>cid. entry s cid = None \<longleftrightarrow> bt_get (handled_commands s) cid = None)
     \<and> (\<forall>cid h. bt_get (handled_commands s) cid = Some h \<longrightarrow>
          (\<exists>ph. entry s cid = Some (h_command h, ph) \<and> (ph = Done \<longleftrightarrow> h_terminal_ordinal h \<noteq> None))
          \<and> h_accepted_ordinal h \<le> latest_ordinal s
          \<and> (\<forall>t. h_terminal_ordinal h = Some t \<longrightarrow> h_accepted_ordinal h \<le> t \<and> t \<le> latest_ordinal s))"

definition queue_order :: "relay_snapshot \<Rightarrow> u64 list" where
  "queue_order s =
     map (\<lambda>q. case accepted_ordinal_of s (q_command_id q) of Some n \<Rightarrow> n | None \<Rightarrow> 0) (queued_prompts s)"

definition queue_ok :: "relay_snapshot \<Rightarrow> bool" where
  "queue_ok s \<longleftrightarrow>
     distinct (map q_command_id (queued_prompts s))
     \<and> (\<forall>q \<in> set (queued_prompts s). \<exists>cmd. entry s (q_command_id q) = Some (cmd, Waiting)
          \<and> queue_payload cmd = Some (q_payload q))
     \<and> (\<forall>cid cmd. entry s cid = Some (cmd, Waiting) \<longrightarrow> is_queue_entry cmd \<longrightarrow>
          cid \<in> q_command_id ` set (queued_prompts s))
     \<and> sorted (queue_order s)"

definition turn_ok :: "relay_snapshot \<Rightarrow> bool" where
  "turn_ok s \<longleftrightarrow>
     (\<forall>a. active_prompt s = Some a \<longrightarrow> entry s (ap_command_id a) = Some (Prompt (ap_prompt a), Started))
     \<and> (\<forall>cid p. entry s cid = Some (Prompt p, Started) \<longrightarrow>
          map_option ap_command_id (active_prompt s) = Some cid)
     \<and> (\<forall>cid cmd cid' cmd'. entry s cid = Some (cmd, Started) \<longrightarrow> is_queue_entry cmd \<longrightarrow>
          entry s cid' = Some (cmd', Started) \<longrightarrow> is_queue_entry cmd' \<longrightarrow> cid = cid')
     \<and> (execution s = ExRunning \<longleftrightarrow> active_prompt s \<noteq> None)"

definition barrier_ok :: "relay_snapshot \<Rightarrow> bool" where
  "barrier_ok s \<longleftrightarrow>
     (\<forall>b. checkpoint_barrier s = Some b \<longrightarrow> (\<exists>r. entry s b = Some (BeginCheckpoint r, Started)))
     \<and> (\<forall>b cid cmd. checkpoint_barrier s = Some b \<longrightarrow> entry s cid = Some (cmd, Started) \<longrightarrow>
          \<not> is_effectful cmd)
     \<and> (\<forall>cid r. entry s cid = Some (BeginCheckpoint r, Started) \<longrightarrow> checkpoint_barrier s = Some cid)
     \<and> (checkpoint_ready_through s = None \<longleftrightarrow> checkpoint_ready_digest s = None)
     \<and> (checkpoint_ready_through s \<noteq> None \<longrightarrow> checkpoint_barrier s \<noteq> None)
     \<and> (\<forall>n. checkpoint_ready_through s = Some n \<longrightarrow> 0 < n \<and> n \<le> latest_ordinal s)"

definition close_ok :: "relay_snapshot \<Rightarrow> bool" where
  "close_ok s \<longleftrightarrow>
     (\<forall>cid b e ph. entry s cid = Some (Close b e, ph) \<longrightarrow> ph \<noteq> Done \<longrightarrow> execution s = ExClosing)
     \<and> (\<forall>cid b e ph cid' b' e' ph'. entry s cid = Some (Close b e, ph) \<longrightarrow> ph \<noteq> Done \<longrightarrow>
          entry s cid' = Some (Close b' e', ph') \<longrightarrow> ph' \<noteq> Done \<longrightarrow> cid = cid')
     \<and> (execution s = ExClosing \<longrightarrow> (\<exists>cid b e ph. entry s cid = Some (Close b e, ph) \<and> ph \<noteq> Done))"

definition shell_ok :: "relay_snapshot \<Rightarrow> bool" where
  "shell_ok s \<longleftrightarrow>
     bt_wf (active_user_shells s)
     \<and> (\<forall>cid. bt_get (active_user_shells s) cid \<noteq> None \<longleftrightarrow>
          (\<exists>c ph. entry s cid = Some (RunUserShell c, ph) \<and> ph \<noteq> Done))
     \<and> (\<forall>cid sh. bt_get (active_user_shells s) cid = Some sh \<longrightarrow> sh_command_id sh = cid)"

definition frontier_ok :: "relay_snapshot \<Rightarrow> bool" where
  "frontier_ok s \<longleftrightarrow>
     acknowledged_through s \<le> latest_ordinal s \<and> recovery_floor_ordinal s \<le> latest_ordinal s
     \<and> latest_ordinal s \<le> u64_max \<and> is_hex_digest (latest_digest s)
     \<and> (\<forall>cid t ph. entry s cid = Some (AdvanceRecoveryFloor t, ph) \<longrightarrow> ph \<noteq> Done \<longrightarrow>
          cur_ordinal t \<le> latest_ordinal s)"

definition relay_inv :: "relay_snapshot \<Rightarrow> bool" where
  "relay_inv s \<longleftrightarrow>
     ledger_ok s \<and> queue_ok s \<and> turn_ok s \<and> barrier_ok s \<and> close_ok s \<and> shell_ok s \<and> frontier_ok s"

lemmas inv_parts = ledger_ok_def queue_ok_def turn_ok_def barrier_ok_def close_ok_def shell_ok_def
  frontier_ok_def

lemma relay_invI:
  "ledger_ok s \<Longrightarrow> queue_ok s \<Longrightarrow> turn_ok s \<Longrightarrow> barrier_ok s \<Longrightarrow> close_ok s \<Longrightarrow> shell_ok s \<Longrightarrow>
   frontier_ok s \<Longrightarrow> relay_inv s"
  by (simp add: relay_inv_def)

lemma relay_invD:
  assumes "relay_inv s"
  shows "ledger_ok s" "queue_ok s" "turn_ok s" "barrier_ok s" "close_ok s" "shell_ok s" "frontier_ok s"
  using assms by (simp_all add: relay_inv_def)

lemma ledger_okD:
  assumes "ledger_ok s"
  shows "bt_wf (dispatches s)" "bt_wf (handled_commands s)"
    and "entry s cid = None \<longleftrightarrow> bt_get (handled_commands s) cid = None"
    and "bt_get (handled_commands s) cid = Some h \<Longrightarrow>
          \<exists>ph. entry s cid = Some (h_command h, ph) \<and> (ph = Done \<longleftrightarrow> h_terminal_ordinal h \<noteq> None)"
    and "bt_get (handled_commands s) cid = Some h \<Longrightarrow> h_accepted_ordinal h \<le> latest_ordinal s"
    and "bt_get (handled_commands s) cid = Some h \<Longrightarrow> h_terminal_ordinal h = Some t \<Longrightarrow>
          h_accepted_ordinal h \<le> t \<and> t \<le> latest_ordinal s"
  using assms unfolding ledger_ok_def by blast+

lemma queue_okD:
  assumes "queue_ok s"
  shows "distinct (map q_command_id (queued_prompts s))"
    and "q \<in> set (queued_prompts s) \<Longrightarrow> \<exists>cmd. entry s (q_command_id q) = Some (cmd, Waiting)
          \<and> queue_payload cmd = Some (q_payload q)"
    and "entry s cid = Some (cmd, Waiting) \<Longrightarrow> is_queue_entry cmd \<Longrightarrow>
          cid \<in> q_command_id ` set (queued_prompts s)"
    and "sorted (queue_order s)"
  using assms unfolding queue_ok_def by blast+

lemma turn_okD:
  assumes "turn_ok s"
  shows "active_prompt s = Some a \<Longrightarrow> entry s (ap_command_id a) = Some (Prompt (ap_prompt a), Started)"
    and "entry s cid = Some (Prompt p, Started) \<Longrightarrow> map_option ap_command_id (active_prompt s) = Some cid"
    and "entry s cid = Some (cmd, Started) \<Longrightarrow> is_queue_entry cmd \<Longrightarrow>
         entry s cid' = Some (cmd', Started) \<Longrightarrow> is_queue_entry cmd' \<Longrightarrow> cid = cid'"
    and "execution s = ExRunning \<longleftrightarrow> active_prompt s \<noteq> None"
  using assms unfolding turn_ok_def by (elim conjE; metis)+

lemma barrier_okD:
  assumes "barrier_ok s"
  shows "checkpoint_barrier s = Some b \<Longrightarrow> \<exists>r. entry s b = Some (BeginCheckpoint r, Started)"
    and "checkpoint_barrier s = Some b \<Longrightarrow> entry s cid = Some (cmd, Started) \<Longrightarrow> \<not> is_effectful cmd"
    and "entry s cid = Some (BeginCheckpoint r, Started) \<Longrightarrow> checkpoint_barrier s = Some cid"
    and "checkpoint_ready_through s = None \<longleftrightarrow> checkpoint_ready_digest s = None"
    and "checkpoint_ready_through s \<noteq> None \<Longrightarrow> checkpoint_barrier s \<noteq> None"
    and "checkpoint_ready_through s = Some n \<Longrightarrow> 0 < n \<and> n \<le> latest_ordinal s"
  using assms unfolding barrier_ok_def by (elim conjE; metis)+

lemma close_okD:
  assumes "close_ok s"
  shows "entry s cid = Some (Close b e, ph) \<Longrightarrow> ph \<noteq> Done \<Longrightarrow> execution s = ExClosing"
    and "entry s cid = Some (Close b e, ph) \<Longrightarrow> ph \<noteq> Done \<Longrightarrow>
         entry s cid' = Some (Close b' e', ph') \<Longrightarrow> ph' \<noteq> Done \<Longrightarrow> cid = cid'"
    and "execution s = ExClosing \<Longrightarrow> \<exists>cid b e ph. entry s cid = Some (Close b e, ph) \<and> ph \<noteq> Done"
  using assms unfolding close_ok_def by (elim conjE; metis)+

lemma shell_okD:
  assumes "shell_ok s"
  shows "bt_wf (active_user_shells s)"
    and "bt_get (active_user_shells s) cid \<noteq> None \<longleftrightarrow>
          (\<exists>c ph. entry s cid = Some (RunUserShell c, ph) \<and> ph \<noteq> Done)"
    and "bt_get (active_user_shells s) cid = Some sh \<Longrightarrow> sh_command_id sh = cid"
  using assms unfolding shell_ok_def by blast+

lemma frontier_okD:
  assumes "frontier_ok s"
  shows "acknowledged_through s \<le> latest_ordinal s" "recovery_floor_ordinal s \<le> latest_ordinal s"
    "latest_ordinal s \<le> u64_max" "is_hex_digest (latest_digest s)"
    and "entry s cid = Some (AdvanceRecoveryFloor t, ph) \<Longrightarrow> ph \<noteq> Done \<Longrightarrow> cur_ordinal t \<le> latest_ordinal s"
  using assms unfolding frontier_ok_def by blast+

lemma relay_inv_new: "relay_inv (new_snapshot sid)"
  by (simp add: relay_inv_def inv_parts new_snapshot_def queue_order_def is_hex_digest_def entry_def
        RELAY_EVENT_GENESIS_DIGEST_def is_ascii_digit_def u64_max_def list_all_iff)

section \<open>Steps that leave the ledger alone\<close>

text \<open>Everything the invariant reads, apart from the frontiers.\<close>

definition same_core :: "relay_snapshot \<Rightarrow> relay_snapshot \<Rightarrow> bool" where
  "same_core s s' \<longleftrightarrow>
     entry s' = entry s \<and> (bt_wf (dispatches s) \<longrightarrow> bt_wf (dispatches s'))
     \<and> handled_commands s' = handled_commands s
     \<and> queued_prompts s' = queued_prompts s \<and> active_prompt s' = active_prompt s
     \<and> execution s' = execution s \<and> checkpoint_barrier s' = checkpoint_barrier s
     \<and> active_user_shells s' = active_user_shells s \<and> latest_ordinal s \<le> latest_ordinal s'"

lemma same_coreD:
  assumes "same_core s s'"
  shows "entry s' = entry s" "handled_commands s' = handled_commands s"
    "queued_prompts s' = queued_prompts s" "active_prompt s' = active_prompt s"
    "execution s' = execution s" "checkpoint_barrier s' = checkpoint_barrier s"
    "active_user_shells s' = active_user_shells s"
    and "bt_wf (dispatches s) \<Longrightarrow> bt_wf (dispatches s')" "latest_ordinal s \<le> latest_ordinal s'"
  using assms unfolding same_core_def by blast+

lemma ledger_ok_same_core: "ledger_ok s \<Longrightarrow> same_core s s' \<Longrightarrow> ledger_ok s'"
  using same_coreD(8,9) [of s s'] unfolding ledger_ok_def same_coreD(1,2) [of s s']
  by (elim conjE, intro conjI) (blast intro: le_trans)+

lemma relay_inv_same_core:
  assumes "relay_inv s" "same_core s s'" "frontier_ok s'"
    and "checkpoint_ready_through s' = None \<longleftrightarrow> checkpoint_ready_digest s' = None"
    and "checkpoint_ready_through s' \<noteq> None \<Longrightarrow> checkpoint_barrier s' \<noteq> None"
    and "\<And>n. checkpoint_ready_through s' = Some n \<Longrightarrow> 0 < n \<and> n \<le> latest_ordinal s'"
  shows "relay_inv s'"
proof (rule relay_invI)
  note core = same_coreD [OF assms(2)] and inv = relay_invD [OF assms(1)]
  show "ledger_ok s'" by (rule ledger_ok_same_core [OF inv(1) assms(2)])
  show "queue_ok s'"
    using inv(2) unfolding queue_ok_def queue_order_def accepted_ordinal_of_def core .
  show "turn_ok s'" using inv(3) unfolding turn_ok_def core .
  show "barrier_ok s'" using inv(4) assms(4-6) unfolding barrier_ok_def core by blast
  show "close_ok s'" using inv(5) unfolding close_ok_def core .
  show "shell_ok s'" using inv(6) unfolding shell_ok_def core .
  show "frontier_ok s'" by fact
qed

section \<open>Steps that finish commands\<close>

text \<open>
  The commands of \<open>R\<close> finish at ordinal \<open>n\<close>. Whatever names such a command lets go of it: the
  queue, the running turn, the barrier and the active shells.
\<close>

definition ledger_retires :: "string set \<Rightarrow> u64 \<Rightarrow> relay_snapshot \<Rightarrow> relay_snapshot \<Rightarrow> bool" where
  "ledger_retires R n s s' \<longleftrightarrow>
     (bt_wf (dispatches s) \<longrightarrow> bt_wf (dispatches s'))
     \<and> (bt_wf (handled_commands s) \<longrightarrow> bt_wf (handled_commands s'))
     \<and> (\<forall>c. entry s' c = (if c \<in> R then map_option (\<lambda>e. (fst e, Done)) (entry s c) else entry s c))
     \<and> (\<forall>c. bt_get (handled_commands s') c =
          (if c \<in> R then map_option (h_terminal_ordinal_update (\<lambda>_. Some n)) (bt_get (handled_commands s) c)
           else bt_get (handled_commands s) c))
     \<and> latest_ordinal s \<le> n \<and> latest_ordinal s' = n"

definition lets_go :: "string set \<Rightarrow> relay_snapshot \<Rightarrow> relay_snapshot \<Rightarrow> bool" where
  "lets_go R s s' \<longleftrightarrow>
     queued_prompts s' = filter (\<lambda>q. q_command_id q \<notin> R) (queued_prompts s)
     \<and> active_prompt s' = (case active_prompt s of
          Some a \<Rightarrow> if ap_command_id a \<in> R then None else Some a | None \<Rightarrow> None)
     \<and> checkpoint_barrier s' = (case checkpoint_barrier s of
          Some b \<Rightarrow> if b \<in> R then None else Some b | None \<Rightarrow> None)
     \<and> checkpoint_ready_through s' = (if checkpoint_barrier s' = None then None else checkpoint_ready_through s)
     \<and> checkpoint_ready_digest s' = (if checkpoint_barrier s' = None then None else checkpoint_ready_digest s)
     \<and> (bt_wf (active_user_shells s) \<longrightarrow> bt_wf (active_user_shells s'))
     \<and> (\<forall>c. bt_get (active_user_shells s') c =
              (if c \<in> R then None else bt_get (active_user_shells s) c))"

definition execution_after :: "string set \<Rightarrow> relay_snapshot \<Rightarrow> relay_snapshot \<Rightarrow> bool" where
  "execution_after R s s' \<longleftrightarrow>
     (if \<exists>a. active_prompt s = Some a \<and> ap_command_id a \<in> R then execution s' = ExIdle
      else if \<exists>c \<in> R. \<exists>b e ph. entry s c = Some (Close b e, ph) \<and> ph \<noteq> Done
      then execution s' = ExIdle \<or> execution s' = ExClosed
      else execution s' = execution s)"

lemma ledger_retiresD:
  assumes "ledger_retires R n s s'"
  shows "entry s' c = (if c \<in> R then map_option (\<lambda>e. (fst e, Done)) (entry s c) else entry s c)"
    and "c \<notin> R \<Longrightarrow> entry s' c = entry s c"
    and "entry s' c = Some (cmd, ph) \<Longrightarrow> ph \<noteq> Done \<Longrightarrow> c \<notin> R \<and> entry s c = Some (cmd, ph)"
    and "bt_get (handled_commands s') c =
          (if c \<in> R then map_option (h_terminal_ordinal_update (\<lambda>_. Some n)) (bt_get (handled_commands s) c)
           else bt_get (handled_commands s) c)"
    and "accepted_ordinal_of s' c = accepted_ordinal_of s c"
    and "bt_wf (dispatches s) \<Longrightarrow> bt_wf (dispatches s')"
    and "bt_wf (handled_commands s) \<Longrightarrow> bt_wf (handled_commands s')"
    and "latest_ordinal s \<le> n" "latest_ordinal s' = n"
proof -
  note ret = assms [unfolded ledger_retires_def]
  show e: "entry s' c = (if c \<in> R then map_option (\<lambda>e. (fst e, Done)) (entry s c) else entry s c)"
    and h: "bt_get (handled_commands s') c =
          (if c \<in> R then map_option (h_terminal_ordinal_update (\<lambda>_. Some n)) (bt_get (handled_commands s) c)
           else bt_get (handled_commands s) c)" for c
    using ret by blast+
  show "c \<notin> R \<Longrightarrow> entry s' c = entry s c" by (simp add: e)
  show "entry s' c = Some (cmd, ph) \<Longrightarrow> ph \<noteq> Done \<Longrightarrow> c \<notin> R \<and> entry s c = Some (cmd, ph)"
    by (auto simp: e split: if_splits)
  show "accepted_ordinal_of s' c = accepted_ordinal_of s c"
    by (cases "bt_get (handled_commands s) c") (simp_all add: accepted_ordinal_of_def h)
  show "bt_wf (dispatches s) \<Longrightarrow> bt_wf (dispatches s')"
    "bt_wf (handled_commands s) \<Longrightarrow> bt_wf (handled_commands s')"
    "latest_ordinal s \<le> n" "latest_ordinal s' = n"
    using ret by blast+
qed

lemma ledger_ok_retires:
  assumes "ledger_ok s" "ledger_retires R n s s'"
  shows "ledger_ok s'"
  unfolding ledger_ok_def
proof (intro conjI allI impI)
  note led = ledger_okD [OF assms(1)] and ret = ledger_retiresD [OF assms(2)]
  show "bt_wf (dispatches s')" "bt_wf (handled_commands s')" using led(1,2) ret(6,7) by simp_all
  show "entry s' cid = None \<longleftrightarrow> bt_get (handled_commands s') cid = None" for cid
    using led(3) [of cid] by (simp add: ret(1) ret(4))
  fix cid h
  assume h: "bt_get (handled_commands s') cid = Some h"
  then obtain h0 where h0: "bt_get (handled_commands s) cid = Some h0"
    and eq: "h = (if cid \<in> R then h0\<lparr>h_terminal_ordinal := Some n\<rparr> else h0)"
    unfolding ret(4) by (auto split: if_splits)
  from led(4) [OF h0] obtain ph where ph: "entry s cid = Some (h_command h0, ph)"
    "ph = Done \<longleftrightarrow> h_terminal_ordinal h0 \<noteq> None" by blast
  then show "\<exists>ph. entry s' cid = Some (h_command h, ph) \<and> (ph = Done \<longleftrightarrow> h_terminal_ordinal h \<noteq> None)"
    by (simp add: ret(1) eq)
  from led(5) [OF h0] ret(8) show "h_accepted_ordinal h \<le> latest_ordinal s'"
    by (simp add: eq ret(9))
  fix t assume "h_terminal_ordinal h = Some t"
  with led(5,6) [OF h0] ret(8) show "h_accepted_ordinal h \<le> t" "t \<le> latest_ordinal s'"
    by (auto simp: eq ret(9) split: if_splits)
qed

lemma sorted_map_filter_eq:
  assumes "sorted (map g xs)" "\<And>x. x \<in> set xs \<Longrightarrow> h x = g x"
  shows "sorted (map h (filter P xs))"
proof -
  have "map h (filter P xs) = map g (filter P xs)" using assms(2) by (intro map_cong) auto
  then show ?thesis using sorted_filter [OF assms(1), of P] by (simp only:)
qed

lemma queue_ok_retires:
  assumes "queue_ok s" "ledger_retires R n s s'" "lets_go R s s'"
  shows "queue_ok s'"
proof -
  note ret = ledger_retiresD [OF assms(2)] and q = queue_okD [OF assms(1)]
  have queue: "queued_prompts s' = filter (\<lambda>q. q_command_id q \<notin> R) (queued_prompts s)"
    using assms(3) unfolding lets_go_def by blast
  show ?thesis
    unfolding queue_ok_def
  proof (intro conjI ballI allI impI)
    show "distinct (map q_command_id (queued_prompts s'))"
      unfolding queue by (rule distinct_map_filter [OF q(1)])
    show "\<exists>cmd. entry s' (q_command_id x) = Some (cmd, Waiting) \<and> queue_payload cmd = Some (q_payload x)"
      if "x \<in> set (queued_prompts s')" for x
      using that q(2) [of x] ret(2) [of "q_command_id x"] unfolding queue by auto
    show "cid \<in> q_command_id ` set (queued_prompts s')"
      if "entry s' cid = Some (cmd, Waiting)" "is_queue_entry cmd" for cid cmd
    proof -
      from ret(3) [OF that(1)] have "cid \<notin> R" "entry s cid = Some (cmd, Waiting)" by simp_all
      with q(3) [OF this(2) that(2)] show ?thesis unfolding queue by auto
    qed
    show "sorted (queue_order s')"
      unfolding queue_order_def queue
      by (rule sorted_map_filter_eq [OF q(4) [unfolded queue_order_def]]) (simp add: ret(5))
  qed
qed

lemma close_ok_retires:
  assumes "close_ok s" "turn_ok s" "ledger_retires R n s s'" "execution_after R s s'"
  shows "close_ok s'"
proof -
  note ret = ledger_retiresD [OF assms(3)] and cl = close_okD [OF assms(1)]
  have keep: "execution s' = ExClosing"
    if c: "entry s' cid = Some (Close b e, ph)" "ph \<noteq> Done" for cid b e ph
  proof -
    from ret(3) [OF c] have old: "cid \<notin> R" "entry s cid = Some (Close b e, ph)" by simp_all
    from cl(1) [OF old(2) c(2)] have closing: "execution s = ExClosing" .
    with turn_okD(4) [OF assms(2)] have "active_prompt s = None" by simp
    moreover have "\<not> (\<exists>c \<in> R. \<exists>b e ph. entry s c = Some (Close b e, ph) \<and> ph \<noteq> Done)"
      using cl(2) [OF old(2) c(2)] old(1) by metis
    ultimately show ?thesis using assms(4) closing unfolding execution_after_def by simp
  qed
  have some: "\<exists>cid b e ph. entry s' cid = Some (Close b e, ph) \<and> ph \<noteq> Done"
    if closing: "execution s' = ExClosing"
  proof -
    from closing assms(4) have same: "execution s = ExClosing"
      and none: "\<not> (\<exists>c \<in> R. \<exists>b e ph. entry s c = Some (Close b e, ph) \<and> ph \<noteq> Done)"
      unfolding execution_after_def by (auto split: if_splits)
    from cl(3) [OF same] obtain cid b e ph where c: "entry s cid = Some (Close b e, ph)" "ph \<noteq> Done" by blast
    with none have "cid \<notin> R" by blast
    from ret(2) [OF this] c show ?thesis by auto
  qed
  show ?thesis
    unfolding close_ok_def
    by (intro conjI allI impI) (erule (1) keep, metis cl(2) ret(3), erule some)
qed

lemma turn_ok_retires:
  assumes "turn_ok s" "close_ok s" "ledger_retires R n s s'" "lets_go R s s'" "execution_after R s s'"
  shows "turn_ok s'"
proof -
  note ret = ledger_retiresD [OF assms(3)] and t = turn_okD [OF assms(1)]
  have active: "active_prompt s' = (case active_prompt s of
      Some a \<Rightarrow> if ap_command_id a \<in> R then None else Some a | None \<Rightarrow> None)"
    using assms(4) unfolding lets_go_def by blast
  have a1: "entry s' (ap_command_id a) = Some (Prompt (ap_prompt a), Started)"
    if "active_prompt s' = Some a" for a
  proof -
    from that have "active_prompt s = Some a" "ap_command_id a \<notin> R"
      unfolding active by (auto split: option.splits if_splits)
    from t(1) [OF this(1)] ret(2) [OF this(2)] show ?thesis by simp
  qed
  have a2: "map_option ap_command_id (active_prompt s') = Some cid"
    if "entry s' cid = Some (Prompt p, Started)" for cid p
  proof -
    from ret(3) [OF that] have "cid \<notin> R" "entry s cid = Some (Prompt p, Started)" by simp_all
    with t(2) [OF this(2)] show ?thesis unfolding active by auto
  qed
  have a4: "execution s' = ExRunning \<longleftrightarrow> active_prompt s' \<noteq> None"
  proof (cases "\<exists>a. active_prompt s = Some a \<and> ap_command_id a \<in> R")
    case True
    with assms(5) have "execution s' = ExIdle" unfolding execution_after_def by simp
    with True active show ?thesis by auto
  next
    case False
    with active have same: "active_prompt s' = active_prompt s" by (auto split: option.splits)
    show ?thesis
    proof (cases "\<exists>c \<in> R. \<exists>b e ph. entry s c = Some (Close b e, ph) \<and> ph \<noteq> Done")
      case True
      with close_okD(1) [OF assms(2)] have "execution s = ExClosing" by blast
      with t(4) have "active_prompt s = None" by simp
      moreover from True False assms(5) have "execution s' = ExIdle \<or> execution s' = ExClosed"
        unfolding execution_after_def by simp
      ultimately show ?thesis using same by auto
    next
      case none: False
      with False assms(5) have "execution s' = execution s" unfolding execution_after_def by simp
      with t(4) same show ?thesis by simp
    qed
  qed
  show ?thesis
    unfolding turn_ok_def
    by (intro conjI a4 allI impI) (erule a1, erule a2, metis phase.distinct(5) ret(3) t(3))
qed

lemma barrier_ok_retires:
  assumes "barrier_ok s" "ledger_retires R n s s'" "lets_go R s s'"
  shows "barrier_ok s'"
proof -
  note ret = ledger_retiresD [OF assms(2)] and br = barrier_okD [OF assms(1)]
  have barrier: "checkpoint_barrier s' = (case checkpoint_barrier s of
      Some b \<Rightarrow> if b \<in> R then None else Some b | None \<Rightarrow> None)"
    and ready: "checkpoint_ready_through s' = (if checkpoint_barrier s' = None then None else checkpoint_ready_through s)"
      "checkpoint_ready_digest s' = (if checkpoint_barrier s' = None then None else checkpoint_ready_digest s)"
    using assms(3) unfolding lets_go_def by blast+
  have old: "checkpoint_barrier s = Some b" "b \<notin> R" if "checkpoint_barrier s' = Some b" for b
    using that unfolding barrier by (auto split: option.splits if_splits)
  have b3: "checkpoint_barrier s' = Some cid" if "entry s' cid = Some (BeginCheckpoint r, Started)" for cid r
  proof -
    from ret(3) [OF that] have "cid \<notin> R" "entry s cid = Some (BeginCheckpoint r, Started)" by simp_all
    with br(3) [OF this(2)] show ?thesis unfolding barrier by simp
  qed
  have b6: "0 < m \<and> m \<le> latest_ordinal s'" if "checkpoint_ready_through s' = Some m" for m
    using that br(6) [of m] ret(8,9) by (simp add: ready split: if_splits)
  show ?thesis
    unfolding barrier_ok_def
  proof (intro conjI allI impI)
    show "\<exists>r. entry s' b = Some (BeginCheckpoint r, Started)" if "checkpoint_barrier s' = Some b" for b
      using br(1) [OF old(1) [OF that]] ret(2) [OF old(2) [OF that]] by simp
    show "\<not> is_effectful cmd" if "checkpoint_barrier s' = Some b" "entry s' cid = Some (cmd, Started)" for b cid cmd
      using br(2) [OF old(1) [OF that(1)]] ret(3) [OF that(2)] by blast
    show "(checkpoint_ready_through s' = None) = (checkpoint_ready_digest s' = None)"
      using br(4) by (simp add: ready)
    show "checkpoint_barrier s' \<noteq> None" if "checkpoint_ready_through s' \<noteq> None"
      using that unfolding ready by presburger
  qed (use b3 b6 in blast)+
qed

lemma shell_ok_retires:
  assumes "shell_ok s" "ledger_retires R n s s'" "lets_go R s s'"
  shows "shell_ok s'"
  unfolding shell_ok_def
proof (intro conjI allI)
  note ret = ledger_retiresD [OF assms(2)] and sh = shell_okD [OF assms(1)]
  show "bt_wf (active_user_shells s')" using assms(3) sh(1) unfolding lets_go_def by blast
  fix cid
  have get: "bt_get (active_user_shells s') cid = (if cid \<in> R then None else bt_get (active_user_shells s) cid)"
    using assms(3) unfolding lets_go_def by blast
  show "(bt_get (active_user_shells s') cid \<noteq> None) = (\<exists>c ph. entry s' cid = Some (RunUserShell c, ph) \<and> ph \<noteq> Done)"
  proof (cases "cid \<in> R")
    case True
    then have "\<not> (\<exists>c ph. entry s' cid = Some (RunUserShell c, ph) \<and> ph \<noteq> Done)" using ret(3) by blast
    with True show ?thesis unfolding get by simp
  next
    case False
    show ?thesis unfolding get if_not_P [OF False] ret(2) [OF False] by (rule sh(2))
  qed
  show "bt_get (active_user_shells s') cid = Some x \<longrightarrow> sh_command_id x = cid" for x
    unfolding get using sh(3) by simp
qed

lemma frontier_ok_retires:
  assumes "frontier_ok s" "ledger_retires R n s s'" "n \<le> u64_max" "is_hex_digest (latest_digest s')"
    and "acknowledged_through s' = acknowledged_through s" "recovery_floor_ordinal s' \<le> n"
  shows "frontier_ok s'"
proof -
  note ret = ledger_retiresD [OF assms(2)] and fr = frontier_okD [OF assms(1)]
  have "cur_ordinal t \<le> n" if "entry s' cid = Some (AdvanceRecoveryFloor t, ph)" "ph \<noteq> Done" for cid t ph
    using fr(5) ret(3) [OF that] that(2) ret(8) by (meson le_trans)
  with fr(1) assms(3-6) ret(8,9) show ?thesis unfolding frontier_ok_def by auto
qed

lemma relay_inv_retires:
  assumes "relay_inv s" "ledger_retires R n s s'" "lets_go R s s'" "execution_after R s s'"
    and "n \<le> u64_max" "is_hex_digest (latest_digest s')"
    and "acknowledged_through s' = acknowledged_through s" "recovery_floor_ordinal s' \<le> n"
  shows "relay_inv s'"
proof (rule relay_invI)
  note inv = relay_invD [OF assms(1)]
  show "ledger_ok s'" by (rule ledger_ok_retires [OF inv(1) assms(2)])
  show "queue_ok s'" by (rule queue_ok_retires [OF inv(2) assms(2,3)])
  show "turn_ok s'" by (rule turn_ok_retires [OF inv(3,5) assms(2-4)])
  show "barrier_ok s'" by (rule barrier_ok_retires [OF inv(4) assms(2,3)])
  show "close_ok s'" by (rule close_ok_retires [OF inv(5,3) assms(2,4)])
  show "shell_ok s'" by (rule shell_ok_retires [OF inv(6) assms(2,3)])
  show "frontier_ok s'" by (rule frontier_ok_retires [OF inv(7) assms(2,5-8)])
qed

section \<open>Steps that forget finished commands\<close>

lemma entry_prune:
  "entry (prune_commands cids s) c = (if c \<in> set cids then None else entry s c)"
  by (simp add: entry_def prune_commands_def bt.get_fold_del)

lemma prunable_done:
  assumes "ledger_ok s" "c \<in> set (prunable_command_ids s through)"
  shows "\<exists>cmd. entry s c = Some (cmd, Done)"
proof -
  from assms(2) obtain h t where "(c, h) \<in> set (handled_commands s)" "h_terminal_ordinal h = Some t"
    by (auto simp: prunable_command_ids_def split: option.splits)
  moreover from this ledger_okD(2) [OF assms(1)] have "bt_get (handled_commands s) c = Some h"
    by (simp add: bt_mem_iff)
  ultimately show ?thesis using ledger_okD(4) [OF assms(1)] by fastforce
qed

lemma entry_prune_live:
  assumes "ledger_ok s" "s' = prune_commands (prunable_command_ids s through) s"
  shows "entry s' c = Some (cmd, ph) \<Longrightarrow> entry s c = Some (cmd, ph)"
    and "ph \<noteq> Done \<Longrightarrow> entry s c = Some (cmd, ph) \<Longrightarrow> entry s' c = Some (cmd, ph)"
  using prunable_done [OF assms(1), of c through] unfolding assms(2) by (auto simp: entry_prune split: if_splits)

end
