(* ===== verification/Relay_Preservation.thy ===== *)
theory Relay_Preservation
  imports Relay_Invariant
begin

text \<open>
  Every step of the machine keeps the invariant: forgetting, accepting, starting and finishing
  commands, event by event, and the steps that bypass the journal.
\<close>

section \<open>Forgetting\<close>

lemma relay_inv_prune:
  assumes "relay_inv s"
  shows "relay_inv (prune_commands (prunable_command_ids s through) s)" (is "relay_inv ?s'")
proof (rule relay_invI)
  note inv = relay_invD [OF assms] and led = ledger_okD [OF relay_invD(1) [OF assms]]
  let ?P = "set (prunable_command_ids s through)"
  note live = entry_prune_live [where through = through, OF inv(1) refl]
  have frame: "queued_prompts ?s' = queued_prompts s" "active_prompt ?s' = active_prompt s"
    "execution ?s' = execution s" "checkpoint_barrier ?s' = checkpoint_barrier s"
    "checkpoint_ready_through ?s' = checkpoint_ready_through s"
    "checkpoint_ready_digest ?s' = checkpoint_ready_digest s"
    "active_user_shells ?s' = active_user_shells s" "latest_ordinal ?s' = latest_ordinal s"
    "latest_digest ?s' = latest_digest s" "acknowledged_through ?s' = acknowledged_through s"
    "recovery_floor_ordinal ?s' = recovery_floor_ordinal s"
    by (simp_all add: prune_commands_def)
  have handled: "bt_get (handled_commands ?s') c = (if c \<in> ?P then None else bt_get (handled_commands s) c)" for c
    by (simp add: prune_commands_def bt.get_fold_del)
  have wf: "bt_wf (dispatches ?s')" "bt_wf (handled_commands ?s')"
    using led(1,2) by (simp_all add: prune_commands_def bt.wf_fold_del)
  have dom: "entry ?s' c = None \<longleftrightarrow> bt_get (handled_commands ?s') c = None" for c
    using led(3) [of c] by (simp add: entry_prune handled)
  have row: "(\<exists>ph. entry ?s' c = Some (h_command h, ph) \<and> (ph = Done \<longleftrightarrow> h_terminal_ordinal h \<noteq> None))
      \<and> h_accepted_ordinal h \<le> latest_ordinal s
      \<and> (\<forall>t. h_terminal_ordinal h = Some t \<longrightarrow> h_accepted_ordinal h \<le> t \<and> t \<le> latest_ordinal s)"
    if "bt_get (handled_commands ?s') c = Some h" for c h
  proof -
    from that have "c \<notin> ?P" "bt_get (handled_commands s) c = Some h" by (simp_all add: handled split: if_splits)
    with led(4-6) [OF this(2)] show ?thesis by (simp add: entry_prune)
  qed
  from wf dom row show "ledger_ok ?s'" unfolding ledger_ok_def frame by blast
  have waiting: "entry ?s' c = Some (cmd, Waiting) \<longleftrightarrow> entry s c = Some (cmd, Waiting)"
    and started: "entry ?s' c = Some (cmd, Started) \<longleftrightarrow> entry s c = Some (cmd, Started)" for c cmd
    using live by blast+
  have undone: "entry ?s' c = Some (cmd, ph) \<and> ph \<noteq> Done \<longleftrightarrow> entry s c = Some (cmd, ph) \<and> ph \<noteq> Done"
    for c cmd ph
    using live by blast
  have order: "accepted_ordinal_of ?s' (q_command_id q) = accepted_ordinal_of s (q_command_id q)"
    if "q \<in> set (queued_prompts s)" for q
    using queue_okD(2) [OF inv(2) that] prunable_done [OF inv(1), of "q_command_id q" through]
    by (auto simp: accepted_ordinal_of_def handled)
  have "queue_order ?s' = queue_order s"
    unfolding queue_order_def frame by (rule map_cong [OF refl]) (simp add: order)
  with inv(2) show "queue_ok ?s'" unfolding queue_ok_def frame waiting by simp
  from inv(3) show "turn_ok ?s'" unfolding turn_ok_def frame started .
  from inv(4) show "barrier_ok ?s'" unfolding barrier_ok_def frame started .
  from inv(5) show "close_ok ?s'" unfolding close_ok_def frame undone using undone by meson
  from inv(6) show "shell_ok ?s'" unfolding shell_ok_def frame undone .
  from inv(7) show "frontier_ok ?s'" unfolding frontier_ok_def frame using undone by blast
qed

section \<open>Accepting\<close>

lemma advance_frontier_sel [simp]:
  "latest_ordinal (advance_frontier ev s) = ev_ordinal ev"
  "latest_digest (advance_frontier ev s) = ev_digest ev"
  "dispatches (advance_frontier ev s) = dispatches s"
  "handled_commands (advance_frontier ev s) = handled_commands s"
  "queued_prompts (advance_frontier ev s) = queued_prompts s"
  "active_prompt (advance_frontier ev s) = active_prompt s"
  "execution (advance_frontier ev s) = execution s"
  "checkpoint_barrier (advance_frontier ev s) = checkpoint_barrier s"
  "checkpoint_ready_through (advance_frontier ev s) = checkpoint_ready_through s"
  "checkpoint_ready_digest (advance_frontier ev s) = checkpoint_ready_digest s"
  "active_user_shells (advance_frontier ev s) = active_user_shells s"
  "acknowledged_through (advance_frontier ev s) = acknowledged_through s"
  "recovery_floor_ordinal (advance_frontier ev s) = recovery_floor_ordinal s"
  "recovery_floor_digest (advance_frontier ev s) = recovery_floor_digest s"
  by (simp_all add: advance_frontier_def)

lemma entry_advance [simp]: "entry (advance_frontier ev s) = entry s"
  by (simp add: entry_def fun_eq_iff)

lemma apply_command_queued_sel:
  assumes "s' = apply_command_queued n cid cmd created s"
  shows "dispatches s' = bt_insert cid \<lparr>d_command = cmd, d_state = DQueued\<rparr> (dispatches s)"
    "handled_commands s' = bt_insert cid \<lparr>h_command = cmd, h_accepted_ordinal = n,
        h_terminal_ordinal = None\<rparr> (handled_commands s)"
    "queued_prompts s' = queued_prompts s @ (case queue_payload cmd of
        Some p \<Rightarrow> [\<lparr>q_command_id = cid, q_payload = p, q_created_at_ms = created\<rparr>] | None \<Rightarrow> [])"
    "active_user_shells s' = (case cmd of
        RunUserShell c \<Rightarrow> bt_insert cid \<lparr>sh_command_id = cid, sh_command = c,
          sh_created_at_ms = created, sh_started_at_ms = None\<rparr> (active_user_shells s)
      | _ \<Rightarrow> active_user_shells s)"
    "execution s' = (if is_close cmd then ExClosing else execution s)"
    "active_prompt s' = active_prompt s" "checkpoint_barrier s' = checkpoint_barrier s"
    "checkpoint_ready_through s' = checkpoint_ready_through s"
    "checkpoint_ready_digest s' = checkpoint_ready_digest s"
    "acknowledged_through s' = acknowledged_through s"
    "recovery_floor_ordinal s' = recovery_floor_ordinal s"
    "recovery_floor_digest s' = recovery_floor_digest s"
  unfolding assms by (cases cmd; simp add: apply_command_queued_def)+

lemma queue_payload_iff: "is_queue_entry cmd \<longleftrightarrow> queue_payload cmd \<noteq> None"
  by (cases cmd) simp_all

lemma effectful_started_when_active:
  assumes "turn_ok s" "barrier_ok s" "checkpoint_barrier s = Some b"
  shows "active_prompt s = None"
proof (cases "active_prompt s")
  case (Some a)
  from turn_okD(1) [OF assms(1) Some] barrier_okD(2) [OF assms(2,3)] show ?thesis
    by (force simp: is_effectful_def)
qed simp

text \<open>What the guard of an accepted command gives.\<close>

lemma queue_guardD:
  assumes "queue_guard s cid cmd" "ledger_ok s"
  shows "entry s cid = None" "bt_get (handled_commands s) cid = None"
    and "cmd = AdvanceRecoveryFloor t \<Longrightarrow> cur_ordinal t \<le> latest_ordinal s"
    and "is_close cmd \<Longrightarrow> checkpoint_barrier s \<noteq> None \<and> execution s \<noteq> ExClosing \<and> execution s \<noteq> ExClosed"
    and "execution s = ExClosing \<or> execution s = ExClosed \<Longrightarrow> \<exists>b. cmd = CompleteCheckpoint b"
proof -
  note g = assms(1) [unfolded queue_guard_def]
  show "bt_get (handled_commands s) cid = None" using g by (simp add: bt_contains_def)
  with ledger_okD(3) [OF assms(2)] show "entry s cid = None" by simp
  show "cmd = AdvanceRecoveryFloor t \<Longrightarrow> cur_ordinal t \<le> latest_ordinal s" using g by simp
  have shape: "completes_pending_close s cmd \<Longrightarrow> \<exists>b. cmd = CompleteCheckpoint b"
    by (auto simp: completes_pending_close_def split: option.splits relay_command.splits)
  show "execution s = ExClosing \<or> execution s = ExClosed \<Longrightarrow> \<exists>b. cmd = CompleteCheckpoint b"
    using g shape by (auto simp: submit_refusal_def split: if_splits)
  show "checkpoint_barrier s \<noteq> None \<and> execution s \<noteq> ExClosing \<and> execution s \<noteq> ExClosed" if close: "is_close cmd"
  proof -
    from close obtain b e where cmd: "cmd = Close b e" by (cases cmd) auto
    with shape have "\<not> completes_pending_close s cmd" by blast
    with g cmd show ?thesis by (auto simp: submit_refusal_def exact_cut_def split: if_splits)
  qed
qed

lemma accepts_ledger:
  assumes led: "ledger_ok s" and new: "entry s cid = None"
    and s': "s' = advance_frontier ev (apply_command_queued (ev_ordinal ev) cid cmd created s)"
    and n: "latest_ordinal s \<le> ev_ordinal ev"
  shows "ledger_ok s'" and "entry s' c = (if c = cid then Some (cmd, Waiting) else entry s c)"
    and "accepted_ordinal_of s' c = (if c = cid then Some (ev_ordinal ev) else accepted_ordinal_of s c)"
proof -
  note sel = apply_command_queued_sel [OF refl, of "ev_ordinal ev" cid cmd created s]
  show e: "entry s' c = (if c = cid then Some (cmd, Waiting) else entry s c)" for c
    by (simp add: s' entry_def sel)
  have h: "bt_get (handled_commands s') c = (if c = cid then
      Some \<lparr>h_command = cmd, h_accepted_ordinal = ev_ordinal ev, h_terminal_ordinal = None\<rparr>
      else bt_get (handled_commands s) c)" for c
    by (simp add: s' sel)
  have lat: "latest_ordinal s' = ev_ordinal ev" by (simp add: s')
  show "accepted_ordinal_of s' c = (if c = cid then Some (ev_ordinal ev) else accepted_ordinal_of s c)"
    by (simp add: accepted_ordinal_of_def h)
  show "ledger_ok s'"
    unfolding ledger_ok_def
  proof (intro conjI allI impI)
    show "bt_wf (dispatches s')" "bt_wf (handled_commands s')"
      using ledger_okD(1,2) [OF led] by (simp_all add: s' sel)
    show "(entry s' c = None) = (bt_get (handled_commands s') c = None)" for c
      using ledger_okD(3) [OF led, of c] by (simp add: e h)
    fix c r assume r: "bt_get (handled_commands s') c = Some r"
    show "\<exists>ph. entry s' c = Some (h_command r, ph) \<and> (ph = Done) = (h_terminal_ordinal r \<noteq> None)"
      using r ledger_okD(4) [OF led, of c r] by (auto simp: e h split: if_splits)
    show "h_accepted_ordinal r \<le> latest_ordinal s'"
      using r ledger_okD(5) [OF led, of c r] n by (auto simp: h lat split: if_splits)
    fix t assume "h_terminal_ordinal r = Some t"
    with r ledger_okD(6) [OF led, of c r t] n
    show "h_accepted_ordinal r \<le> t" "t \<le> latest_ordinal s'" by (auto simp: h lat split: if_splits)
  qed
qed

lemma queue_order_append:
  assumes "sorted (map g xs)" "\<And>x. x \<in> set xs \<Longrightarrow> h x = g x \<and> g x \<le> n" "\<And>y. y \<in> set ys \<Longrightarrow> h y = n"
    "length ys \<le> 1"
  shows "sorted (map h (xs @ ys))"
proof -
  have eq: "map h xs = map g xs" using assms(2) by simp
  have "sorted (map h ys)" using assms(4) by (cases ys) auto
  then show ?thesis using assms(1-3) unfolding map_append eq by (auto simp: sorted_append)
qed

lemma accepts_queue:
  assumes led: "ledger_ok s" and q: "queue_ok s" and new: "entry s cid = None"
    and s': "s' = advance_frontier ev (apply_command_queued (ev_ordinal ev) cid cmd created s)"
    and n: "latest_ordinal s \<le> ev_ordinal ev"
  shows "queue_ok s'"
proof -
  note acc = accepts_ledger(2,3) [OF led new s' n] and qD = queue_okD [OF q]
  define tail where "tail = (case queue_payload cmd of
        Some p \<Rightarrow> [\<lparr>q_command_id = cid, q_payload = p, q_created_at_ms = created\<rparr>] | None \<Rightarrow> [])"
  have queue: "queued_prompts s' = queued_prompts s @ tail"
    by (simp add: s' tail_def apply_command_queued_sel [OF refl])
  have tail: "x \<in> set tail \<Longrightarrow> q_command_id x = cid \<and> queue_payload cmd = Some (q_payload x)"
    "length tail \<le> 1" "is_queue_entry cmd \<Longrightarrow> cid \<in> q_command_id ` set tail" for x
    by (auto simp: tail_def queue_payload_iff split: option.splits)
  have old: "q_command_id x \<noteq> cid" if "x \<in> set (queued_prompts s)" for x
    using qD(2) [OF that] new by auto
  show ?thesis
    unfolding queue_ok_def queue
  proof (intro conjI ballI allI impI)
    have "distinct tail" "distinct (map q_command_id tail)" using tail(2) by (cases tail; auto)+
    with qD(1) tail(1) old show "distinct (map q_command_id (queued_prompts s @ tail))" by auto
    show "\<exists>c. entry s' (q_command_id x) = Some (c, Waiting) \<and> queue_payload c = Some (q_payload x)"
      if "x \<in> set (queued_prompts s @ tail)" for x
      using that tail(1) [of x] qD(2) [of x] old [of x] by (auto simp: acc)
    show "c \<in> q_command_id ` set (queued_prompts s @ tail)"
      if "entry s' c = Some (k, Waiting)" "is_queue_entry k" for c k
      using that tail(3) qD(3) [of c k] by (auto simp: acc split: if_splits)
    have ord: "(case accepted_ordinal_of s (q_command_id x) of None \<Rightarrow> 0 | Some m \<Rightarrow> m) \<le> ev_ordinal ev" for x
      using ledger_okD(5) [OF led] n by (auto simp: accepted_ordinal_of_def split: option.splits intro: le_trans)
    show "sorted (queue_order s')"
      unfolding queue_order_def queue
      by (rule queue_order_append [OF qD(4) [unfolded queue_order_def] _ _ tail(2)])
         (use ord old tail(1) in \<open>auto simp: acc\<close>)
  qed
qed

lemma relay_inv_accepts:
  assumes inv: "relay_inv s" and guard: "queue_guard s cid cmd"
    and s': "s' = advance_frontier ev (apply_command_queued (ev_ordinal ev) cid cmd created s)"
    and n: "ev_ordinal ev = Suc (latest_ordinal s)" "ev_ordinal ev \<le> u64_max" "is_hex_digest (ev_digest ev)"
  shows "relay_inv s'"
proof (rule relay_invI)
  note part = relay_invD [OF inv] and sel = apply_command_queued_sel [OF refl, of "ev_ordinal ev" cid cmd created s]
  note g = queue_guardD [OF guard part(1)]
  have le: "latest_ordinal s \<le> ev_ordinal ev" using n(1) by simp
  note acc = accepts_ledger [OF part(1) g(1) s' le]
  show "ledger_ok s'" by (rule acc(1))
  show "queue_ok s'" by (rule accepts_queue [OF part(1,2) g(1) s' le])
  have started: "entry s' c = Some (k, Started) \<longleftrightarrow> entry s c = Some (k, Started)" for c k
    using g(1) by (simp add: acc(2))
  have frame: "active_prompt s' = active_prompt s" "checkpoint_barrier s' = checkpoint_barrier s"
    "checkpoint_ready_through s' = checkpoint_ready_through s"
    "checkpoint_ready_digest s' = checkpoint_ready_digest s"
    "execution s' = (if is_close cmd then ExClosing else execution s)"
    "latest_ordinal s' = ev_ordinal ev" "latest_digest s' = ev_digest ev"
    "acknowledged_through s' = acknowledged_through s" "recovery_floor_ordinal s' = recovery_floor_ordinal s"
    by (simp_all add: s' sel)
  have idle: "is_close cmd \<Longrightarrow> active_prompt s = None"
    using g(4) effectful_started_when_active [OF part(3,4)] by blast
  from idle turn_okD(4) [OF part(3)]
  have "(execution s' = ExRunning) = (active_prompt s' \<noteq> None)" by (auto simp: frame)
  with turn_okD(1-3) [OF part(3)] show "turn_ok s'" unfolding turn_ok_def frame started by blast
  from barrier_okD [OF part(4)] le show "barrier_ok s'"
    unfolding barrier_ok_def frame started by (blast intro: le_trans)
  show "close_ok s'"
  proof (cases "is_close cmd")
    case True
    then obtain b e where cmd: "cmd = Close b e" by (cases cmd) auto
    have "\<not> (entry s c = Some (Close b' e', ph) \<and> ph \<noteq> Done)" for c b' e' ph
      using close_okD(1) [OF part(5)] g(4) [OF True] by blast
    then have only: "entry s' c = Some (Close b' e', ph) \<and> ph \<noteq> Done \<longleftrightarrow> c = cid \<and> b' = b \<and> e' = e \<and> ph = Waiting"
      for c b' e' ph by (auto simp: acc(2) cmd)
    show ?thesis
      unfolding close_ok_def frame if_P [OF True] by (intro conjI allI impI refl) (metis only)+
  next
    case False
    then have "entry s' c = Some (Close b e, ph) \<longleftrightarrow> entry s c = Some (Close b e, ph)" for c b e ph
      using g(1) by (auto simp: acc(2))
    with part(5) False show ?thesis unfolding close_ok_def frame by simp
  qed
  show "shell_ok s'"
    unfolding shell_ok_def
  proof (intro conjI allI)
    show "bt_wf (active_user_shells s')"
      using shell_okD(1) [OF part(6)] by (simp add: s' sel split: relay_command.split)
    show "(bt_get (active_user_shells s') c \<noteq> None) = (\<exists>k ph. entry s' c = Some (RunUserShell k, ph) \<and> ph \<noteq> Done)" for c
    proof (cases "c = cid")
      case True
      have "bt_get (active_user_shells s) cid = None" using shell_okD(2) [OF part(6), of cid] g(1) by simp
      moreover have "entry s' c = Some (cmd, Waiting)" using True by (simp add: acc(2))
      moreover have "active_user_shells s' = active_user_shells (apply_command_queued (ev_ordinal ev) cid cmd created s)"
        by (simp add: s')
      ultimately show ?thesis using True sel(4) by (cases cmd) simp_all
    next
      case False
      then have "bt_get (active_user_shells s') c = bt_get (active_user_shells s) c"
        unfolding s' advance_frontier_sel sel(4) by (auto split: relay_command.split)
      with False show ?thesis by (simp only: acc(2) if_False shell_okD(2) [OF part(6)])
    qed
    show "bt_get (active_user_shells s') c = Some sh \<longrightarrow> sh_command_id sh = c" for c sh
      unfolding s' advance_frontier_sel sel(4) using shell_okD(3) [OF part(6)] by (auto split: relay_command.split)
  qed
  show "frontier_ok s'"
    using frontier_okD [OF part(7)] g(3) n(2,3) le
    by (auto simp: frontier_ok_def frame acc(2) intro: le_trans split: if_splits)
qed

section \<open>Starting\<close>

text \<open>What starting the waiting command \<open>cmd\<close> does to the fields the invariant reads.\<close>

definition starts :: "string \<Rightarrow> relay_command \<Rightarrow> relay_snapshot \<Rightarrow> relay_snapshot \<Rightarrow> bool" where
  "starts cid cmd s s' \<longleftrightarrow>
     entry s cid = Some (cmd, Waiting)
     \<and> (\<forall>c. entry s' c = (if c = cid then Some (cmd, Started) else entry s c))
     \<and> (bt_wf (dispatches s) \<longrightarrow> bt_wf (dispatches s'))
     \<and> handled_commands s' = handled_commands s
     \<and> queued_prompts s' = (if is_queue_entry cmd then tl (queued_prompts s) else queued_prompts s)
     \<and> (is_queue_entry cmd \<longrightarrow> (\<exists>q rest. queued_prompts s = q # rest \<and> q_command_id q = cid))
     \<and> (is_prompt cmd \<longrightarrow> (\<exists>a. active_prompt s' = Some a \<and> ap_command_id a = cid \<and> cmd = Prompt (ap_prompt a)))
     \<and> (\<not> is_prompt cmd \<longrightarrow> active_prompt s' = active_prompt s)
     \<and> execution s' = (if is_prompt cmd then ExRunning else if is_close cmd then ExClosing else execution s)
     \<and> checkpoint_barrier s' = (if is_begin_checkpoint cmd then Some cid else checkpoint_barrier s)
     \<and> checkpoint_ready_through s' = (if is_begin_checkpoint cmd then None else checkpoint_ready_through s)
     \<and> checkpoint_ready_digest s' = (if is_begin_checkpoint cmd then None else checkpoint_ready_digest s)
     \<and> (bt_wf (active_user_shells s) \<longrightarrow> bt_wf (active_user_shells s'))
     \<and> (\<forall>c. map_option sh_command_id (bt_get (active_user_shells s') c)
              = map_option sh_command_id (bt_get (active_user_shells s) c))
     \<and> acknowledged_through s' = acknowledged_through s
     \<and> recovery_floor_ordinal s' = recovery_floor_ordinal s
     \<and> latest_ordinal s \<le> latest_ordinal s'"

lemma startsD:
  assumes "starts cid cmd s s'"
  shows "entry s cid = Some (cmd, Waiting)"
    and "entry s' c = (if c = cid then Some (cmd, Started) else entry s c)"
    and "bt_wf (dispatches s) \<Longrightarrow> bt_wf (dispatches s')"
    and "handled_commands s' = handled_commands s"
    and "queued_prompts s' = (if is_queue_entry cmd then tl (queued_prompts s) else queued_prompts s)"
    and "is_queue_entry cmd \<Longrightarrow> \<exists>q rest. queued_prompts s = q # rest \<and> q_command_id q = cid"
    and "is_prompt cmd \<Longrightarrow> \<exists>a. active_prompt s' = Some a \<and> ap_command_id a = cid \<and> cmd = Prompt (ap_prompt a)"
    and "\<not> is_prompt cmd \<Longrightarrow> active_prompt s' = active_prompt s"
    and "execution s' = (if is_prompt cmd then ExRunning else if is_close cmd then ExClosing else execution s)"
    and "checkpoint_barrier s' = (if is_begin_checkpoint cmd then Some cid else checkpoint_barrier s)"
    and "checkpoint_ready_through s' = (if is_begin_checkpoint cmd then None else checkpoint_ready_through s)"
    and "checkpoint_ready_digest s' = (if is_begin_checkpoint cmd then None else checkpoint_ready_digest s)"
    and "bt_wf (active_user_shells s) \<Longrightarrow> bt_wf (active_user_shells s')"
    and "bt_get (active_user_shells s') c = None \<longleftrightarrow> bt_get (active_user_shells s) c = None"
    and "acknowledged_through s' = acknowledged_through s"
    and "recovery_floor_ordinal s' = recovery_floor_ordinal s"
    and "latest_ordinal s \<le> latest_ordinal s'"
    and "map_option sh_command_id (bt_get (active_user_shells s') c)
          = map_option sh_command_id (bt_get (active_user_shells s) c)"
  using assms unfolding starts_def by (blast | metis option.map_disc_iff)+

lemma starts_live:
  assumes "starts cid cmd s s'"
  shows "(\<exists>ph. entry s' c = Some (k, ph) \<and> ph \<noteq> Done) \<longleftrightarrow> (\<exists>ph. entry s c = Some (k, ph) \<and> ph \<noteq> Done)"
    and "entry s' c = Some (k, Started) \<longleftrightarrow> (c = cid \<and> k = cmd) \<or> entry s c = Some (k, Started)"
    and "entry s' c = Some (k, Waiting) \<longleftrightarrow> c \<noteq> cid \<and> entry s c = Some (k, Waiting)"
  using startsD(1) [OF assms] by (auto simp: startsD(2) [OF assms])

lemma starts_ledger:
  assumes "ledger_ok s" "starts cid cmd s s'"
  shows "ledger_ok s'"
  unfolding ledger_ok_def startsD(4) [OF assms(2)]
proof (intro conjI allI impI)
  note led = ledger_okD [OF assms(1)] and st = startsD [OF assms(2)]
  show "bt_wf (dispatches s')" "bt_wf (handled_commands s)" using st(3) led(1,2) by simp_all
  show "(entry s' c = None) = (bt_get (handled_commands s) c = None)" for c
    using led(3) [of c] st(1) by (auto simp: st(2))
  fix c h assume h: "bt_get (handled_commands s) c = Some h"
  show "\<exists>ph. entry s' c = Some (h_command h, ph) \<and> (ph = Done) = (h_terminal_ordinal h \<noteq> None)"
    using led(4) [OF h] st(1) by (auto simp: st(2))
  show "h_accepted_ordinal h \<le> latest_ordinal s'" using led(5) [OF h] st(17) by simp
  fix t assume "h_terminal_ordinal h = Some t"
  with led(6) [OF h this] st(17) show "h_accepted_ordinal h \<le> t" "t \<le> latest_ordinal s'" by simp_all
qed

lemma starts_queue:
  assumes "queue_ok s" "starts cid cmd s s'"
  shows "queue_ok s'"
proof -
  note q = queue_okD [OF assms(1)] and st = startsD [OF assms(2)] and live = starts_live [OF assms(2)]
  have order: "accepted_ordinal_of s' = accepted_ordinal_of s"
    by (simp add: accepted_ordinal_of_def st(4) fun_eq_iff)
  have mem: "x \<in> set (queued_prompts s') \<longleftrightarrow> x \<in> set (queued_prompts s) \<and> q_command_id x \<noteq> cid" for x
  proof (cases "is_queue_entry cmd")
    case True
    with st(6) obtain y rest where "queued_prompts s = y # rest" "q_command_id y = cid" by blast
    with q(1) True show ?thesis by (auto simp: st(5)) (metis imageI)
  next
    case False
    have "q_command_id x \<noteq> cid" if "x \<in> set (queued_prompts s)"
      using q(2) [OF that] st(1) False by (auto simp: queue_payload_iff)
    with False show ?thesis by (auto simp: st(5))
  qed
  show ?thesis
    unfolding queue_ok_def
  proof (intro conjI ballI allI impI)
    show "distinct (map q_command_id (queued_prompts s'))"
      using q(1) by (simp add: st(5) map_tl distinct_tl)
    show "\<exists>k. entry s' (q_command_id x) = Some (k, Waiting) \<and> queue_payload k = Some (q_payload x)"
      if "x \<in> set (queued_prompts s')" for x
      using that q(2) [of x] unfolding mem live(3) by blast
    show "c \<in> q_command_id ` set (queued_prompts s')" if "entry s' c = Some (k, Waiting)" "is_queue_entry k" for c k
      using that q(3) [of c k] mem unfolding live(3) by blast
    show "sorted (queue_order s')"
      using q(4) unfolding queue_order_def order st(5) by (simp add: map_tl sorted_tl)
  qed
qed

lemma starts_turn:
  assumes "turn_ok s" "starts cid cmd s s'"
    and idle: "is_queue_entry cmd \<Longrightarrow> active_prompt s = None \<and> execution s = ExIdle"
    and config: "\<And>c k v. is_queue_entry cmd \<Longrightarrow> entry s c \<noteq> Some (SetConfig k v, Started)"
    and close: "is_close cmd \<Longrightarrow> execution s = ExClosing"
  shows "turn_ok s'"
proof -
  note t = turn_okD [OF assms(1)] and st = startsD [OF assms(2)] and live = starts_live [OF assms(2)]
  have other: "entry s c \<noteq> Some (k, Started)" if "is_queue_entry cmd" "is_queue_entry k" for c k
    using that(2) config [OF that(1)] t(2) [of c] idle [OF that(1)] by (cases k) auto
  show ?thesis
  proof (cases "is_prompt cmd")
    case True
    then have entry: "is_queue_entry cmd" by (cases cmd) simp_all
    from st(7) [OF True] obtain a where a: "active_prompt s' = Some a" "ap_command_id a = cid" "cmd = Prompt (ap_prompt a)"
      by blast
    show ?thesis
      unfolding turn_ok_def live
      by (intro conjI allI impI; use a other [OF entry] st(9) True live in \<open>force\<close>)
  next
    case False
    have a1: "entry s' (ap_command_id a) = Some (Prompt (ap_prompt a), Started)" if "active_prompt s = Some a" for a
      using t(1) [OF that] by (simp add: live)
    have a2: "map_option ap_command_id (active_prompt s) = Some c" if "entry s' c = Some (Prompt p, Started)" for c p
      using that t(2) False unfolding live by auto
    have a3: "c = c'" if "entry s' c = Some (k, Started)" "is_queue_entry k" "entry s' c' = Some (k', Started)" "is_queue_entry k'"
      for c k c' k'
      using that t(3) [of c k c' k'] other unfolding live by blast
    have a4: "(execution s' = ExRunning) = (active_prompt s \<noteq> None)"
      using t(4) False close by (cases "is_close cmd") (simp_all add: st(9))
    show ?thesis
      unfolding turn_ok_def st(8) [OF False]
      by (intro conjI a4 allI impI) (erule a1, erule a2, erule (3) a3)
  qed
qed

lemma starts_barrier:
  assumes "barrier_ok s" "starts cid cmd s s'"
    and free: "\<not> is_relay_local cmd \<Longrightarrow> checkpoint_barrier s = None"
    and quiet: "\<And>c k. is_begin_checkpoint cmd \<Longrightarrow> entry s c = Some (k, Started) \<Longrightarrow> \<not> is_effectful k"
  shows "barrier_ok s'"
proof -
  note b = barrier_okD [OF assms(1)] and st = startsD [OF assms(2)] and live = starts_live [OF assms(2)]
  show ?thesis
  proof (cases "is_begin_checkpoint cmd")
    case True
    then obtain r where cmd: "cmd = BeginCheckpoint r" by (cases cmd) simp_all
    have "checkpoint_barrier s = None" using free by (simp add: cmd)
    with b(3) have "entry s c \<noteq> Some (BeginCheckpoint r', Started)" for c r' by force
    then show ?thesis
      using True quiet unfolding barrier_ok_def st(10-12) live
      by (auto simp: cmd is_effectful_def)
  next
    case False
    have eff: "\<not> is_effectful cmd" if "checkpoint_barrier s = Some x" for x
      using that free by (cases cmd) (auto simp: is_effectful_def)
    have none: "cmd \<noteq> BeginCheckpoint r" for r using False by auto
    show ?thesis
      unfolding barrier_ok_def st(10-12) if_not_P [OF False]
    proof (intro conjI allI impI)
      show "\<exists>r. entry s' x = Some (BeginCheckpoint r, Started)" if "checkpoint_barrier s = Some x" for x
        using b(1) [OF that] live(2) by blast
      show "\<not> is_effectful k" if "checkpoint_barrier s = Some x" "entry s' c = Some (k, Started)" for x c k
        using that(2) b(2) [OF that(1)] eff [OF that(1)] unfolding live by blast
      show "checkpoint_barrier s = Some c" if "entry s' c = Some (BeginCheckpoint r, Started)" for c r
        using that b(3) none unfolding live by blast
      show "0 < n" "n \<le> latest_ordinal s'" if "checkpoint_ready_through s = Some n" for n
        using b(6) [OF that] st(17) by simp_all
    qed (use b(4,5) in blast)+
  qed
qed

lemma relay_inv_starts:
  assumes "relay_inv s" "starts cid cmd s s'"
    and idle: "is_queue_entry cmd \<Longrightarrow> active_prompt s = None \<and> execution s = ExIdle"
    and config: "\<And>c k v. is_queue_entry cmd \<Longrightarrow> entry s c \<noteq> Some (SetConfig k v, Started)"
    and free: "\<not> is_relay_local cmd \<Longrightarrow> checkpoint_barrier s = None"
    and quiet: "\<And>c k. is_begin_checkpoint cmd \<Longrightarrow> entry s c = Some (k, Started) \<Longrightarrow> \<not> is_effectful k"
    and lat: "latest_ordinal s' \<le> u64_max" "is_hex_digest (latest_digest s')"
  shows "relay_inv s'"
proof (rule relay_invI)
  note part = relay_invD [OF assms(1)] and st = startsD [OF assms(2)] and live = starts_live [OF assms(2)]
  show "ledger_ok s'" by (rule starts_ledger [OF part(1) assms(2)])
  show "queue_ok s'" by (rule starts_queue [OF part(2) assms(2)])
  have closing: "execution s = ExClosing" if "is_close cmd"
  proof -
    from that obtain b e where "cmd = Close b e" by (cases cmd) simp_all
    with close_okD(1) [OF part(5)] st(1) show ?thesis by blast
  qed
  show "turn_ok s'" by (rule starts_turn [OF part(3) assms(2) idle config closing])
  show "barrier_ok s'" by (rule starts_barrier [OF part(4) assms(2) free quiet])
  have exec: "execution s' = ExClosing \<longleftrightarrow> execution s = ExClosing"
  proof (cases "is_prompt cmd")
    case True
    then have "is_queue_entry cmd" by (cases cmd) simp_all
    with idle True show ?thesis by (simp add: st(9))
  qed (use closing in \<open>simp add: st(9)\<close>)
  show "close_ok s'"
    using close_okD [OF part(5)] unfolding close_ok_def exec
    by (intro conjI allI impI) (metis live(1))+
  show "shell_ok s'"
    unfolding shell_ok_def
  proof (intro conjI allI)
    show "bt_wf (active_user_shells s')" using st(13) shell_okD(1) [OF part(6)] by blast
    show "(bt_get (active_user_shells s') c \<noteq> None) = (\<exists>k ph. entry s' c = Some (RunUserShell k, ph) \<and> ph \<noteq> Done)" for c
      unfolding st(14) live(1) by (rule shell_okD(2) [OF part(6)])
    show "bt_get (active_user_shells s') c = Some sh \<longrightarrow> sh_command_id sh = c" for c sh
      using st(18) [of c] shell_okD(3) [OF part(6), of c] by (cases "bt_get (active_user_shells s) c") auto
  qed
  show "frontier_ok s'"
    using frontier_okD [OF part(7)] lat st(15-17) unfolding frontier_ok_def
    by (intro conjI allI impI) (simp_all, metis le_trans live(1))
qed

end
