(* ===== verification/Relay_Steps.thy ===== *)
theory Relay_Steps
  imports Relay_Preservation
begin

text \<open>
  The events of the relay as instances of the step classes of theory \<open>Relay_Preservation\<close>, and the
  invariant theorem: every step of the machine keeps \<open>relay_inv\<close>.
\<close>

section \<open>Starting a command\<close>

lemma queue_head:
  assumes "queued_prompts s = q # rest" "q_command_id q = cid"
  shows "queue_find cid (queued_prompts s) = Some q" "queue_remove_first cid (queued_prompts s) = rest"
  using assms by (simp_all add: queue_find_def)

lemma start_guardD:
  assumes "start_guard s cid" "ledger_ok s"
  obtains d where "bt_get (dispatches s) cid = Some d" "d_state d = DQueued" "entry s cid = Some (d_command d, Waiting)"
    and "is_queue_entry (d_command d) \<Longrightarrow> \<exists>q rest. queued_prompts s = q # rest \<and> q_command_id q = cid"
    and "is_queue_entry (d_command d) \<Longrightarrow> active_prompt s = None \<and> execution s = ExIdle"
    and "\<And>c k v. is_queue_entry (d_command d) \<Longrightarrow> entry s c \<noteq> Some (SetConfig k v, Started)"
    and "\<not> is_relay_local (d_command d) \<Longrightarrow> checkpoint_barrier s = None"
    and "\<And>c k. is_begin_checkpoint (d_command d) \<Longrightarrow> entry s c = Some (k, Started) \<Longrightarrow> \<not> is_effectful k"
proof -
  from assms(1) obtain d where d: "bt_get (dispatches s) cid = Some d" "d_state d = DQueued"
    and queue: "is_queue_entry (d_command d) \<Longrightarrow> \<exists>q. promotable s = Some q \<and> q_command_id q = cid"
    and barrier: "is_begin_checkpoint (d_command d) \<Longrightarrow> \<not> effectful_command_in_progress s"
    and loc: "\<not> is_relay_local (d_command d) \<Longrightarrow> checkpoint_barrier s = None"
    unfolding start_guard_def by blast
  have entry: "entry s cid = Some (d_command d, Waiting)" by (simp add: entry_def d)
  have free: "\<not> promotion_blocked s" "\<exists>q rest. queued_prompts s = q # rest \<and> q_command_id q = cid"
    if "is_queue_entry (d_command d)"
    using queue [OF that] by (auto simp: promotable_Some)
  have config: "entry s c \<noteq> Some (SetConfig k v, Started)" if "is_queue_entry (d_command d)" for c k v
    using free(1) [OF that] promoted_config_iff [OF ledger_okD(1) [OF assms(2)]]
    by (auto simp: promotion_blocked_def entry_Some phase_of_iff)
  have quiet: "\<not> is_effectful k" if "is_begin_checkpoint (d_command d)" "entry s c = Some (k, Started)" for c k
    using barrier [OF that(1)] that(2) effectful_in_progress_iff [OF ledger_okD(1) [OF assms(2)]]
    by (auto simp: entry_Some phase_of_iff)
  have "is_queue_entry (d_command d) \<Longrightarrow> active_prompt s = None \<and> execution s = ExIdle"
    using free(1) by (auto simp: promotion_blocked_def)
  from that [OF d entry free(2) this config loc quiet] show thesis .
qed

lemma apply_command_started_starts:
  assumes "apply_command_started cid started s = Ok s1" "bt_get (dispatches s) cid = Some d" "d_state d = DQueued"
    and queue: "is_queue_entry (d_command d) \<Longrightarrow> \<exists>q rest. queued_prompts s = q # rest \<and> q_command_id q = cid"
    and "queue_ok s" "latest_ordinal s \<le> ev_ordinal ev"
  shows "starts cid (d_command d) s (advance_frontier ev s1)"
proof -
  have e: "entry s cid = Some (d_command d, Waiting)" by (simp add: entry_def assms(2,3))
  have ent: "entry (advance_frontier ev s1) c = (if c = cid then Some (d_command d, Started) else entry s c)"
    if "dispatches s1 = bt_modify cid (d_state_update (\<lambda>_. DPending)) (dispatches s)" for c
    using that assms(2) by (simp add: entry_def)
  note sd = set_dispatch_state_def apply_command_started_def Let_def
  show ?thesis
  proof (cases "d_command d")
    case (Prompt p)
    with queue obtain q rest where q: "queued_prompts s = q # rest" "q_command_id q = cid" by auto
    from queue_okD(2) [OF assms(5), of q] q e Prompt have "q_payload q = QPrompt p" by simp
    with assms(1,2) Prompt queue_head [OF q] have s1: "s1 = s
      \<lparr>dispatches := bt_modify cid (d_state_update (\<lambda>_. DPending)) (dispatches s), queued_prompts := rest,
       execution := ExRunning, active_prompt := Some \<lparr>ap_command_id = cid, ap_prompt = p,
          ap_created_at_ms = q_created_at_ms q, ap_started_at_ms = started\<rparr>\<rparr>"
      by (simp add: sd start_prompt_def Let_def q)
    have "dispatches s1 = bt_modify cid (d_state_update (\<lambda>_. DPending)) (dispatches s)" by (simp add: s1)
    from ent [OF this] show ?thesis
      unfolding starts_def using e assms(6) Prompt q by (simp add: s1)
  next
    case (SetConfig k v)
    with queue obtain q rest where q: "queued_prompts s = q # rest" "q_command_id q = cid" by auto
    from assms(1,2) SetConfig queue_head [OF q] have s1: "s1 = s
      \<lparr>dispatches := bt_modify cid (d_state_update (\<lambda>_. DPending)) (dispatches s), queued_prompts := rest\<rparr>"
      by (simp add: sd start_config_def q)
    have "dispatches s1 = bt_modify cid (d_state_update (\<lambda>_. DPending)) (dispatches s)" by (simp add: s1)
    from ent [OF this] show ?thesis
      unfolding starts_def using e assms(6) SetConfig q by (simp add: s1)
  next
    case (RunUserShell c)
    with assms(1,2) have s1: "s1 = s
      \<lparr>dispatches := bt_modify cid (d_state_update (\<lambda>_. DPending)) (dispatches s),
       active_user_shells := bt_modify cid (sh_started_at_ms_update (\<lambda>_. Some started)) (active_user_shells s)\<rparr>"
      by (auto simp: sd start_user_shell_def split: if_splits)
    have "dispatches s1 = bt_modify cid (d_state_update (\<lambda>_. DPending)) (dispatches s)" by (simp add: s1)
    from ent [OF this] show ?thesis
      unfolding starts_def using e assms(6) RunUserShell by (simp add: s1 option.map_comp comp_def)
  next
    case (BeginCheckpoint r)
    with assms(1,2) have s1: "s1 = s
      \<lparr>dispatches := bt_modify cid (d_state_update (\<lambda>_. DPending)) (dispatches s),
       checkpoint_barrier := Some cid, checkpoint_ready_through := None, checkpoint_ready_digest := None\<rparr>"
      by (auto simp: sd start_barrier_def split: if_splits)
    have "dispatches s1 = bt_modify cid (d_state_update (\<lambda>_. DPending)) (dispatches s)" by (simp add: s1)
    from ent [OF this] show ?thesis
      unfolding starts_def using e assms(6) BeginCheckpoint by (simp add: s1)
  qed (use assms(1,2,6) e ent in \<open>auto simp: sd starts_def\<close>)
qed

lemma relay_inv_started:
  assumes "relay_inv s" "start_guard s cid" "apply_command_started cid started s = Ok s1"
    and n: "latest_ordinal s \<le> ev_ordinal ev" "ev_ordinal ev \<le> u64_max" "is_hex_digest (ev_digest ev)"
  shows "relay_inv (advance_frontier ev s1)"
proof -
  note part = relay_invD [OF assms(1)]
  obtain d where d: "bt_get (dispatches s) cid = Some d" "d_state d = DQueued"
    and g: "is_queue_entry (d_command d) \<Longrightarrow> \<exists>q rest. queued_prompts s = q # rest \<and> q_command_id q = cid"
      "is_queue_entry (d_command d) \<Longrightarrow> active_prompt s = None \<and> execution s = ExIdle"
      "\<And>c k v. is_queue_entry (d_command d) \<Longrightarrow> entry s c \<noteq> Some (SetConfig k v, Started)"
      "\<not> is_relay_local (d_command d) \<Longrightarrow> checkpoint_barrier s = None"
      "\<And>c k. is_begin_checkpoint (d_command d) \<Longrightarrow> entry s c = Some (k, Started) \<Longrightarrow> \<not> is_effectful k"
    using start_guardD [OF assms(2) part(1)] by metis
  have "starts cid (d_command d) s (advance_frontier ev s1)"
    by (rule apply_command_started_starts [OF assms(3) d g(1) part(2) n(1)])
  from relay_inv_starts [OF assms(1) this g(2-5)] n(2,3) show ?thesis by simp
qed

section \<open>Marking commands finished\<close>

definition ledger_marks :: "string set \<Rightarrow> u64 \<Rightarrow> relay_snapshot \<Rightarrow> relay_snapshot \<Rightarrow> bool" where
  "ledger_marks R n s s' \<longleftrightarrow>
     (bt_wf (dispatches s) \<longrightarrow> bt_wf (dispatches s'))
     \<and> (bt_wf (handled_commands s) \<longrightarrow> bt_wf (handled_commands s'))
     \<and> (\<forall>c. entry s' c = (if c \<in> R then map_option (\<lambda>e. (fst e, Done)) (entry s c) else entry s c))
     \<and> (\<forall>c. c \<notin> R \<longrightarrow> bt_get (dispatches s') c = bt_get (dispatches s) c)
     \<and> (\<forall>c. bt_get (handled_commands s') c =
          (if c \<in> R then map_option (h_terminal_ordinal_update (\<lambda>_. Some n)) (bt_get (handled_commands s) c)
           else bt_get (handled_commands s) c))"

lemma marks_none: "ledger_marks {} n s s"
  by (simp add: ledger_marks_def)

lemma marks_frame:
  assumes "ledger_marks R n s s1" "dispatches s2 = dispatches s1" "handled_commands s2 = handled_commands s1"
  shows "ledger_marks R n s s2"
  using assms by (simp add: ledger_marks_def entry_def)

lemma entry_set_dispatch_state:
  "entry (set_dispatch_state cid st s) c = (if c = cid then map_option (\<lambda>e. (fst e, phase_of st)) (entry s c) else entry s c)"
  by (simp add: entry_def set_dispatch_state_def option.map_comp comp_def)

lemma entry_set_terminal_ordinal [simp]: "entry (set_terminal_ordinal cid n s) = entry s"
  by (simp add: entry_def set_terminal_ordinal_def fun_eq_iff)

lemma marks_one:
  assumes "ledger_marks R n s s1" "is_terminal st"
  shows "ledger_marks (insert c R) n s (set_terminal_ordinal c n (set_dispatch_state c st s1))"
proof -
  have fin: "phase_of st = Done" using assms(2) by (simp add: phase_of_iff)
  show ?thesis
    using assms(1) unfolding ledger_marks_def entry_set_terminal_ordinal entry_set_dispatch_state
    by (auto simp: set_terminal_ordinal_def set_dispatch_state_def fin option.map_comp comp_def)
qed

lemma marks_terminalize:
  "terminalize_each n cids s1 = Ok s2 \<Longrightarrow> ledger_marks R n s s1 \<Longrightarrow> ledger_marks (R \<union> set cids) n s s2"
proof (induction cids arbitrary: R s1)
  case Nil
  then show ?case by simp
next
  case (Cons c cids)
  let ?s = "set_terminal_ordinal c n (set_dispatch_state c DRejected s1)"
  from Cons.prems(1) have "terminalize_each n cids ?s = Ok s2" by (auto split: if_splits)
  from Cons.IH [OF this marks_one [OF Cons.prems(2)]] show ?case by simp
qed

lemma terminalize_queued:
  "terminalize_each n cids s1 = Ok s2 \<Longrightarrow> c \<in> set cids \<Longrightarrow> \<exists>cmd. entry s1 c = Some (cmd, Waiting) \<and> is_queue_entry cmd"
proof (induction cids arbitrary: s1)
  case Nil
  then show ?case by simp
next
  case (Cons x cids)
  let ?s = "set_terminal_ordinal x n (set_dispatch_state x DRejected s1)"
  from Cons.prems(1) have rest: "terminalize_each n cids ?s = Ok s2"
    and head: "\<exists>cmd. entry s1 x = Some (cmd, Waiting) \<and> is_queue_entry cmd"
    by (auto simp: entry_def split: if_splits)
  show ?case
  proof (cases "c = x")
    case False
    with Cons.prems(2) Cons.IH [OF rest] show ?thesis
      by (auto simp: entry_set_dispatch_state)
  qed (use head in simp)
qed

lemma marks_retires:
  assumes "ledger_marks R (ev_ordinal ev) s s1" "latest_ordinal s \<le> ev_ordinal ev"
  shows "ledger_retires R (ev_ordinal ev) s (advance_frontier ev s1)"
  using assms by (simp add: ledger_marks_def ledger_retires_def)

section \<open>Who names a command\<close>

definition unnamed :: "relay_snapshot \<Rightarrow> string \<Rightarrow> bool" where
  "unnamed s c \<longleftrightarrow>
     c \<notin> q_command_id ` set (queued_prompts s) \<and> map_option ap_command_id (active_prompt s) \<noteq> Some c
     \<and> checkpoint_barrier s \<noteq> Some c \<and> bt_get (active_user_shells s) c = None"

lemma named_by:
  assumes "relay_inv s"
  shows "c \<in> q_command_id ` set (queued_prompts s) \<Longrightarrow> \<exists>cmd. entry s c = Some (cmd, Waiting) \<and> is_queue_entry cmd"
    and "map_option ap_command_id (active_prompt s) = Some c \<Longrightarrow> \<exists>p. entry s c = Some (Prompt p, Started)"
    and "checkpoint_barrier s = Some c \<Longrightarrow> \<exists>r. entry s c = Some (BeginCheckpoint r, Started)"
    and "bt_get (active_user_shells s) c \<noteq> None \<Longrightarrow> \<exists>k ph. entry s c = Some (RunUserShell k, ph) \<and> ph \<noteq> Done"
proof -
  note part = relay_invD [OF assms]
  show "c \<in> q_command_id ` set (queued_prompts s) \<Longrightarrow> \<exists>cmd. entry s c = Some (cmd, Waiting) \<and> is_queue_entry cmd"
    using queue_okD(2) [OF part(2)] by (fastforce simp: queue_payload_iff)
  show "map_option ap_command_id (active_prompt s) = Some c \<Longrightarrow> \<exists>p. entry s c = Some (Prompt p, Started)"
    using turn_okD(1) [OF part(3)] by auto
  show "checkpoint_barrier s = Some c \<Longrightarrow> \<exists>r. entry s c = Some (BeginCheckpoint r, Started)"
    by (rule barrier_okD(1) [OF part(4)])
  show "bt_get (active_user_shells s) c \<noteq> None \<Longrightarrow> \<exists>k ph. entry s c = Some (RunUserShell k, ph) \<and> ph \<noteq> Done"
    by (simp only: shell_okD(2) [OF part(6)])
qed

lemma unnamedI:
  assumes "relay_inv s" "entry s c = Some (cmd, ph)"
    and "is_queue_entry cmd \<Longrightarrow> ph = Started \<and> \<not> is_prompt cmd" "\<not> is_begin_checkpoint cmd" "\<not> is_run_user_shell cmd"
  shows "unnamed s c"
proof -
  have "bt_get (active_user_shells s) c = None"
    by (rule ccontr, drule named_by(4) [OF assms(1)]) (use assms(2,5) in auto)
  then show ?thesis
    unfolding unnamed_def using named_by(1-3) [OF assms(1), of c] assms(2-4) by auto
qed

lemma lets_go_unnamed:
  assumes "\<And>c. c \<in> R \<Longrightarrow> unnamed s c"
    and "queued_prompts s' = queued_prompts s" "active_prompt s' = active_prompt s"
    and "checkpoint_barrier s' = checkpoint_barrier s" "active_user_shells s' = active_user_shells s"
    and "checkpoint_ready_through s' = (if checkpoint_barrier s = None then None else checkpoint_ready_through s)"
    and "checkpoint_ready_digest s' = (if checkpoint_barrier s = None then None else checkpoint_ready_digest s)"
  shows "lets_go R s s'"
proof -
  have u: "c \<notin> q_command_id ` set (queued_prompts s)" "map_option ap_command_id (active_prompt s) \<noteq> Some c"
    "checkpoint_barrier s \<noteq> Some c" "bt_get (active_user_shells s) c = None" if "c \<in> R" for c
    using assms(1) [OF that] unfolding unnamed_def by blast+
  have "filter (\<lambda>q. q_command_id q \<notin> R) (queued_prompts s) = queued_prompts s"
    using u(1) by (intro filter_True) blast
  moreover have "(case active_prompt s of Some a \<Rightarrow> if ap_command_id a \<in> R then None else Some a | None \<Rightarrow> None) = active_prompt s"
    using u(2) by (auto split: option.splits)
  moreover have "(case checkpoint_barrier s of Some b \<Rightarrow> if b \<in> R then None else Some b | None \<Rightarrow> None) = checkpoint_barrier s"
    using u(3) by (auto split: option.splits)
  ultimately show ?thesis
    unfolding lets_go_def assms(2-7) using u(4) by simp
qed

section \<open>Completing a command\<close>

definition finishes :: "string set \<Rightarrow> u64 \<Rightarrow> relay_snapshot \<Rightarrow> relay_snapshot \<Rightarrow> bool" where
  "finishes R n s s' \<longleftrightarrow>
     ledger_marks R n s s' \<and> lets_go R s s' \<and> execution_after R s s'
     \<and> acknowledged_through s' = acknowledged_through s \<and> recovery_floor_ordinal s' \<le> n"

lemma finishes_inv:
  assumes "relay_inv s" "finishes R (ev_ordinal ev) s s1"
    and n: "latest_ordinal s \<le> ev_ordinal ev" "ev_ordinal ev \<le> u64_max" "is_hex_digest (ev_digest ev)"
  shows "relay_inv (advance_frontier ev s1)"
proof -
  note fin = assms(2) [unfolded finishes_def]
  show ?thesis
  proof (rule relay_inv_retires [OF assms(1)])
    show "ledger_retires R (ev_ordinal ev) s (advance_frontier ev s1)"
      using fin marks_retires [OF _ n(1)] by blast
    show "lets_go R s (advance_frontier ev s1)" using fin by (simp add: lets_go_def)
    show "execution_after R s (advance_frontier ev s1)" using fin by (simp add: execution_after_def)
  qed (use fin n in simp_all)
qed

lemma ready_when_barrier:
  assumes "relay_inv s"
  shows "checkpoint_ready_through s = (if checkpoint_barrier s = None then None else checkpoint_ready_through s)"
    "checkpoint_ready_digest s = (if checkpoint_barrier s = None then None else checkpoint_ready_digest s)"
  using barrier_okD(4,5) [OF relay_invD(4) [OF assms]] by auto

text \<open>A command that nothing else in the snapshot names, with no side effect on the invariant.\<close>

lemma finishes_nothing:
  assumes inv: "relay_inv s" and n: "latest_ordinal s \<le> n"
  shows "finishes {} n s s"
proof -
  have "lets_go {} s s" using ready_when_barrier [OF inv] by (simp add: lets_go_def split: option.split)
  moreover have "execution_after {} s s" by (simp add: execution_after_def)
  ultimately show ?thesis
    using marks_none frontier_okD(2) [OF relay_invD(7) [OF inv]] n by (simp add: finishes_def)
qed

lemma finishes_plain:
  assumes inv: "relay_inv s" and e: "entry s cid = Some (cmd, ph)" and un: "unnamed s cid" and "\<not> is_close cmd"
    and marks: "ledger_marks {cid} n s s'"
    and same: "queued_prompts s' = queued_prompts s" "active_prompt s' = active_prompt s"
      "checkpoint_barrier s' = checkpoint_barrier s" "active_user_shells s' = active_user_shells s"
      "checkpoint_ready_through s' = checkpoint_ready_through s"
      "checkpoint_ready_digest s' = checkpoint_ready_digest s" "execution s' = execution s"
      "acknowledged_through s' = acknowledged_through s"
    and floor: "recovery_floor_ordinal s' \<le> n"
  shows "finishes {cid} n s s'"
proof -
  have "lets_go {cid} s s'"
    by (rule lets_go_unnamed) (use un same ready_when_barrier [OF inv] in simp_all)
  moreover have "execution_after {cid} s s'"
    using un e assms(4) same(7) by (auto simp: execution_after_def unnamed_def)
  ultimately show ?thesis using marks same(8) floor by (simp add: finishes_def)
qed

lemma base_marks:
  assumes "is_terminal st"
  shows "ledger_marks {cid} n s (set_terminal_ordinal cid n (set_dispatch_state cid st s))"
  using marks_one [OF marks_none assms] .

lemma base_sel [simp]:
  "queued_prompts (set_terminal_ordinal cid n s) = queued_prompts s"
  "active_prompt (set_terminal_ordinal cid n s) = active_prompt s"
  "execution (set_terminal_ordinal cid n s) = execution s"
  "checkpoint_barrier (set_terminal_ordinal cid n s) = checkpoint_barrier s"
  "checkpoint_ready_through (set_terminal_ordinal cid n s) = checkpoint_ready_through s"
  "checkpoint_ready_digest (set_terminal_ordinal cid n s) = checkpoint_ready_digest s"
  "active_user_shells (set_terminal_ordinal cid n s) = active_user_shells s"
  "acknowledged_through (set_terminal_ordinal cid n s) = acknowledged_through s"
  "recovery_floor_ordinal (set_terminal_ordinal cid n s) = recovery_floor_ordinal s"
  "dispatches (set_terminal_ordinal cid n s) = dispatches s"
  "queued_prompts (set_dispatch_state cid st s) = queued_prompts s"
  "active_prompt (set_dispatch_state cid st s) = active_prompt s"
  "execution (set_dispatch_state cid st s) = execution s"
  "checkpoint_barrier (set_dispatch_state cid st s) = checkpoint_barrier s"
  "checkpoint_ready_through (set_dispatch_state cid st s) = checkpoint_ready_through s"
  "checkpoint_ready_digest (set_dispatch_state cid st s) = checkpoint_ready_digest s"
  "active_user_shells (set_dispatch_state cid st s) = active_user_shells s"
  "acknowledged_through (set_dispatch_state cid st s) = acknowledged_through s"
  "recovery_floor_ordinal (set_dispatch_state cid st s) = recovery_floor_ordinal s"
  "handled_commands (set_dispatch_state cid st s) = handled_commands s"
  by (simp_all add: set_terminal_ordinal_def set_dispatch_state_def)

lemma drop_attached_contexts_sel [simp]:
  "queued_prompts (drop_attached_contexts cid s) = queued_prompts s"
  "active_prompt (drop_attached_contexts cid s) = active_prompt s"
  "execution (drop_attached_contexts cid s) = execution s"
  "checkpoint_barrier (drop_attached_contexts cid s) = checkpoint_barrier s"
  "checkpoint_ready_through (drop_attached_contexts cid s) = checkpoint_ready_through s"
  "checkpoint_ready_digest (drop_attached_contexts cid s) = checkpoint_ready_digest s"
  "active_user_shells (drop_attached_contexts cid s) = active_user_shells s"
  "acknowledged_through (drop_attached_contexts cid s) = acknowledged_through s"
  "recovery_floor_ordinal (drop_attached_contexts cid s) = recovery_floor_ordinal s"
  "dispatches (drop_attached_contexts cid s) = dispatches s"
  "handled_commands (drop_attached_contexts cid s) = handled_commands s"
  by (simp_all add: drop_attached_contexts_def)

lemma keeps_queue:
  assumes "relay_inv s" "\<And>c cmd. c \<in> R \<Longrightarrow> entry s c = Some (cmd, Waiting) \<Longrightarrow> \<not> is_queue_entry cmd"
  shows "filter (\<lambda>q. q_command_id q \<notin> R) (queued_prompts s) = queued_prompts s"
  using named_by(1) [OF assms(1)] assms(2) by (intro filter_True) blast

lemma keeps_active:
  assumes "relay_inv s" "\<And>c p. c \<in> R \<Longrightarrow> entry s c \<noteq> Some (Prompt p, Started)"
  shows "(case active_prompt s of Some a \<Rightarrow> if ap_command_id a \<in> R then None else Some a | None \<Rightarrow> None) = active_prompt s"
    and "\<not> (\<exists>a. active_prompt s = Some a \<and> ap_command_id a \<in> R)"
  using named_by(2) [OF assms(1)] assms(2) by (fastforce split: option.splits)+

lemma keeps_barrier:
  assumes "relay_inv s" "\<And>c r. c \<in> R \<Longrightarrow> entry s c \<noteq> Some (BeginCheckpoint r, Started)"
  shows "(case checkpoint_barrier s of Some b \<Rightarrow> if b \<in> R then None else Some b | None \<Rightarrow> None) = checkpoint_barrier s"
  using named_by(3) [OF assms(1)] assms(2) by (fastforce split: option.splits)

lemma keeps_shells:
  assumes "relay_inv s" "\<And>c k ph. c \<in> R \<Longrightarrow> entry s c = Some (RunUserShell k, ph) \<Longrightarrow> ph = Done"
  shows "bt_get (active_user_shells s) c = (if c \<in> R then None else bt_get (active_user_shells s) c)"
  using named_by(4) [OF assms(1), of c] assms(2) [of c] by (cases "bt_get (active_user_shells s) c") auto

lemma finishes_prompt:
  assumes inv: "relay_inv s" and e: "entry s cid = Some (Prompt p, Started)"
    and floor: "recovery_floor_ordinal s \<le> n"
  shows "finishes {cid} n s (complete_prompt cid (set_terminal_ordinal cid n (set_dispatch_state cid DCompleted s)))"
    (is "finishes _ _ _ ?s")
proof -
  from turn_okD(2) [OF relay_invD(3) [OF inv] e] obtain a
    where a: "active_prompt s = Some a" "ap_command_id a = cid" by auto
  with turn_okD(4) [OF relay_invD(3) [OF inv]] have run: "execution s = ExRunning" by simp
  have eq: "?s = drop_attached_contexts cid
      ((set_terminal_ordinal cid n (set_dispatch_state cid DCompleted s))\<lparr>active_prompt := None, execution := ExIdle\<rparr>)"
    by (simp add: complete_prompt_def a run Let_def)
  have "lets_go {cid} s ?s"
    unfolding lets_go_def eq
    using keeps_queue [OF inv, of "{cid}"] keeps_barrier [OF inv, of "{cid}"] keeps_shells [OF inv, of "{cid}"]
      e a ready_when_barrier [OF inv] by simp
  moreover have "execution_after {cid} s ?s" unfolding execution_after_def eq using a by simp
  moreover have "ledger_marks {cid} n s ?s" by (rule marks_frame [OF base_marks [of DCompleted cid n s]]) (simp_all add: eq)
  ultimately show ?thesis using floor by (simp add: finishes_def eq)
qed

lemma finishes_user_shell:
  assumes inv: "relay_inv s" and e: "entry s cid = Some (RunUserShell k, ph)"
    and floor: "recovery_floor_ordinal s \<le> n"
    and ok: "complete_user_shell cid r (set_terminal_ordinal cid n (set_dispatch_state cid DCompleted s)) = Ok s'"
  shows "finishes {cid} n s s'"
proof -
  from ok obtain cs where eq: "s' = (set_terminal_ordinal cid n (set_dispatch_state cid DCompleted s))
      \<lparr>active_user_shells := bt_remove cid (active_user_shells s), pending_user_shell_contexts := cs\<rparr>"
    by (auto simp: complete_user_shell_def Let_def)
  have "lets_go {cid} s s'"
    unfolding lets_go_def eq
    using keeps_queue [OF inv, of "{cid}"] keeps_barrier [OF inv, of "{cid}"] keeps_active(1) [OF inv, of "{cid}"]
      e ready_when_barrier [OF inv] by auto
  moreover have "execution_after {cid} s s'"
    unfolding execution_after_def eq using keeps_active(2) [OF inv, of "{cid}"] e by auto
  moreover have "ledger_marks {cid} n s s'" by (rule marks_frame [OF base_marks [of DCompleted cid n s]]) (simp_all add: eq)
  ultimately show ?thesis using floor by (simp add: finishes_def eq)
qed

lemma finishes_close:
  assumes inv: "relay_inv s" and e: "entry s cid = Some (Close b x, ph)" "ph \<noteq> Done"
    and floor: "recovery_floor_ordinal s \<le> n"
  shows "finishes {cid} n s ((set_terminal_ordinal cid n (set_dispatch_state cid DCompleted s))
           \<lparr>execution := ExClosed, active_prompt := None\<rparr>)" (is "finishes _ _ _ ?s")
proof -
  from close_okD(1) [OF relay_invD(5) [OF inv] e] turn_okD(4) [OF relay_invD(3) [OF inv]]
  have none: "active_prompt s = None" by simp
  have "lets_go {cid} s ?s"
    unfolding lets_go_def
    using keeps_queue [OF inv, of "{cid}"] keeps_barrier [OF inv, of "{cid}"] keeps_shells [OF inv, of "{cid}"]
      e none ready_when_barrier [OF inv] by auto
  moreover have "execution_after {cid} s ?s" unfolding execution_after_def using e none by simp
  moreover have "ledger_marks {cid} n s ?s" by (rule marks_frame [OF base_marks [of DCompleted cid n s]]) simp_all
  ultimately show ?thesis using floor by (simp add: finishes_def)
qed

lemma execution_keeps:
  assumes "relay_inv s" "execution s' = execution s"
    and "\<And>c p. c \<in> R \<Longrightarrow> entry s c \<noteq> Some (Prompt p, Started)"
    and "\<And>c b x ph. c \<in> R \<Longrightarrow> entry s c = Some (Close b x, ph) \<Longrightarrow> ph = Done"
  shows "execution_after R s s'"
proof -
  have "\<not> (\<exists>c \<in> R. \<exists>b e ph. entry s c = Some (Close b e, ph) \<and> ph \<noteq> Done)" using assms(4) by blast
  moreover have "\<not> (\<exists>a. active_prompt s = Some a \<and> ap_command_id a \<in> R)"
    by (rule keeps_active(2) [OF assms(1)]) (rule assms(3))
  ultimately show ?thesis using assms(2) by (simp only: execution_after_def if_False)
qed

lemma lets_go_keepsI:
  assumes inv: "relay_inv s"
    and prompt: "\<And>c p. c \<in> R \<Longrightarrow> entry s c \<noteq> Some (Prompt p, Started)"
    and barrier: "\<And>c r. c \<in> R \<Longrightarrow> entry s c \<noteq> Some (BeginCheckpoint r, Started)"
    and shell: "\<And>c k ph. c \<in> R \<Longrightarrow> entry s c = Some (RunUserShell k, ph) \<Longrightarrow> ph = Done"
    and queue: "queued_prompts s' = filter (\<lambda>q. q_command_id q \<notin> R) (queued_prompts s)"
    and same: "active_prompt s' = active_prompt s" "checkpoint_barrier s' = checkpoint_barrier s"
      "active_user_shells s' = active_user_shells s"
      "checkpoint_ready_through s' = checkpoint_ready_through s"
      "checkpoint_ready_digest s' = checkpoint_ready_digest s"
  shows "lets_go R s s'"
  unfolding lets_go_def same
proof (intro conjI allI impI)
  show "active_prompt s = (case active_prompt s of None \<Rightarrow> None | Some a \<Rightarrow> if ap_command_id a \<in> R then None else Some a)"
    by (rule keeps_active(1) [OF inv prompt, symmetric])
  show "checkpoint_barrier s = (case checkpoint_barrier s of None \<Rightarrow> None | Some b \<Rightarrow> if b \<in> R then None else Some b)"
    by (rule keeps_barrier [OF inv barrier, symmetric])
  show "bt_get (active_user_shells s) c = (if c \<in> R then None else bt_get (active_user_shells s) c)" for c
    by (rule keeps_shells [OF inv shell])
qed (rule queue | rule ready_when_barrier [OF inv] | assumption)+

lemma finishes_queue_changed:
  assumes inv: "relay_inv s" and e: "entry s cid = Some (cmd, ph)"
    and cmd: "\<not> is_queue_entry cmd" "\<not> is_begin_checkpoint cmd" "\<not> is_run_user_shell cmd" "\<not> is_close cmd"
    and floor: "recovery_floor_ordinal s \<le> n"
    and ok: "terminalize_removed_prompts removed n (set_terminal_ordinal cid n (set_dispatch_state cid DCompleted s)) = Ok s'"
  shows "finishes (insert cid (set removed)) n s s'"
proof -
  let ?base = "set_terminal_ordinal cid n (set_dispatch_state cid DCompleted s)"
  from ok obtain s1 where s1: "terminalize_each n removed ?base = Ok s1"
    and eq: "s' = s1\<lparr>queued_prompts := filter (\<lambda>q. q_command_id q \<notin> set removed) (queued_prompts s1)\<rparr>"
    by (auto simp: terminalize_removed_prompts_def)
  from terminalize_each_frame [OF s1] obtain h d where frame: "s1 = ?base\<lparr>handled_commands := h, dispatches := d\<rparr>"
    by blast
  have rem: "\<exists>k. entry s c = Some (k, Waiting) \<and> is_queue_entry k" if "c \<in> set removed" for c
    using terminalize_queued [OF s1 that] by (auto simp: entry_set_dispatch_state split: if_splits)
  have wait: "is_queue_entry k \<longrightarrow> ph' = Waiting" if "c \<in> insert cid (set removed)" "entry s c = Some (k, ph')" for c k ph'
    using that rem [of c] e cmd(1) by auto
  have marks: "ledger_marks (insert cid (set removed)) n s s'"
    using marks_frame [OF marks_terminalize [OF s1 base_marks [of DCompleted cid n s]]]
    by (simp add: eq)
  have "cid \<notin> q_command_id ` set (queued_prompts s)"
    using named_by(1) [OF inv, of cid] e cmd(1) by auto
  then have queue: "filter (\<lambda>q. q_command_id q \<notin> insert cid (set removed)) (queued_prompts s)
      = filter (\<lambda>q. q_command_id q \<notin> set removed) (queued_prompts s)"
    by (intro filter_cong) auto
  have prompt: "entry s c \<noteq> Some (Prompt p, Started)" if "c \<in> insert cid (set removed)" for c p
    using wait [OF that] by fastforce
  have barrier: "entry s c \<noteq> Some (BeginCheckpoint r, Started)" if "c \<in> insert cid (set removed)" for c r
    using that rem [of c] e cmd(2) by auto
  have shell: "ph' = Done" if "c \<in> insert cid (set removed)" "entry s c = Some (RunUserShell k, ph')" for c k ph'
    using that rem [of c] e cmd(3) by auto
  have close: "ph' = Done" if "c \<in> insert cid (set removed)" "entry s c = Some (Close b x, ph')" for c b x ph'
    using that rem [of c] e cmd(4) by auto
  have "lets_go (insert cid (set removed)) s s'"
    by (rule lets_go_keepsI [OF inv prompt barrier shell]) (simp_all only: queue, simp_all add: eq frame)
  moreover have "execution_after (insert cid (set removed)) s s'"
    by (rule execution_keeps [OF inv _ prompt close]) (simp_all add: eq frame)
  ultimately show ?thesis using marks floor by (simp add: finishes_def eq frame)
qed

text \<open>Only waiting commands are removed or steered along with the command that completes.\<close>

lemma removed_waiting:
  assumes "terminalize_removed_prompts removed n (set_terminal_ordinal cid n (set_dispatch_state cid DCompleted s)) = Ok s'"
    "c \<in> set removed"
  shows "\<exists>k. entry s c = Some (k, Waiting)"
proof -
  from assms(1) obtain s1 where "terminalize_each n removed (set_terminal_ordinal cid n (set_dispatch_state cid DCompleted s)) = Ok s1"
    by (auto simp: terminalize_removed_prompts_def)
  from terminalize_queued [OF this assms(2)] show ?thesis by (auto simp: entry_set_dispatch_state split: if_splits)
qed

lemma steered_waiting:
  assumes "complete_steered n target (set_terminal_ordinal cid n (set_dispatch_state cid DCompleted s)) = Ok s'"
  shows "\<exists>k. entry s target = Some (k, Waiting)"
proof -
  let ?base = "set_terminal_ordinal cid n (set_dispatch_state cid DCompleted s)"
  from assms obtain d where "bt_get (dispatches ?base) target = Some d" "d_state d = DQueued"
    by (auto simp: complete_steered_def Let_def split: list.splits if_splits)
  then have "entry ?base target = Some (d_command d, Waiting)" by (simp add: entry_def)
  then show ?thesis by (auto simp: entry_set_dispatch_state split: if_splits)
qed

lemma filter_distinct_head:
  assumes "distinct (map f (q # rest))" "c \<notin> f ` set rest" "f q = t"
  shows "filter (\<lambda>x. f x \<notin> {t, c}) (q # rest) = rest"
proof -
  have "f x \<noteq> t \<and> f x \<noteq> c" if "x \<in> set rest" for x
    using assms imageI [OF that, of f] by auto
  then show ?thesis using assms(3) by (simp add: filter_id_conv)
qed

lemma finishes_steered:
  assumes inv: "relay_inv s" and e: "entry s cid = Some (Cancel, ph)"
    and floor: "recovery_floor_ordinal s \<le> n"
    and ok: "complete_steered n target (set_terminal_ordinal cid n (set_dispatch_state cid DCompleted s)) = Ok s'"
  shows "finishes {target, cid} n s s'"
proof -
  let ?base = "set_terminal_ordinal cid n (set_dispatch_state cid DCompleted s)"
  let ?two = "set_terminal_ordinal target n (set_dispatch_state target DCompleted ?base)"
  from ok obtain q rest d where q: "queued_prompts s = q # rest" "q_command_id q = target"
    and d: "bt_get (dispatches ?base) target = Some d" "d_state d = DQueued" "is_prompt (d_command d)"
    and eq: "s' = drop_attached_contexts target (?two\<lparr>queued_prompts := rest\<rparr>)"
    by (auto simp: complete_steered_def Let_def split: list.splits if_splits)
  from d(3) obtain p0 where p0: "d_command d = Prompt p0" by (cases "d_command d") simp_all
  from d have "entry ?base target = Some (d_command d, Waiting)" by (simp add: entry_def)
  then have t: "entry s target = Some (d_command d, Waiting)" "target \<noteq> cid"
    by (auto simp: entry_set_dispatch_state split: if_splits)
  from queue_okD(1) [OF relay_invD(2) [OF inv]] q named_by(1) [OF inv, of cid] e
  have queue: "filter (\<lambda>x. q_command_id x \<notin> {target, cid}) (queued_prompts s) = rest"
    unfolding q(1) by (intro filter_distinct_head) auto
  have both: "c \<in> {target, cid} \<Longrightarrow> entry s c = Some (d_command d, Waiting) \<or> entry s c = Some (Cancel, ph)" for c
    using t(1) e by auto
  have prompt: "entry s c \<noteq> Some (Prompt p, Started)" if "c \<in> {target, cid}" for c p using both [OF that] by auto
  have barrier: "entry s c \<noteq> Some (BeginCheckpoint r, Started)" if "c \<in> {target, cid}" for c r using both [OF that] by auto
  have shell: "ph' = Done" if "c \<in> {target, cid}" "entry s c = Some (RunUserShell k, ph')" for c k ph'
    using both [OF that(1)] that(2) p0 by auto
  have close: "ph' = Done" if "c \<in> {target, cid}" "entry s c = Some (Close b x, ph')" for c b x ph'
    using both [OF that(1)] that(2) p0 by auto
  have "lets_go {target, cid} s s'"
    by (rule lets_go_keepsI [OF inv prompt barrier shell]) (simp_all only: queue, simp_all add: eq)
  moreover have "execution_after {target, cid} s s'"
    by (rule execution_keeps [OF inv _ prompt close]) (simp_all add: eq)
  moreover have "ledger_marks {target, cid} n s s'"
    by (rule marks_frame [OF marks_one [OF base_marks [of DCompleted cid n s], of DCompleted target]]) (simp_all add: eq)
  ultimately show ?thesis using floor by (simp add: finishes_def eq)
qed

lemma finishes_checkpoint:
  assumes inv: "relay_inv s" and e: "entry s cid = Some (cmd, ph)" "is_relay_local cmd"
    and b: "checkpoint_barrier s = Some b"
    and base: "s1 = (set_terminal_ordinal cid n (set_dispatch_state cid DCompleted s))
                 \<lparr>recovery_floor_ordinal := m, recovery_floor_digest := d\<rparr>" and "m \<le> n"
  shows "finishes {b, cid} n s (finish_barrier n b s1)"
proof -
  from named_by(3) [OF inv b] obtain r where r: "entry s b = Some (BeginCheckpoint r, Started)" by blast
  have both: "c \<in> {b, cid} \<Longrightarrow> entry s c = Some (BeginCheckpoint r, Started) \<or> entry s c = Some (cmd, ph)" for c
    using r e by auto
  have queue: "filter (\<lambda>q. q_command_id q \<notin> {b, cid}) (queued_prompts s) = queued_prompts s"
    by (rule keeps_queue [OF inv]) (use both e(2) in \<open>fastforce elim: is_relay_local.elims\<close>)
  have act: "(case active_prompt s of Some a \<Rightarrow> if ap_command_id a \<in> {b, cid} then None else Some a | None \<Rightarrow> None)
      = active_prompt s"
    by (rule keeps_active(1) [OF inv]) (use both e(2) in \<open>fastforce elim: is_relay_local.elims\<close>)
  have sh: "bt_get (active_user_shells s) c = (if c \<in> {b, cid} then None else bt_get (active_user_shells s) c)" for c
    by (rule keeps_shells [OF inv]) (use both e(2) in \<open>fastforce elim: is_relay_local.elims\<close>)
  let ?s = "finish_barrier n b s1"
  have sel: "queued_prompts ?s = queued_prompts s" "active_prompt ?s = active_prompt s" "execution ?s = execution s"
    "checkpoint_barrier ?s = None" "checkpoint_ready_through ?s = None" "checkpoint_ready_digest ?s = None"
    "active_user_shells ?s = active_user_shells s" "acknowledged_through ?s = acknowledged_through s"
    "recovery_floor_ordinal ?s = m"
    by (simp_all add: finish_barrier_def clear_barrier_def base)
  have marks1: "ledger_marks {cid} n s (clear_barrier s1)"
    by (rule marks_frame [OF base_marks [of DCompleted cid n s]]) (simp_all add: clear_barrier_def base)
  have "ledger_marks {b, cid} n s ?s"
    unfolding finish_barrier_def by (rule marks_one [OF marks1]) simp
  moreover have "lets_go {b, cid} s ?s"
    unfolding lets_go_def sel queue act using sh b by simp
  moreover have "execution_after {b, cid} s ?s"
    by (rule execution_keeps [OF inv sel(3)]; use both e(2) in \<open>fastforce elim: is_relay_local.elims\<close>)
  ultimately show ?thesis unfolding finishes_def sel using assms(6) by simp
qed

lemma complete_guardD:
  assumes "complete_guard s cid"
  obtains d ph where "bt_get (dispatches s) cid = Some d" "entry s cid = Some (d_command d, ph)" "ph \<noteq> Done"
    "is_relay_local (d_command d) \<or> ph = Started \<and> \<not> is_begin_checkpoint (d_command d)"
proof -
  from assms obtain d where d: "bt_get (dispatches s) cid = Some d"
    "is_relay_local (d_command d) \<and> \<not> is_terminal (d_state d) \<or> d_state d = DInFlight \<and> \<not> is_begin_checkpoint (d_command d)"
    unfolding complete_guard_def by blast
  show thesis
  proof (rule that [OF d(1), of "phase_of (d_state d)"])
    show "entry s cid = Some (d_command d, phase_of (d_state d))" by (simp add: entry_def d(1))
    show "phase_of (d_state d) \<noteq> Done" using d(2) by (auto simp: phase_of_iff)
    show "is_relay_local (d_command d) \<or> phase_of (d_state d) = Started \<and> \<not> is_begin_checkpoint (d_command d)"
      using d(2) by auto
  qed
qed

lemma completed_finishes:
  assumes inv: "relay_inv s" and guard: "complete_guard s cid"
    and ok: "apply_command_completed n cid outcome s = Ok s'" and n: "latest_ordinal s \<le> n"
  shows "\<exists>R. finishes R n s s' \<and> (\<forall>c \<in> R. \<forall>k. entry s c = Some (k, Started) \<longrightarrow> c = cid \<or> is_begin_checkpoint k)"
proof -
  obtain d ph where d: "bt_get (dispatches s) cid = Some d" and e: "entry s cid = Some (d_command d, ph)" "ph \<noteq> Done"
    and g: "is_relay_local (d_command d) \<or> ph = Started \<and> \<not> is_begin_checkpoint (d_command d)"
    by (rule complete_guardD [OF guard])
  let ?base = "set_terminal_ordinal cid n (set_dispatch_state cid DCompleted s)"
  have out: "complete_outcome n cid (d_command d) outcome ?base = Ok s'"
    using ok d by (auto simp: apply_command_completed_def split: if_splits)
  have floor: "recovery_floor_ordinal s \<le> n" using frontier_okD(2) [OF relay_invD(7) [OF inv]] n by simp
  have plain: "finishes {cid} n s x"
    if "\<not> is_prompt (d_command d)" "\<not> is_begin_checkpoint (d_command d)" "\<not> is_run_user_shell (d_command d)"
      "\<not> is_close (d_command d)" "dispatches x = dispatches ?base" "handled_commands x = handled_commands ?base"
      "queued_prompts x = queued_prompts s" "active_prompt x = active_prompt s" "checkpoint_barrier x = checkpoint_barrier s"
      "active_user_shells x = active_user_shells s" "checkpoint_ready_through x = checkpoint_ready_through s"
      "checkpoint_ready_digest x = checkpoint_ready_digest s" "execution x = execution s"
      "acknowledged_through x = acknowledged_through s" "recovery_floor_ordinal x \<le> n" for x
  proof (rule finishes_plain [OF inv e(1)])
    show "unnamed s cid"
      by (rule unnamedI [OF inv e(1)]) (use that(1-3) g in \<open>auto elim: is_relay_local.elims\<close>)
    show "ledger_marks {cid} n s x" by (rule marks_frame [OF base_marks [of DCompleted cid n s] that(5,6)]) simp
  qed (fact that)+
  have barrier: "is_begin_checkpoint k" if "checkpoint_barrier s = Some b" "entry s b = Some (k, ph')" for b k ph'
    using named_by(3) [OF inv that(1)] that(2) by auto
  have one: ?thesis if "finishes {cid} n s s'" using that by blast
  show ?thesis
  proof (cases "d_command d")
    case (Prompt p)
    with out have "s' = complete_prompt cid ?base" by (auto simp: complete_outcome_def split: relay_command_outcome.splits)
    with finishes_prompt [OF inv _ floor] e g Prompt show ?thesis by (intro one) auto
  next
    case (RunUserShell k)
    with out obtain r where "complete_user_shell cid r ?base = Ok s'"
      by (auto simp: complete_outcome_def split: relay_command_outcome.splits)
    with finishes_user_shell [OF inv e(1) [unfolded RunUserShell] floor] show ?thesis by (intro one)
  next
    case (RemoveQueuedPrompt t)
    with out obtain removed where "terminalize_removed_prompts removed n ?base = Ok s'"
      by (auto simp: complete_outcome_def complete_remove_queued_def Let_def split: relay_command_outcome.splits if_splits)
    from finishes_queue_changed [OF inv e(1) [unfolded RemoveQueuedPrompt] _ _ _ _ floor this] removed_waiting [OF this]
    show ?thesis by (intro exI [of _ "insert cid (set removed)"]) force
  next
    case ClearQueuedPrompts
    with out obtain removed where "terminalize_removed_prompts removed n ?base = Ok s'"
      by (auto simp: complete_outcome_def complete_clear_queued_def Let_def split: relay_command_outcome.splits if_splits)
    from finishes_queue_changed [OF inv e(1) [unfolded ClearQueuedPrompts] _ _ _ _ floor this] removed_waiting [OF this]
    show ?thesis by (intro exI [of _ "insert cid (set removed)"]) force
  next
    case Cancel
    show ?thesis
    proof (cases outcome)
      case OCancelled
      with out Cancel have "s' = ?base" by (simp add: complete_outcome_def)
      with plain [of s'] Cancel floor show ?thesis by (intro one) auto
    next
      case (OSteered t)
      with out Cancel have "complete_steered n t ?base = Ok s'" by (simp add: complete_outcome_def)
      from finishes_steered [OF inv e(1) [unfolded Cancel] floor this] steered_waiting [OF this] show ?thesis
        by (intro exI [of _ "{t, cid}"]) force
    qed (use out Cancel in \<open>simp_all add: complete_outcome_def\<close>)
  next
    case (Close b x)
    with out have "s' = ?base\<lparr>execution := ExClosed, active_prompt := None\<rparr>"
      by (auto simp: complete_outcome_def split: relay_command_outcome.splits)
    with finishes_close [OF inv e(1) [unfolded Close] e(2) floor] show ?thesis by (intro one) simp
  next
    case (CompleteCheckpoint b)
    with out obtain m dg where "checkpoint_barrier s = Some b" "checkpoint_ready_through s = Some m"
      "s' = finish_barrier n b (?base\<lparr>recovery_floor_ordinal := m, recovery_floor_digest := dg\<rparr>)"
      by (auto simp: complete_outcome_def complete_checkpoint_def split: relay_command_outcome.splits if_splits)
    moreover from this(2) barrier_okD(6) [OF relay_invD(4) [OF inv]] n have "m \<le> n" by fastforce
    ultimately have "finishes {b, cid} n s s'"
      using finishes_checkpoint [OF inv e(1) [unfolded CompleteCheckpoint] _ _ refl] by fastforce
    with barrier [OF \<open>checkpoint_barrier s = Some b\<close>] show ?thesis by (intro exI [of _ "{b, cid}"]) auto
  next
    case (ReleaseCheckpoint b)
    with out have "checkpoint_barrier s = Some b" "s' = finish_barrier n b ?base"
      by (auto simp: complete_outcome_def complete_release_def split: relay_command_outcome.splits if_splits)
    moreover have "?base = ?base\<lparr>recovery_floor_ordinal := recovery_floor_ordinal s,
        recovery_floor_digest := recovery_floor_digest ?base\<rparr>" by simp
    ultimately have "finishes {b, cid} n s s'"
      using finishes_checkpoint [OF inv e(1) [unfolded ReleaseCheckpoint] _ _ _ floor] by (metis is_relay_local.simps)
    with barrier [OF \<open>checkpoint_barrier s = Some b\<close>] show ?thesis by (intro exI [of _ "{b, cid}"]) auto
  next
    case (AdvanceRecoveryFloor t)
    with out have "s' = ?base\<lparr>recovery_floor_ordinal := cur_ordinal t, recovery_floor_digest := cur_digest t\<rparr>"
      by (auto simp: complete_outcome_def complete_floor_def split: relay_command_outcome.splits if_splits)
    moreover from frontier_okD(5) [OF relay_invD(7) [OF inv]] e AdvanceRecoveryFloor n have "cur_ordinal t \<le> n"
      by fastforce
    ultimately show ?thesis using plain [of s'] AdvanceRecoveryFloor by (intro one) auto
  next
    case (BeginCheckpoint r)
    with g show ?thesis by simp
  qed (rule one, use out plain [of s'] floor in \<open>force simp: complete_outcome_def split: relay_command_outcome.splits\<close>)+
qed

end
