(* ===== verification/Relay_Safety.thy ===== *)
theory Relay_Safety
  imports Relay_Steps Relay_Example
begin

text \<open>
  Every step of the session machine keeps \<open>relay_inv\<close>, and what this gives for the snapshots a
  session can reach: quiescence under a checkpoint barrier, one queue entry at a time, queue
  promotion in acceptance order, a final closed state.
\<close>

section \<open>Terminating a command\<close>

lemma terminated_parts_sel [simp]:
  "queued_prompts (detach_contexts cid s) = queued_prompts s"
  "active_prompt (detach_contexts cid s) = active_prompt s"
  "execution (detach_contexts cid s) = execution s"
  "checkpoint_barrier (detach_contexts cid s) = checkpoint_barrier s"
  "checkpoint_ready_through (detach_contexts cid s) = checkpoint_ready_through s"
  "checkpoint_ready_digest (detach_contexts cid s) = checkpoint_ready_digest s"
  "active_user_shells (detach_contexts cid s) = active_user_shells s"
  "acknowledged_through (detach_contexts cid s) = acknowledged_through s"
  "recovery_floor_ordinal (detach_contexts cid s) = recovery_floor_ordinal s"
  "dispatches (detach_contexts cid s) = dispatches s"
  "handled_commands (detach_contexts cid s) = handled_commands s"
  "queued_prompts (terminated_shell_context st cid cmd msg s) = queued_prompts s"
  "active_prompt (terminated_shell_context st cid cmd msg s) = active_prompt s"
  "execution (terminated_shell_context st cid cmd msg s) = execution s"
  "checkpoint_barrier (terminated_shell_context st cid cmd msg s) = checkpoint_barrier s"
  "checkpoint_ready_through (terminated_shell_context st cid cmd msg s) = checkpoint_ready_through s"
  "checkpoint_ready_digest (terminated_shell_context st cid cmd msg s) = checkpoint_ready_digest s"
  "active_user_shells (terminated_shell_context st cid cmd msg s) = active_user_shells s"
  "acknowledged_through (terminated_shell_context st cid cmd msg s) = acknowledged_through s"
  "recovery_floor_ordinal (terminated_shell_context st cid cmd msg s) = recovery_floor_ordinal s"
  "dispatches (terminated_shell_context st cid cmd msg s) = dispatches s"
  "handled_commands (terminated_shell_context st cid cmd msg s) = handled_commands s"
  by (simp_all add: detach_contexts_def terminated_shell_context_def split: relay_command.split option.split)

lemma apply_command_terminated_sel:
  assumes "apply_command_terminated st n cid observed message s = Ok s'" "bt_get (dispatches s) cid = Some d"
  shows "dispatches s' = dispatches (set_terminal_ordinal cid n (set_dispatch_state cid st s))"
    "handled_commands s' = handled_commands (set_terminal_ordinal cid n (set_dispatch_state cid st s))"
    "queued_prompts s' = filter (\<lambda>q. q_command_id q \<noteq> cid) (queued_prompts s)"
    "active_user_shells s' = bt_remove cid (active_user_shells s)"
    "active_prompt s' = (if map_option ap_command_id (active_prompt s) = Some cid then None else active_prompt s)"
    "is_begin_checkpoint (d_command d) \<and> checkpoint_barrier s = Some cid \<Longrightarrow>
       checkpoint_barrier s' = None \<and> checkpoint_ready_through s' = None \<and> checkpoint_ready_digest s' = None"
    "\<not> (is_begin_checkpoint (d_command d) \<and> checkpoint_barrier s = Some cid) \<Longrightarrow>
       checkpoint_barrier s' = checkpoint_barrier s \<and> checkpoint_ready_through s' = checkpoint_ready_through s
       \<and> checkpoint_ready_digest s' = checkpoint_ready_digest s"
    "acknowledged_through s' = acknowledged_through s" "recovery_floor_ordinal s' = recovery_floor_ordinal s"
    "execution s' = (if map_option ap_command_id (active_prompt s) = Some cid then ExIdle
       else if is_close (d_command d) \<and> execution s = ExClosing then ExIdle else execution s)"
  using assms by (auto simp: apply_command_terminated_def Let_def clear_barrier_def split: if_splits)

lemma terminated_finishes:
  assumes inv: "relay_inv s" and guard: "terminate_guard s cid" and st: "is_terminal st"
    and ok: "apply_command_terminated st n cid observed message s = Ok s'" and n: "latest_ordinal s \<le> n"
  shows "finishes {cid} n s s'"
proof -
  from guard obtain d where d: "bt_get (dispatches s) cid = Some d" "\<not> is_terminal (d_state d)"
    by (auto simp: terminate_guard_def)
  then have e: "entry s cid = Some (d_command d, phase_of (d_state d))" "phase_of (d_state d) \<noteq> Done"
    by (simp_all add: entry_def phase_of_iff)
  note sel = apply_command_terminated_sel [OF ok d(1)]
  have bar: "checkpoint_barrier s = Some cid \<Longrightarrow> is_begin_checkpoint (d_command d)"
    using named_by(3) [OF inv, of cid] e by auto
  have "ledger_marks {cid} n s s'" by (rule marks_frame [OF base_marks [OF st] sel(1,2)])
  moreover have "lets_go {cid} s s'"
  proof (cases "checkpoint_barrier s = Some cid")
    case True
    with sel(6) bar have "checkpoint_barrier s' = None" "checkpoint_ready_through s' = None"
      "checkpoint_ready_digest s' = None" by blast+
    with True show ?thesis unfolding lets_go_def sel(3-5) by (auto split: option.split)
  next
    case False
    with sel(7) have "checkpoint_barrier s' = checkpoint_barrier s"
      "checkpoint_ready_through s' = checkpoint_ready_through s"
      "checkpoint_ready_digest s' = checkpoint_ready_digest s" by blast+
    with False ready_when_barrier [OF inv] show ?thesis
      unfolding lets_go_def sel(3-5) by (auto split: option.split)
  qed
  moreover have "execution_after {cid} s s'"
    using e close_okD(1) [OF relay_invD(5) [OF inv]]
    by (cases "d_command d") (auto simp: execution_after_def sel(10))
  ultimately show ?thesis
    using frontier_okD(2) [OF relay_invD(7) [OF inv]] n by (simp add: finishes_def sel(8,9))
qed

section \<open>Steps that keep the ledger\<close>

lemma frontier_ok_same_core:
  assumes "frontier_ok s" "same_core s s'"
    and "acknowledged_through s' \<le> latest_ordinal s'" "recovery_floor_ordinal s' = recovery_floor_ordinal s"
    and "latest_ordinal s' \<le> u64_max" "is_hex_digest (latest_digest s')"
  shows "frontier_ok s'"
  using frontier_okD(2,5) [OF assms(1)] same_coreD(9) [OF assms(2)] assms(3-6)
  unfolding frontier_ok_def same_coreD(1) [OF assms(2)] by (auto intro: order_trans)

lemma same_core_refl_ledger:
  assumes "dispatches s' = dispatches s" "handled_commands s' = handled_commands s"
    "queued_prompts s' = queued_prompts s" "active_prompt s' = active_prompt s" "execution s' = execution s"
    "checkpoint_barrier s' = checkpoint_barrier s" "active_user_shells s' = active_user_shells s"
    "latest_ordinal s \<le> latest_ordinal s'"
  shows "same_core s s'"
  using assms by (auto simp: same_core_def entry_def fun_eq_iff)

lemma same_core_set_dispatch_state:
  assumes "entry s cid = Some (cmd, phase_of st)"
  shows "same_core s (set_dispatch_state cid st s)"
proof -
  have "entry (set_dispatch_state cid st s) = entry s"
    using assms by (auto simp: entry_set_dispatch_state fun_eq_iff)
  then show ?thesis by (simp add: same_core_def set_dispatch_state_def)
qed

lemma relay_inv_keeps:
  assumes "relay_inv s" "same_core s s'"
    and "acknowledged_through s' \<le> latest_ordinal s'" "recovery_floor_ordinal s' = recovery_floor_ordinal s"
    and "latest_ordinal s' \<le> u64_max" "is_hex_digest (latest_digest s')"
    and "checkpoint_ready_through s' = checkpoint_ready_through s"
    and "checkpoint_ready_digest s' = checkpoint_ready_digest s"
  shows "relay_inv s'"
proof (rule relay_inv_same_core [OF assms(1,2)])
  note bar = barrier_okD [OF relay_invD(4) [OF assms(1)]]
  show "frontier_ok s'" by (rule frontier_ok_same_core [OF relay_invD(7) [OF assms(1)] assms(2-6)])
  show "checkpoint_ready_through s' = None \<longleftrightarrow> checkpoint_ready_digest s' = None"
    using bar(4) unfolding assms(7,8) .
  show "checkpoint_ready_through s' \<noteq> None \<Longrightarrow> checkpoint_barrier s' \<noteq> None"
    using bar(5) unfolding assms(7) same_coreD(6) [OF assms(2)] .
  show "checkpoint_ready_through s' = Some n \<Longrightarrow> 0 < n \<and> n \<le> latest_ordinal s'" for n
    using bar(6) [of n] same_coreD(9) [OF assms(2)] unfolding assms(7) by simp
qed

lemma relay_inv_ready:
  assumes inv: "relay_inv s" and b: "checkpoint_barrier s \<noteq> None"
    and s': "s' = advance_frontier ev (s\<lparr>checkpoint_ready_through := Some (ev_ordinal ev),
                                    checkpoint_ready_digest := Some (ev_digest ev)\<rparr>)"
    and n: "ev_ordinal ev = Suc (latest_ordinal s)" "ev_ordinal ev \<le> u64_max" "is_hex_digest (ev_digest ev)"
  shows "relay_inv s'"
proof -
  have core: "same_core s s'" by (rule same_core_refl_ledger) (simp_all add: s' n advance_frontier_def)
  show ?thesis
  proof (rule relay_inv_same_core [OF inv core])
    show "frontier_ok s'"
      by (rule frontier_ok_same_core [OF relay_invD(7) [OF inv] core])
        (use frontier_okD(1) [OF relay_invD(7) [OF inv]] n in \<open>simp_all add: s' advance_frontier_def\<close>)
  qed (use b n in \<open>auto simp: s' advance_frontier_def\<close>)
qed

lemma claim_command_core:
  assumes "entry s (snd p) = Some (cmd, Started)"
  shows "same_core s (snd (claim_command p s))"
    and "\<exists>c1 c2 ds. snd (claim_command p s) =
           s\<lparr>pending_prompt_ctx := c1, pending_user_shell_contexts := c2, dispatches := ds\<rparr>"
proof -
  let ?s1 = "set_dispatch_state (snd p) DInFlight s"
  have core: "same_core s ?s1" by (rule same_core_set_dispatch_state) (simp add: assms)
  show "same_core s (snd (claim_command p s))"
    using core by (auto simp: claim_command_def Let_def same_core_def entry_def fun_eq_iff split: option.split)
  from assms obtain d where "bt_get (dispatches s) (snd p) = Some d" by (auto simp: entry_def)
  then show "\<exists>c1 c2 ds. snd (claim_command p s) =
           s\<lparr>pending_prompt_ctx := c1, pending_user_shell_contexts := c2, dispatches := ds\<rparr>"
    by (intro exI [of _ "pending_prompt_ctx (snd (claim_command p s))"]
         exI [of _ "pending_user_shell_contexts (snd (claim_command p s))"]
         exI [of _ "dispatches (snd (claim_command p s))"])
      (simp add: claim_command_def Let_def set_dispatch_state_def)
qed

lemma relay_inv_claims:
  assumes "relay_inv s" "\<forall>p \<in> set ps. \<exists>cmd. entry s (snd p) = Some (cmd, Started)"
  shows "relay_inv (snd (claim_commands ps s))"
  using assms
proof (induction ps arbitrary: s)
  case (Cons p ps)
  let ?s1 = "snd (claim_command p s)"
  from Cons.prems(2) obtain cmd where "entry s (snd p) = Some (cmd, Started)" by auto
  note core = claim_command_core [OF this]
  from core(2) obtain c1 c2 ds
    where s1: "?s1 = s\<lparr>pending_prompt_ctx := c1, pending_user_shell_contexts := c2, dispatches := ds\<rparr>" by blast
  note fr = frontier_okD [OF relay_invD(7) [OF Cons.prems(1)]]
  have "relay_inv ?s1"
    by (rule relay_inv_keeps [OF Cons.prems(1) core(1)]) (use fr(1,3,4) in \<open>simp_all add: s1\<close>)
  moreover have "\<forall>p \<in> set ps. \<exists>cmd. entry ?s1 (snd p) = Some (cmd, Started)"
    using Cons.prems(2) unfolding same_coreD(1) [OF core(1)] by simp
  ultimately have "relay_inv (snd (claim_commands ps ?s1))" by (rule Cons.IH)
  then show ?case by (simp add: split_beta)
qed simp

section \<open>Every step keeps the invariant\<close>

lemma runtime_observation_keeps:
  assumes "runtime_observation (ev_observation ev)" "apply_observation ev s = Ok s1"
  shows "dispatches s1 = dispatches s" "handled_commands s1 = handled_commands s"
    "queued_prompts s1 = queued_prompts s" "active_prompt s1 = active_prompt s" "execution s1 = execution s"
    "checkpoint_barrier s1 = checkpoint_barrier s" "active_user_shells s1 = active_user_shells s"
    "acknowledged_through s1 = acknowledged_through s" "recovery_floor_ordinal s1 = recovery_floor_ordinal s"
    "checkpoint_ready_through s1 = checkpoint_ready_through s" "checkpoint_ready_digest s1 = checkpoint_ready_digest s"
  using assms
  by (cases "ev_observation ev"; auto simp: apply_observation_def apply_session_update_def split: session_update.splits)+

text \<open>What an applied event can have done to the snapshot.\<close>

text \<open>The command whose end an observation reports.\<close>

fun finishing :: "relay_observation \<Rightarrow> string option" where
  "finishing (CommandCompleted cid _) = Some cid"
| "finishing (CommandRejected cid _ _) = Some cid"
| "finishing (CommandInterrupted cid _ _) = Some cid"
| "finishing _ = None"

lemma event_cases:
  assumes inv: "relay_inv s" and guard: "event_guard s (ev_observation ev)" and ok: "apply_observation ev s = Ok s1"
    and n: "latest_ordinal s \<le> ev_ordinal ev"
  obtains (queued) cid cmd created where "ev_observation ev = CommandQueued cid cmd created" "queue_guard s cid cmd"
      "s1 = apply_command_queued (ev_ordinal ev) cid cmd created s"
    | (started) cid at where "ev_observation ev = CommandStarted cid at" "start_guard s cid"
      "apply_command_started cid at s = Ok s1"
    | (finished) R where "finishes R (ev_ordinal ev) s s1"
      "\<forall>c \<in> R. \<forall>k. entry s c = Some (k, Started) \<longrightarrow> finishing (ev_observation ev) = Some c \<or> is_begin_checkpoint k"
    | (ready) cid where "checkpoint_barrier s = Some cid"
      "s1 = s\<lparr>checkpoint_ready_through := Some (ev_ordinal ev), checkpoint_ready_digest := Some (ev_digest ev)\<rparr>"
    | (runtime) "runtime_observation (ev_observation ev)"
proof (cases "ev_observation ev")
  case (CommandQueued cid cmd created)
  with guard ok queued show thesis by (simp add: apply_observation_def)
next
  case (CommandStarted cid at)
  with guard ok started show thesis by (simp add: apply_observation_def)
next
  case (CommandCompleted cid outcome)
  with guard ok have "complete_guard s cid" "apply_command_completed (ev_ordinal ev) cid outcome s = Ok s1"
    by (simp_all add: apply_observation_def)
  from completed_finishes [OF inv this n] finished CommandCompleted show thesis by fastforce
next
  case (CommandRejected cid kind msg)
  with guard ok have "terminate_guard s cid"
    "apply_command_terminated DRejected (ev_ordinal ev) cid kind msg s = Ok s1" by (simp_all add: apply_observation_def)
  from terminated_finishes [OF inv this(1) _ this(2) n] finished CommandRejected show thesis by simp
next
  case (CommandInterrupted cid kind msg)
  with guard ok have "terminate_guard s cid"
    "apply_command_terminated DInterrupted (ev_ordinal ev) cid kind msg s = Ok s1" by (simp_all add: apply_observation_def)
  from terminated_finishes [OF inv this(1) _ this(2) n] finished CommandInterrupted show thesis by simp
next
  case (CheckpointReady cid through)
  with ok have "apply_checkpoint_ready ev cid through s = Ok s1" by (simp add: apply_observation_def)
  then have "checkpoint_barrier s = Some cid"
    "s1 = s\<lparr>checkpoint_ready_through := Some (ev_ordinal ev), checkpoint_ready_digest := Some (ev_digest ev)\<rparr>"
    by (auto simp: apply_checkpoint_ready_def split: if_splits)
  then show thesis by (rule ready)
next
  case Closed
  with guard ok have "s1 = s"
    using turn_okD(4) [OF relay_invD(3) [OF inv]] by (cases "active_prompt s") (auto simp: apply_observation_def)
  with finishes_nothing [OF inv n] finished show thesis by simp
qed (use guard runtime in simp_all)

lemma relay_inv_event:
  assumes env: "env_ok env" and inv: "relay_inv s" and guard: "event_guard s (ev_observation ev)"
    and ok: "apply_relay_event env ev s = Ok s'"
  shows "relay_inv s'"
proof -
  from ok obtain s1 where v: "validate_relay_event env (latest_ordinal s) (latest_digest s) ev = Ok ()"
    and s1: "apply_observation ev s = Ok s1" and s': "s' = advance_frontier ev s1"
    by (auto simp: apply_relay_event_Ok)
  then have n: "ev_ordinal ev = Suc (latest_ordinal s)" "latest_ordinal s \<le> ev_ordinal ev"
    "ev_ordinal ev \<le> u64_max" "is_hex_digest (ev_digest ev)"
    using validated_digest [OF env v] by (simp_all add: validate_relay_event_Ok)
  from inv guard s1 n(2) show ?thesis
  proof (cases rule: event_cases)
    case queued
    show ?thesis using relay_inv_accepts [OF inv queued(2) _ n(1,3,4)] queued(3) s' by simp
  next
    case started
    show ?thesis unfolding s' by (rule relay_inv_started [OF inv started(2,3) n(2-4)])
  next
    case finished
    show ?thesis unfolding s' by (rule finishes_inv [OF inv finished(1) n(2-4)])
  next
    case ready
    then show ?thesis using relay_inv_ready [OF inv _ _ n(1,3,4)] s' by simp
  next
    case runtime
    note frame = runtime_observation_keeps [OF runtime s1]
    have "same_core s s'"
      by (rule same_core_refl_ledger) (use frame n(2) in \<open>simp_all add: s'\<close>)
    with inv show ?thesis
      by (rule relay_inv_keeps)
        (use frame n frontier_okD(1) [OF relay_invD(7) [OF inv]] in \<open>simp_all add: s'\<close>)
  qed
qed

lemma relay_inv_step:
  assumes "env_ok env" "relay_step env s s'" "relay_inv s"
  shows "relay_inv s'"
  using assms(2)
proof cases
  case (step_event ev)
  then show ?thesis using relay_inv_event [OF assms(1,3)] by blast
next
  case (step_claim ps)
  have "\<exists>cmd. entry s (snd p) = Some (cmd, Started)" if "p \<in> set ps" for p
    using step_claim(2) that by (fastforce simp: entry_Some)
  then show ?thesis unfolding step_claim(1) by (intro relay_inv_claims [OF assms(3)]) blast
next
  case (step_acknowledge n d)
  note fr = frontier_okD [OF relay_invD(7) [OF assms(3)]]
  have "same_core s s'" by (rule same_core_refl_ledger) (simp_all add: step_acknowledge(1))
  with assms(3) show ?thesis
    by (rule relay_inv_keeps) (use step_acknowledge fr in simp_all)
next
  case step_prune
  then show ?thesis using relay_inv_prune [OF assms(3)] by simp
next
  case (step_context c)
  note fr = frontier_okD [OF relay_invD(7) [OF assms(3)]]
  have "same_core s s'" by (rule same_core_refl_ledger) (simp_all add: step_context)
  with assms(3) show ?thesis
    by (rule relay_inv_keeps) (use step_context fr in simp_all)
next
  case (step_reclose cid d)
  note fr = frontier_okD [OF relay_invD(7) [OF assms(3)]]
  have "same_core s s'" unfolding step_reclose(1)
    by (rule same_core_set_dispatch_state) (use step_reclose in \<open>simp add: entry_def\<close>)
  with assms(3) show ?thesis
    by (rule relay_inv_keeps) (use fr in \<open>simp_all add: step_reclose(1) set_dispatch_state_def\<close>)
qed

lemma relay_inv_steps:
  assumes "relay_steps env s s'" "env_ok env" "relay_inv s"
  shows "relay_inv s'"
  using assms by (induction rule: relay_steps.induct) (blast intro: relay_inv_step)+

section \<open>What a step never undoes\<close>

definition moves_forward :: "relay_snapshot \<Rightarrow> relay_snapshot \<Rightarrow> bool" where
  "moves_forward s s' \<longleftrightarrow>
     latest_ordinal s \<le> latest_ordinal s' \<and> acknowledged_through s \<le> acknowledged_through s'
     \<and> (execution s = ExClosed \<longrightarrow> execution s' = ExClosed)
     \<and> (\<forall>c cmd. entry s c = Some (cmd, Done) \<longrightarrow> entry s' c = None \<or> entry s' c = Some (cmd, Done))"

lemma moves_forward_core:
  assumes "same_core s s'" "acknowledged_through s \<le> acknowledged_through s'"
  shows "moves_forward s s'"
  using assms(2) same_coreD(9) [OF assms(1)]
  unfolding moves_forward_def same_coreD(1,5) [OF assms(1)] by simp

lemma moves_forward_finishes:
  assumes inv: "relay_inv s" and "finishes R n s s1" "latest_ordinal s \<le> ev_ordinal ev"
  shows "moves_forward s (advance_frontier ev s1)"
proof -
  note fin = assms(2) [unfolded finishes_def ledger_marks_def]
  have "execution s1 = ExClosed" if "execution s = ExClosed"
  proof -
    from turn_okD(4) [OF relay_invD(3) [OF inv]] that have "active_prompt s = None" by simp
    moreover from close_okD(1) [OF relay_invD(5) [OF inv]] that
    have "\<not> (\<exists>c \<in> R. \<exists>b e ph. entry s c = Some (Close b e, ph) \<and> ph \<noteq> Done)" by fastforce
    ultimately show ?thesis using fin that by (simp add: execution_after_def)
  qed
  then show ?thesis using fin assms(3) by (simp add: moves_forward_def)
qed

lemma moves_forward_event:
  assumes inv: "relay_inv s" and guard: "event_guard s (ev_observation ev)"
    and ok: "apply_relay_event env ev s = Ok s'"
  shows "moves_forward s s'"
proof -
  from ok obtain s1 where s1: "apply_observation ev s = Ok s1" and s': "s' = advance_frontier ev s1"
    by (auto simp: apply_relay_event_Ok)
  have n: "latest_ordinal s \<le> ev_ordinal ev"
    using apply_relay_event_frontier [OF ok] by simp
  from inv guard s1 n show ?thesis
  proof (cases rule: event_cases)
    case (queued cid cmd created)
    note g = queue_guardD [OF queued(2) relay_invD(1) [OF inv]]
    note sel = apply_command_queued_sel [OF queued(3)]
    have e: "entry s' c = (if c = cid then Some (cmd, Waiting) else entry s c)" for c
      by (simp add: s' entry_def sel(1))
    have "is_close cmd \<Longrightarrow> execution s \<noteq> ExClosed" using g(4) by simp
    then have "execution s = ExClosed \<Longrightarrow> execution s' = ExClosed" by (auto simp: s' sel(5))
    moreover have "entry s' c = Some (k, Done)" if "entry s c = Some (k, Done)" for c k
      using that g(1) by (auto simp: e)
    ultimately show ?thesis using n by (simp add: moves_forward_def s' sel(10))
  next
    case (started cid at)
    obtain d where d: "bt_get (dispatches s) cid = Some d" "d_state d = DQueued" "entry s cid = Some (d_command d, Waiting)"
      and q: "is_queue_entry (d_command d) \<Longrightarrow> \<exists>q rest. queued_prompts s = q # rest \<and> q_command_id q = cid"
        "is_queue_entry (d_command d) \<Longrightarrow> active_prompt s = None \<and> execution s = ExIdle"
      using start_guardD [OF started(2) relay_invD(1) [OF inv]] by metis
    note st = startsD [OF apply_command_started_starts [OF started(3) d(1,2) q(1) relay_invD(2) [OF inv] n]]
    have "is_close (d_command d) \<Longrightarrow> execution s = ExClosing"
      using close_okD(1) [OF relay_invD(5) [OF inv]] d(3) by (cases "d_command d") auto
    moreover have "is_prompt (d_command d) \<Longrightarrow> execution s = ExIdle"
      using q(2) by (cases "d_command d") auto
    ultimately have "execution s = ExClosed \<Longrightarrow> execution s' = ExClosed"
      using st(9) by (auto simp: s')
    moreover have "entry s' c = Some (k, Done)" if "entry s c = Some (k, Done)" for c k
      using that d(3) st(2) [of c] by (auto simp: s')
    ultimately show ?thesis
      using st(15,17) by (simp add: moves_forward_def s')
  next
    case (finished R)
    from moves_forward_finishes [OF inv finished(1) n] show ?thesis by (simp add: s')
  next
    case (ready cid)
    have "same_core s s'" by (rule same_core_refl_ledger) (use ready n in \<open>simp_all add: s'\<close>)
    then show ?thesis by (rule moves_forward_core) (simp add: s' ready)
  next
    case runtime
    note frame = runtime_observation_keeps [OF runtime s1]
    have "same_core s s'" by (rule same_core_refl_ledger) (use frame n in \<open>simp_all add: s'\<close>)
    then show ?thesis by (rule moves_forward_core) (simp add: s' frame)
  qed
qed

lemma claim_commands_core:
  "\<forall>p \<in> set ps. \<exists>cmd. entry s (snd p) = Some (cmd, Started) \<Longrightarrow>
     same_core s (snd (claim_commands ps s))
     \<and> acknowledged_through (snd (claim_commands ps s)) = acknowledged_through s"
proof (induction ps arbitrary: s)
  case Nil
  have "same_core s s" by (rule same_core_refl_ledger) simp_all
  then show ?case by simp
next
  case (Cons p ps)
  let ?s1 = "snd (claim_command p s)"
  from Cons.prems obtain cmd where "entry s (snd p) = Some (cmd, Started)" by auto
  note core = claim_command_core [OF this]
  from core(2) have ack: "acknowledged_through ?s1 = acknowledged_through s" by auto
  have "\<forall>p \<in> set ps. \<exists>cmd. entry ?s1 (snd p) = Some (cmd, Started)"
    using Cons.prems unfolding same_coreD(1) [OF core(1)] by simp
  from Cons.IH [OF this] core(1) ack show ?case
    by (auto simp: split_beta same_core_def)
qed

lemma moves_forward_step:
  assumes "relay_step env s s'" "relay_inv s"
  shows "moves_forward s s'"
  using assms(1)
proof cases
  case (step_event ev)
  then show ?thesis using moves_forward_event [OF assms(2)] by blast
next
  case (step_claim ps)
  have "\<forall>p \<in> set ps. \<exists>cmd. entry s (snd p) = Some (cmd, Started)"
    using step_claim(2) by (fastforce simp: entry_Some)
  from claim_commands_core [OF this] step_claim(1) show ?thesis by (auto intro: moves_forward_core)
next
  case (step_acknowledge n d)
  have "same_core s s'" by (rule same_core_refl_ledger) (simp_all add: step_acknowledge(1))
  then show ?thesis by (rule moves_forward_core) (use step_acknowledge in simp)
next
  case (step_prune through)
  then show ?thesis by (auto simp: moves_forward_def entry_prune) (simp_all add: prune_commands_def)
next
  case (step_context c)
  have "same_core s s'" by (rule same_core_refl_ledger) (simp_all add: step_context)
  then show ?thesis by (rule moves_forward_core) (simp add: step_context)
next
  case (step_reclose cid d)
  have "same_core s s'" unfolding step_reclose(1)
    by (rule same_core_set_dispatch_state) (use step_reclose in \<open>simp add: entry_def\<close>)
  then show ?thesis by (rule moves_forward_core) (simp add: step_reclose(1) set_dispatch_state_def)
qed

lemma closed_steps:
  assumes "relay_steps env s s'" "env_ok env" "relay_inv s" "execution s = ExClosed"
  shows "execution s' = ExClosed"
  using assms
proof (induction rule: relay_steps.induct)
  case (steps_step s s' s'')
  from relay_inv_steps [OF steps_step.hyps(1) steps_step.prems(1,2)] steps_step.IH steps_step.prems
    moves_forward_step [OF steps_step.hyps(2)] show ?case by (simp add: moves_forward_def)
qed simp

section \<open>Concrete runs\<close>

text \<open>
  A scripted run of the machine: each move records one observation under its guard, or claims
  every command that is ready for the driver.
\<close>

datatype example_move = Observe relay_observation | Claim

fun example_run :: "example_move list \<Rightarrow> relay_snapshot \<Rightarrow> relay_snapshot option" where
  "example_run [] s = Some s"
| "example_run (Claim # ms) s = example_run ms (snd (claim_commands (claimable s) s))"
| "example_run (Observe obs # ms) s =
     (if event_guard s obs \<and> latest_ordinal s < 1000 then
        (case apply_observation (example_event (Suc (latest_ordinal s)) obs) s of
           Ok s1 \<Rightarrow> example_run ms (advance_frontier (example_event (Suc (latest_ordinal s)) obs) s1)
         | _ \<Rightarrow> None)
      else None)"

lemma example_event_valid:
  assumes "latest_ordinal s < 1000" "is_hex_digest (latest_digest s)"
    and "apply_observation (example_event (Suc (latest_ordinal s)) obs) s = Ok s1"
  shows "apply_relay_event (example_env es ss) (example_event (Suc (latest_ordinal s)) obs) s
           = Ok (advance_frontier (example_event (Suc (latest_ordinal s)) obs) s1)"
  unfolding apply_relay_event_def using assms
  by (simp add: example_event_def validate_relay_event_def validate_relay_event_self_def validate_relay_digest_def
        relay_event_digest_def digest_over_def example_env_def checked_add_u64_def u64_max_def is_hex_digest_def
        RELAY_EVENT_FORMAT_V1_def RELAY_EVENT_FORMAT_V2_def list_all_iff is_ascii_digit_def)

lemma claimable_pending:
  assumes "bt_wf (dispatches s)" "p \<in> set (claimable s)"
  shows "\<exists>d. bt_get (dispatches s) (snd p) = Some d \<and> d_state d = DPending"
  using assms by (force simp: claimable_def List.map_filter_def bt_mem_iff split: if_splits option.splits)

lemma example_run_steps:
  "example_run ms s = Some s' \<Longrightarrow> relay_inv s \<Longrightarrow> relay_steps (example_env es ss) s s'"
proof (induction ms s rule: example_run.induct)
  case (2 ms s)
  have "bt_wf (dispatches s)" using ledger_okD(1) [OF relay_invD(1) [OF "2.prems"(2)]] .
  then have step: "relay_step (example_env es ss) s (snd (claim_commands (claimable s) s))"
    by (intro step_claim ballI claimable_pending)
  from relay_inv_step [OF env_ok_example this "2.prems"(2)] "2.IH" "2.prems"(1)
  have "relay_steps (example_env es ss) (snd (claim_commands (claimable s) s)) s'" by simp
  with relay_step_steps [OF step] show ?case by (rule relay_steps_trans)
next
  case (3 obs ms s)
  let ?ev = "example_event (Suc (latest_ordinal s)) obs"
  from "3.prems"(1) obtain s1 where g: "event_guard s obs" "latest_ordinal s < 1000"
    and s1: "apply_observation ?ev s = Ok s1" and rest: "example_run ms (advance_frontier ?ev s1) = Some s'"
    by (auto split: if_splits outcome.splits)
  note hex = frontier_okD(4) [OF relay_invD(7) [OF "3.prems"(2)]]
  have obs: "ev_observation ?ev = obs" by (simp add: example_event_def)
  from example_event_valid [OF g(2) hex s1] g(1)
  have step: "relay_step (example_env es ss) s (advance_frontier ?ev s1)"
    by (intro step_event [of s ?ev]) (simp_all only: obs)
  from relay_inv_step [OF env_ok_example this "3.prems"(2)] "3.IH" g s1 rest
  have "relay_steps (example_env es ss) (advance_frontier ?ev s1) s'" by simp
  with relay_step_steps [OF step] show ?case by (rule relay_steps_trans)
qed simp

lemma example_reach:
  assumes "map_option f (example_run ms (new_snapshot sid)) = Some x"
  shows "\<exists>s. relay_steps (example_env es ss) (new_snapshot sid) s \<and> f s = x"
  using assms example_run_steps [OF _ relay_inv_new] by (cases "example_run ms (new_snapshot sid)") (auto, blast)

text \<open>
  A prompt runs to its end, a checkpoint barrier is raised and becomes ready, the session is
  closed on that cut, the checkpoint completes, and the close command finishes.
\<close>

definition example_moves :: "example_move list" where
  "example_moves =
     [Observe (CommandQueued ''p'' (Prompt [JString ''hi'']) 0), Observe (CommandQueued ''q'' (Prompt [JString ''yo'']) 0),
      Observe (CommandStarted ''p'' 0), Claim, Observe (CommandCompleted ''p'' (OPrompt ''end'')),
      Observe (CommandQueued ''r'' (RemoveQueuedPrompt ''q'') 0),
      Observe (CommandCompleted ''r'' (OQueueChanged [''q''])),
      Observe (CommandQueued ''b'' (BeginCheckpoint None) 0), Observe (CommandStarted ''b'' 0), Claim,
      Observe (CheckpointReady ''b'' 9),
      Observe (CommandQueued ''c'' (Close ''b'' \<lparr>cur_ordinal = 9, cur_digest = replicate 64 (CHR ''a'')\<rparr>) 0),
      Observe (CommandQueued ''k'' (CompleteCheckpoint ''b'') 0), Observe (CommandCompleted ''k'' OCheckpointCompleted),
      Observe (CommandStarted ''c'' 0), Claim, Observe (CommandCompleted ''c'' OClosed)]"

definition example_view ::
  "relay_snapshot \<Rightarrow> relay_execution_state \<times> string option \<times> string list \<times> (string \<times> dispatch_state) list" where
  "example_view s =
     (execution s, checkpoint_barrier s, map q_command_id (queued_prompts s),
      map (\<lambda>(c, d). (c, d_state d)) (dispatches s))"

lemma example_views:
  "map_option example_view (example_run (take 2 example_moves) (new_snapshot ''s'')) =
     Some (ExIdle, None, [''p'', ''q''], [(''p'', DQueued), (''q'', DQueued)])"
  "map_option example_view (example_run (take 4 example_moves) (new_snapshot ''s'')) =
     Some (ExRunning, None, [''q''], [(''p'', DInFlight), (''q'', DQueued)])"
  "map_option example_view (example_run (take 11 example_moves) (new_snapshot ''s'')) =
     Some (ExIdle, Some ''b'', [], [(''b'', DInFlight), (''p'', DCompleted), (''q'', DRejected), (''r'', DCompleted)])"
  "map_option example_view (example_run example_moves (new_snapshot ''s'')) =
     Some (ExClosed, None, [], [(''b'', DCompleted), (''c'', DCompleted), (''k'', DCompleted),
       (''p'', DCompleted), (''q'', DRejected), (''r'', DCompleted)])"
  by code_simp+

section \<open>Properties of the sessions the machine reaches\<close>

text \<open>
  C2: every snapshot a session reaches is well formed: the ledger, the queue, the running turn,
  the checkpoint barrier, the close state, the active shells and the frontiers agree.
\<close>

theorem reachable_well_formed:
  assumes "env_ok env" "relay_steps env (new_snapshot sid) s"
  shows "relay_inv s"
  using relay_inv_steps [OF assms(2,1) relay_inv_new] .

theorem reachable_well_formed_witness:
  "\<exists>s. relay_inv s \<and> fst (example_view s) = ExClosed"
proof -
  from example_reach [OF example_views(4), of "[]" "[]"] obtain s
    where "relay_steps (example_env [] []) (new_snapshot ''s'') s" "fst (example_view s) = ExClosed" by auto
  with reachable_well_formed [OF env_ok_example] show ?thesis by blast
qed

text \<open>
  C4: quiescence. While a checkpoint barrier is active its command is in progress, no turn runs,
  and no command with an effect on the agent or a shell is pending or in flight.
\<close>

theorem barrier_quiesces:
  assumes "env_ok env" "relay_steps env (new_snapshot sid) s" "checkpoint_barrier s = Some b"
  shows "\<not> effectful_command_in_progress s
    \<and> (\<exists>d. bt_get (dispatches s) b = Some d \<and> is_begin_checkpoint (d_command d) \<and> in_progress (d_state d))"
proof
  note part = relay_invD [OF relay_inv_steps [OF assms(2,1) relay_inv_new]]
  from barrier_okD(1) [OF part(4) assms(3)] show "\<exists>d. bt_get (dispatches s) b = Some d
      \<and> is_begin_checkpoint (d_command d) \<and> in_progress (d_state d)"
    by (auto simp: entry_Some phase_of_iff)
  have "\<not> is_effectful (d_command d)" if "bt_get (dispatches s) c = Some d" "in_progress (d_state d)" for c d
    using barrier_okD(2) [OF part(4) assms(3), of c "d_command d"] that by (simp add: entry_def phase_of_iff)
  then show "\<not> effectful_command_in_progress s"
    using effectful_started_when_active [OF part(3,4) assms(3)]
    unfolding effectful_in_progress_iff [OF ledger_okD(1) [OF part(1)]] by blast
qed

theorem barrier_quiesces_witness:
  "\<exists>s. checkpoint_barrier s = Some ''b'' \<and> \<not> effectful_command_in_progress s"
proof -
  from example_reach [OF example_views(3), of "[]" "[]"] obtain s
    where "relay_steps (example_env [] []) (new_snapshot ''s'') s" "checkpoint_barrier s = Some ''b''"
    by (auto simp: example_view_def)
  with barrier_quiesces [OF env_ok_example] show ?thesis by blast
qed

text \<open>
  C5: turns do not overlap. Of the commands that pass through the prompt queue, at most one is
  pending or in flight.
\<close>

theorem one_turn_at_a_time:
  assumes "env_ok env" "relay_steps env (new_snapshot sid) s"
    and "bt_get (dispatches s) c = Some d" "is_queue_entry (d_command d)" "in_progress (d_state d)"
    and "bt_get (dispatches s) c' = Some d'" "is_queue_entry (d_command d')" "in_progress (d_state d')"
  shows "c = c'"
proof -
  note part = relay_invD [OF relay_inv_steps [OF assms(2,1) relay_inv_new]]
  show ?thesis
    by (rule turn_okD(3) [OF part(3), of c "d_command d" c' "d_command d'"]) (use assms(3-8) in \<open>simp_all add: entry_def phase_of_iff\<close>)
qed

theorem one_turn_at_a_time_witness:
  "\<exists>(s :: relay_snapshot) d. bt_get (dispatches s) ''p'' = Some d \<and> in_progress (d_state d) \<and>
     \<not> (\<exists>c d'. c \<noteq> ''p'' \<and> bt_get (dispatches s) c = Some d' \<and> is_queue_entry (d_command d') \<and> in_progress (d_state d'))"
proof -
  let ?f = "\<lambda>s. map_option (\<lambda>d. (is_queue_entry (d_command d), in_progress (d_state d))) (bt_get (dispatches s) ''p'')"
  have "map_option ?f (example_run (take 4 example_moves) (new_snapshot ''s'')) = Some (Some (True, True))"
    by code_simp
  from example_reach [OF this, of "[]" "[]"] obtain s d
    where s: "relay_steps (example_env [] []) (new_snapshot ''s'') s"
      and d: "bt_get (dispatches s) ''p'' = Some d" "is_queue_entry (d_command d)" "in_progress (d_state d)" by auto
  have "\<not> (\<exists>c d'. c \<noteq> ''p'' \<and> bt_get (dispatches s) c = Some d' \<and> is_queue_entry (d_command d') \<and> in_progress (d_state d'))"
    using one_turn_at_a_time [OF env_ok_example s _ _ _ d] by metis
  with d show ?thesis by (intro exI [of _ s] exI [of _ d] conjI)
qed

text \<open>
  C6: the queue is served in the order of acceptance. The command that may be promoted next was
  accepted no later than any other command still waiting in the queue.
\<close>

theorem promotes_in_acceptance_order:
  assumes "env_ok env" "relay_steps env (new_snapshot sid) s" "promotable s = Some q"
    and "bt_get (dispatches s) c = Some d" "is_queue_entry (d_command d)" "d_state d = DQueued"
  shows "\<exists>m n. accepted_ordinal_of s (q_command_id q) = Some m \<and> accepted_ordinal_of s c = Some n \<and> m \<le> n"
proof -
  note part = relay_invD [OF relay_inv_steps [OF assms(2,1) relay_inv_new]]
  from assms(3) obtain rest where q: "queued_prompts s = q # rest"
    by (auto simp: promotable_def split: if_splits list.splits)
  have e: "entry s c = Some (d_command d, Waiting)" by (simp add: entry_def assms(4,6))
  from queue_okD(3) [OF part(2) e assms(5)] obtain r where r: "r \<in> set (queued_prompts s)" "c = q_command_id r" by auto
  have acc: "\<exists>n. accepted_ordinal_of s (q_command_id x) = Some n" if "x \<in> set (queued_prompts s)" for x
    using queue_okD(2) [OF part(2) that] ledger_okD(3) [OF part(1), of "q_command_id x"]
    by (auto simp: accepted_ordinal_of_def)
  from acc [of q] acc [OF r(1)] q obtain m n where mn: "accepted_ordinal_of s (q_command_id q) = Some m"
    "accepted_ordinal_of s c = Some n" by (auto simp: r(2))
  have "m \<le> n" using queue_okD(4) [OF part(2)] r mn unfolding queue_order_def q by force
  with mn show ?thesis by blast
qed

theorem promotes_in_acceptance_order_witness:
  "\<exists>s q m n. promotable s = Some q \<and> accepted_ordinal_of s (q_command_id q) = Some m
     \<and> accepted_ordinal_of s ''q'' = Some n \<and> m \<le> n"
proof -
  let ?f = "\<lambda>s. (promotable s \<noteq> None, map_option (\<lambda>d. (is_queue_entry (d_command d), d_state d)) (bt_get (dispatches s) ''q''))"
  have "map_option ?f (example_run (take 2 example_moves) (new_snapshot ''s'')) = Some (True, Some (True, DQueued))"
    by code_simp
  from example_reach [OF this, of "[]" "[]"] obtain s d q
    where s: "relay_steps (example_env [] []) (new_snapshot ''s'') s" and q: "promotable s = Some q"
      and d: "bt_get (dispatches s) ''q'' = Some d" "is_queue_entry (d_command d)" "d_state d = DQueued" by auto
  from promotes_in_acceptance_order [OF env_ok_example s q d] q show ?thesis by blast
qed

text \<open>
  C9: a closed session stays closed, whatever events, claims and acknowledgements follow.
\<close>

theorem closed_is_final:
  assumes "env_ok env" "relay_steps env (new_snapshot sid) s" "execution s = ExClosed" "relay_steps env s s'"
  shows "execution s' = ExClosed"
  using closed_steps [OF assms(4,1) relay_inv_steps [OF assms(2,1) relay_inv_new] assms(3)] .

theorem closed_is_final_witness:
  "\<exists>s :: relay_snapshot. execution (s\<lparr>acknowledged_through := 1, acknowledged_digest := replicate 64 (CHR ''b'')\<rparr>) = ExClosed
     \<and> relay_steps (example_env [] []) (new_snapshot ''s'') s"
proof -
  let ?d = "replicate 64 (CHR ''b'')"
  have "map_option (\<lambda>s. (execution s, acknowledged_through s, latest_ordinal s))
      (example_run example_moves (new_snapshot ''s'')) = Some (ExClosed, 0, 14)" by code_simp
  from example_reach [OF this, of "[]" "[]"] obtain s
    where s: "relay_steps (example_env [] []) (new_snapshot ''s'') s" "execution s = ExClosed"
      "acknowledged_through s < 1" "1 \<le> latest_ordinal s" by auto
  have "is_hex_digest ?d" by (simp add: is_hex_digest_def list_all_iff)
  from step_acknowledge [OF s(3,4) this] have "relay_steps (example_env [] []) s
      (s\<lparr>acknowledged_through := 1, acknowledged_digest := ?d\<rparr>)" by (rule relay_step_steps)
  from closed_is_final [OF env_ok_example s(1,2) this] s(1) show ?thesis by blast
qed

text \<open>
  C10: a finished command stays finished. One step after a command has a terminal state, either
  the ledger has released it or it still is the same command in a terminal state.
\<close>

theorem finished_stays_finished:
  assumes "env_ok env" "relay_steps env (new_snapshot sid) s" "relay_step env s s'"
    and "bt_get (dispatches s) c = Some d" "is_terminal (d_state d)"
  shows "case bt_get (dispatches s') c of
           None \<Rightarrow> bt_get (handled_commands s') c = None
         | Some d' \<Rightarrow> d_command d' = d_command d \<and> is_terminal (d_state d')"
proof -
  note inv = relay_inv_steps [OF assms(2,1) relay_inv_new]
  have "entry s c = Some (d_command d, Done)" by (simp add: entry_def assms(4,5) phase_of_iff)
  with moves_forward_step [OF assms(3) inv]
  have "entry s' c = None \<or> entry s' c = Some (d_command d, Done)" unfolding moves_forward_def by blast
  moreover have "entry s' c = None \<Longrightarrow> bt_get (handled_commands s') c = None"
    using ledger_okD(3) [OF relay_invD(1) [OF relay_inv_step [OF assms(1,3) inv]]] by simp
  ultimately show ?thesis by (auto simp: entry_None entry_Some phase_of_iff split: option.splits)
qed

theorem finished_stays_finished_witness:
  "\<exists>s s'. relay_step (example_env [] []) s s' \<and> (case bt_get (dispatches s') ''p'' of
       None \<Rightarrow> bt_get (handled_commands s') ''p'' = None
     | Some d' \<Rightarrow> is_prompt (d_command d') \<and> is_terminal (d_state d'))"
proof -
  let ?f = "\<lambda>s. map_option (\<lambda>d. (is_prompt (d_command d), is_terminal (d_state d))) (bt_get (dispatches s) ''p'')"
  have "map_option ?f (example_run (take 5 example_moves) (new_snapshot ''s'')) = Some (Some (True, True))"
    by code_simp
  from example_reach [OF this, of "[]" "[]"] obtain s d
    where s: "relay_steps (example_env [] []) (new_snapshot ''s'') s"
      and d: "bt_get (dispatches s) ''p'' = Some d" "is_prompt (d_command d)" "is_terminal (d_state d)" by auto
  let ?s' = "prune_commands (prunable_command_ids s 0) s"
  have "case bt_get (dispatches ?s') ''p'' of
       None \<Rightarrow> bt_get (handled_commands ?s') ''p'' = None
     | Some d' \<Rightarrow> is_prompt (d_command d') \<and> is_terminal (d_state d')"
    using finished_stays_finished [OF env_ok_example s step_prune [of _ s 0] d(1,3)] d(2)
    by (auto split: option.splits)
  then show ?thesis using step_prune by blast
qed

end
