(* ===== verification/Relay_Refinement.thy ===== *)
theory Relay_Refinement
  imports Relay_Service Relay_Safety
begin

text \<open>
  The methods of the relay refine the session machine: whatever a call does, returns or fails
  with, and whichever file operations fail on the way, the snapshot moves by steps of the
  machine only. So every property of the machine's sessions holds of the running relay.

  A call appends events and commits snapshots; \<open>wp_append\<close> and \<open>wp_commit\<close> give the steps these take,
  and each method is a few applications of them. The clamp can replace an observation before it
  is recorded, so \<open>codec_ok\<close> states what the relay relies on there: control observations are far
  below the budget, and a document in which only strings longer than the truncation floor were
  replaced still decodes to an observation about the same command.
\<close>

section \<open>What the codec promises\<close>

definition clamp_budget :: usize where
  "clamp_budget = RELAY_EVENT_BYTE_BUDGET - RELAY_EVENT_ENVELOPE_RESERVE"

fun short_ids :: "relay_observation \<Rightarrow> bool" where
  "short_ids (CommandQueued cid _ _) = (length cid \<le> 128)"
| "short_ids (CommandStarted cid _) = (length cid \<le> 128)"
| "short_ids (CommandCompleted cid _) = (length cid \<le> 128)"
| "short_ids (CommandRejected cid _ _) = (length cid \<le> 128)"
| "short_ids (CommandInterrupted cid _ _) = (length cid \<le> 128)"
| "short_ids (CheckpointReady cid _) = (length cid \<le> 128)"
| "short_ids _ = True"

fun keeps_control :: "relay_observation \<Rightarrow> relay_observation \<Rightarrow> bool" where
  "keeps_control (CommandCompleted cid _) obs' = (\<exists>outcome. obs' = CommandCompleted cid outcome)"
| "keeps_control (CommandRejected cid kind _) obs' = (\<exists>message. obs' = CommandRejected cid kind message)"
| "keeps_control (CommandInterrupted cid kind _) obs' = (\<exists>message. obs' = CommandInterrupted cid kind message)"
| "keeps_control obs obs' = (runtime_observation obs \<longrightarrow> runtime_observation obs')"

fun small :: "relay_env \<Rightarrow> relay_observation \<Rightarrow> bool" where
  "small env (CommandQueued cid cmd _) = (command_size env cmd \<le> RELAY_COMMAND_BYTE_BUDGET)"
| "small env _ = True"

text \<open>The observations whose only unbounded part, if any, was checked against a budget before.\<close>

fun plain_outcome :: "relay_command_outcome \<Rightarrow> bool" where
  "plain_outcome (OPrompt _) = False"
| "plain_outcome (OUserShell _) = False"
| "plain_outcome (OSteered _) = False"
| "plain_outcome (OQueueChanged _) = False"
| "plain_outcome _ = True"

fun exact :: "relay_observation \<Rightarrow> bool" where
  "exact (CommandQueued _ _ _) = True"
| "exact (CommandStarted _ _) = True"
| "exact (CheckpointReady _ _) = True"
| "exact (CommandCompleted _ outcome) = plain_outcome outcome"
| "exact (CommandRejected _ _ message) = (length message \<le> 256)"
| "exact (CommandInterrupted _ _ message) = (length message \<le> 256)"
| "exact Closed = True"
| "exact _ = False"

definition codec_ok :: "relay_env \<Rightarrow> bool" where
  "codec_ok env \<longleftrightarrow>
     (\<forall>obs. json_ok (observation_value env obs))
     \<and> (\<forall>obs. exact obs \<longrightarrow> short_ids obs \<longrightarrow> small env obs \<longrightarrow> observation_size env obs \<le> clamp_budget)
     \<and> (\<forall>obs v obs'. short_ids obs \<longrightarrow> cuts (observation_value env obs) v \<longrightarrow>
          observation_from_value env v = Inr obs' \<longrightarrow> keeps_control obs obs')"

lemma codec_ok_example [simp]: "codec_ok (example_env es ss)"
  by (simp add: codec_ok_def example_env_def)

lemma codec_okD:
  assumes "codec_ok env"
  shows "json_ok (observation_value env obs)"
    and "exact obs \<Longrightarrow> short_ids obs \<Longrightarrow> small env obs \<Longrightarrow> observation_size env obs \<le> clamp_budget"
    and "short_ids obs \<Longrightarrow> cuts (observation_value env obs) v \<Longrightarrow> observation_from_value env v = Inr obs' \<Longrightarrow>
          keeps_control obs obs'"
  using assms by (simp_all add: codec_ok_def)

text \<open>What is recorded in place of an observation.\<close>

definition recorded_as :: "relay_observation \<Rightarrow> relay_observation \<Rightarrow> bool" where
  "recorded_as obs obs' \<longleftrightarrow>
     obs' = obs \<or> \<not> exact obs \<and> ((\<exists>message. obs' = Warning message) \<or> keeps_control obs obs')"

lemma recorded_guard: "recorded_as obs obs' \<Longrightarrow> event_guard s obs \<Longrightarrow> event_guard s obs'"
  by (cases obs; cases obs') (auto simp: recorded_as_def)

lemma recorded_finishing: "recorded_as obs obs' \<Longrightarrow> finishing obs' = Some c \<Longrightarrow> event_guard s obs \<Longrightarrow> finishing obs = Some c"
  by (cases obs; cases obs') (auto simp: recorded_as_def)

lemma clamp_recorded:
  assumes "codec_ok env" "clamp_observation env obs clamp_budget = Ok obs'" "short_ids obs" "small env obs"
  shows "recorded_as obs obs'"
proof (cases "observation_size env obs \<le> clamp_budget")
  case True
  with assms(2) show ?thesis by (simp add: clamp_observation_def recorded_as_def)
next
  case False
  with assms(3,4) codec_okD(2) [OF assms(1)] have large: "\<not> exact obs" by blast
  from assms(2) codec_okD(1) [OF assms(1)] show ?thesis
    by (cases rule: clamp_observation_cases) (use large codec_okD(3) [OF assms(1,3)] in \<open>simp_all add: recorded_as_def\<close>)
qed

section \<open>Identifiers\<close>

definition ids_ok :: "relay_snapshot \<Rightarrow> bool" where
  "ids_ok s \<longleftrightarrow> (\<forall>cid. entry s cid \<noteq> None \<longrightarrow> length cid \<le> 128)"

lemma ids_ok_new: "ids_ok (new_snapshot sid)"
  by (simp add: ids_ok_def entry_def new_snapshot_def bt_get_def)

lemma entry_new_event:
  assumes inv: "relay_inv s" and guard: "event_guard s (ev_observation ev)" and ok: "apply_relay_event env ev s = Ok s'"
    and "entry s' c \<noteq> None"
  shows "entry s c \<noteq> None \<or> length c \<le> 128"
proof -
  from ok obtain s1 where s1: "apply_observation ev s = Ok s1" and s': "s' = advance_frontier ev s1"
    by (auto simp: apply_relay_event_Ok)
  have n: "latest_ordinal s \<le> ev_ordinal ev" using apply_relay_event_frontier [OF ok] by simp
  have e1: "entry s1 c \<noteq> None" using assms(4) by (simp add: s')
  from inv guard s1 n show ?thesis
  proof (cases rule: event_cases)
    case (queued cid cmd created)
    from queued(2) have "length cid \<le> 128" by (simp add: queue_guard_def)
    moreover have "entry s1 c = (if c = cid then Some (cmd, Waiting) else entry s c)"
      by (simp add: entry_def apply_command_queued_sel(1) [OF queued(3)])
    ultimately show ?thesis using e1 by (auto split: if_splits)
  next
    case (started cid at)
    obtain d where d: "bt_get (dispatches s) cid = Some d" "d_state d = DQueued"
      and q: "is_queue_entry (d_command d) \<Longrightarrow> \<exists>q rest. queued_prompts s = q # rest \<and> q_command_id q = cid"
      using start_guardD [OF started(2) relay_invD(1) [OF inv]] by metis
    note st = startsD(1,2) [OF apply_command_started_starts [OF started(3) d q relay_invD(2) [OF inv] n]]
    show ?thesis using e1 st(1) st(2) [of c] by (auto split: if_splits)
  next
    case (finished R)
    then have "entry s1 c = (if c \<in> R then map_option (\<lambda>e. (fst e, Done)) (entry s c) else entry s c)"
      by (auto simp: finishes_def ledger_marks_def)
    with e1 show ?thesis by (auto split: if_splits)
  next
    case (ready cid)
    with e1 show ?thesis by (simp add: entry_def)
  next
    case runtime
    with e1 runtime_observation_keeps(1) [OF runtime s1] show ?thesis by (simp add: entry_def)
  qed
qed

lemma ids_ok_step:
  assumes "relay_step env s s'" "relay_inv s" "ids_ok s"
  shows "ids_ok s'"
  using assms(1)
proof cases
  case (step_event ev)
  then show ?thesis using entry_new_event [OF assms(2)] assms(3) unfolding ids_ok_def by blast
next
  case (step_claim ps)
  have "\<forall>p \<in> set ps. \<exists>cmd. entry s (snd p) = Some (cmd, Started)"
    using step_claim(2) by (fastforce simp: entry_Some)
  from same_coreD(1) [OF conjunct1 [OF claim_commands_core [OF this]]] show ?thesis
    using assms(3) by (simp add: ids_ok_def step_claim(1))
next
  case (step_prune through)
  then show ?thesis using assms(3) by (auto simp: ids_ok_def entry_prune split: if_splits)
next
  case (step_reclose cid d)
  then show ?thesis using assms(3) by (auto simp: ids_ok_def entry_set_dispatch_state split: if_splits)
qed (use assms(3) in \<open>simp_all add: ids_ok_def entry_def\<close>)

section \<open>Sessions that a relay can be in\<close>

text \<open>
  The agent holds a command that is in flight and that the relay does not settle by itself.
  \<open>held K s s'\<close>: those of \<open>K\<close> the agent held in \<open>s\<close> it still holds in \<open>s'\<close>.
\<close>

definition agent_command :: "relay_command \<Rightarrow> bool" where
  "agent_command cmd \<longleftrightarrow> \<not> is_relay_local cmd \<and> \<not> is_begin_checkpoint cmd"

definition held :: "string set \<Rightarrow> relay_snapshot \<Rightarrow> relay_snapshot \<Rightarrow> bool" where
  "held K s s' \<longleftrightarrow>
     (\<forall>c \<in> K. \<forall>d. bt_get (dispatches s) c = Some d \<longrightarrow> agent_command (d_command d) \<longrightarrow> d_state d = DInFlight \<longrightarrow>
        bt_get (dispatches s') c = Some d)"

lemma held_same: "(\<And>c. bt_get (dispatches s') c = bt_get (dispatches s) c) \<Longrightarrow> held K s s'"
  by (simp add: held_def)

lemma held_trans: "held K s s' \<Longrightarrow> held K s' s'' \<Longrightarrow> held K s s''"
  by (simp add: held_def)

text \<open>An observation finishes a command of \<open>K\<close> only if the agent does not hold it.\<close>

definition lets_finish :: "string set \<Rightarrow> relay_snapshot \<Rightarrow> relay_observation \<Rightarrow> bool" where
  "lets_finish K s obs \<longleftrightarrow>
     (\<forall>c. finishing obs = Some c \<longrightarrow> c \<notin> K \<or> (\<forall>k ph. entry s c = Some (k, ph) \<longrightarrow> \<not> agent_command k))"

lemma lets_finish_none [simp]: "finishing obs = None \<Longrightarrow> lets_finish K s obs"
  by (simp add: lets_finish_def)

lemma apply_command_started_dispatches:
  assumes "apply_command_started cid at s = Ok s1"
  shows "dispatches s1 = bt_modify cid (d_state_update (\<lambda>_. DPending)) (dispatches s)"
proof -
  from assms obtain d where d: "bt_get (dispatches s) cid = Some d" by (auto simp: apply_command_started_def)
  note defs = apply_command_started_def Let_def set_dispatch_state_def start_prompt_def start_config_def
    start_user_shell_def start_barrier_def
  show ?thesis
  proof (cases "d_command d")
    case (Prompt p)
    with assms d obtain q where q: "queue_find cid (queued_prompts s) = Some q" by (auto simp: defs)
    from assms d Prompt q show ?thesis by (cases "q_payload q") (auto simp: defs)
  qed (use assms d in \<open>auto simp: defs split: if_splits option.splits\<close>)
qed

lemma event_held:
  assumes inv: "relay_inv s" and guard: "event_guard s (ev_observation ev)" and ok: "apply_relay_event env ev s = Ok s'"
    and fin: "lets_finish K s (ev_observation ev)"
  shows "held K s s'"
proof -
  from ok obtain s1 where s1: "apply_observation ev s = Ok s1" and s': "s' = advance_frontier ev s1"
    by (auto simp: apply_relay_event_Ok)
  have n: "latest_ordinal s \<le> ev_ordinal ev" using apply_relay_event_frontier [OF ok] by simp
  from inv guard s1 n have "held K s s1"
  proof (cases rule: event_cases)
    case (queued cid cmd created)
    have "bt_get (dispatches s) cid = None" using queued(2) ledger_okD(3) [OF relay_invD(1) [OF inv], of cid]
      by (auto simp: queue_guard_def bt_contains_def entry_None)
    then show ?thesis by (auto simp: held_def apply_command_queued_sel(1) [OF queued(3)])
  next
    case (started cid at)
    from started(2) obtain d where "bt_get (dispatches s) cid = Some d" "d_state d = DQueued" by (auto simp: start_guard_def)
    then show ?thesis by (auto simp: held_def apply_command_started_dispatches [OF started(3)])
  next
    case (finished R)
    have "c \<notin> R" if "c \<in> K" "bt_get (dispatches s) c = Some d" "agent_command (d_command d)" "d_state d = DInFlight" for c d
    proof -
      have "entry s c = Some (d_command d, Started)" using that by (simp add: entry_def)
      with finished(2) fin that show ?thesis by (auto simp: lets_finish_def agent_command_def)
    qed
    then show ?thesis using finished(1) by (auto simp: held_def finishes_def ledger_marks_def)
  next
    case (ready cid)
    then show ?thesis by (intro held_same) simp
  next
    case runtime
    from runtime_observation_keeps(1) [OF runtime s1] show ?thesis by (intro held_same) simp
  qed
  then show ?thesis by (simp add: held_def s')
qed

text \<open>
  \<open>live env K s0 s\<close>: the session got from the well-formed snapshot \<open>s0\<close> to \<open>s\<close> by steps of the machine,
  and the agent still holds what it held of \<open>K\<close>.
\<close>

definition live :: "relay_env \<Rightarrow> string set \<Rightarrow> relay_snapshot \<Rightarrow> relay_snapshot \<Rightarrow> bool" where
  "live env K s0 s \<longleftrightarrow>
     env_ok env \<and> codec_ok env \<and> relay_inv s0 \<and> ids_ok s0 \<and> relay_steps env s0 s \<and> held K s0 s"

lemma live_inv:
  assumes "live env K s0 s"
  shows "env_ok env" "codec_ok env" "relay_inv s" "ids_ok s"
proof -
  have "relay_steps env s0 s \<Longrightarrow> env_ok env \<Longrightarrow> relay_inv s0 \<Longrightarrow> ids_ok s0 \<Longrightarrow> relay_inv s \<and> ids_ok s"
    by (induction rule: relay_steps.induct) (auto intro: relay_inv_step ids_ok_step)
  then show "env_ok env" "codec_ok env" "relay_inv s" "ids_ok s" using assms by (auto simp: live_def)
qed

lemma live_step: "live env K s0 s \<Longrightarrow> relay_step env s s' \<Longrightarrow> held K s s' \<Longrightarrow> live env K s0 s'"
  by (auto simp: live_def intro: steps_step held_trans)

lemma live_id: "live env K s0 s \<Longrightarrow> bt_get (dispatches s) cid = Some d \<Longrightarrow> length cid \<le> 128"
  using live_inv(4) [of env K s0 s] by (auto simp: ids_ok_def entry_None)

section \<open>Methods that leave the snapshot alone\<close>

definition keeps_snapshot :: "'a relay_meth \<Rightarrow> bool" where
  "keeps_snapshot m \<longleftrightarrow> (\<forall>r. snapshot (snd (m r)) = snapshot r)"

lemma keepsI: "(\<And>r. wp m (\<lambda>_ r'. snapshot r' = snapshot r) (\<lambda>r'. snapshot r' = snapshot r) r) \<Longrightarrow> keeps_snapshot m"
  by (simp add: keeps_snapshot_def wp_snd)

lemma wp_keeps:
  assumes "keeps_snapshot m" "\<And>x r'. snapshot r' = snapshot r \<Longrightarrow> Q x r'" "\<And>r'. snapshot r' = snapshot r \<Longrightarrow> E r'"
  shows "wp m Q E r"
proof -
  have "wp m (\<lambda>_ r'. snapshot r' = snapshot r) (\<lambda>r'. snapshot r' = snapshot r) r"
    using assms(1) by (simp add: keeps_snapshot_def wp_snd)
  then show ?thesis by (rule wp_mono) (auto intro: assms(2,3))
qed

named_theorems keeps \<open>methods that leave the snapshot alone\<close>

lemma keeps_basic [keeps]:
  "keeps_snapshot (rret x)" "keeps_snapshot (rfail e)" "keeps_snapshot (rget f)" "keeps_snapshot (rlift res)"
  "keeps_snapshot (rdisk m)"
  "(\<And>r. snapshot (g r) = snapshot r) \<Longrightarrow> keeps_snapshot (rmodify g)"
  by (auto simp: keeps_snapshot_def rret_def rfail_def rget_def rlift_def rdisk_def rmodify_def split: prod.splits)

lemma keeps_rbind [keeps]:
  assumes "keeps_snapshot m" "\<And>x. keeps_snapshot (f x)"
  shows "keeps_snapshot (rbind m f)"
  by (rule keepsI) (auto simp: wp_simps intro!: wp_keeps [OF assms(1)] wp_keeps [OF assms(2)])

lemma keeps_rseq [keeps]: "keeps_snapshot m \<Longrightarrow> keeps_snapshot m' \<Longrightarrow> keeps_snapshot (rseq m m')"
  by (simp add: rseq_def keeps_rbind)

lemma keeps_rwhen [keeps]: "keeps_snapshot m \<Longrightarrow> keeps_snapshot (rwhen b m)"
  by (simp add: rwhen_def keeps_basic)

lemma keeps_seal_span [keeps]: "keeps_snapshot (seal_span env i)"
  by (simp add: keeps_snapshot_def seal_span_def split: prod.splits)

lemma keeps_seal [keeps]: "keeps_snapshot (seal_active_segment_if_needed env)"
  unfolding seal_active_segment_if_needed_def
  by (intro keeps) (auto split: option.split intro!: keeps simp: invalidate_replay_plans_def)

lemma keeps_persist [keeps]: "keeps_snapshot (persist_snapshot env)"
  unfolding persist_snapshot_def by (intro keeps) simp

lemma keeps_rewrite [keeps]: "keeps_snapshot (rewrite_relay_journal env n)"
  unfolding rewrite_relay_journal_def by (intro keeps) (auto simp: invalidate_replay_plans_def intro!: keeps)

section \<open>The two ways a snapshot moves\<close>

lemma wp_bind_get: "wp (f (g r)) Q E r \<Longrightarrow> wp (rbind (rget g) f) Q E r"
  by (simp add: wp_simps)

lemma wp_bind_lift: "(\<And>x. res = Ok x \<Longrightarrow> wp (f x) Q E r) \<Longrightarrow> E r \<Longrightarrow> wp (rbind (rlift res) f) Q E r"
  by (simp add: wp_simps split: outcome.split)

lemma wp_seq_lift: "(\<And>x. res = Ok x \<Longrightarrow> wp m Q E r) \<Longrightarrow> E r \<Longrightarrow> wp (rseq (rlift res) m) Q E r"
  by (simp add: wp_simps split: outcome.split)

lemma wp_seq_keeps:
  assumes "keeps_snapshot m" "\<And>r'. snapshot r' = snapshot r \<Longrightarrow> wp m' Q E r'" "\<And>r'. snapshot r' = snapshot r \<Longrightarrow> E r'"
  shows "wp (rseq m m') Q E r"
  unfolding wp_rseq using assms(1) by (rule wp_keeps) (use assms(2,3) in simp_all)

lemma wp_bind_keeps:
  assumes "keeps_snapshot m" "\<And>x r'. snapshot r' = snapshot r \<Longrightarrow> wp (f x) Q E r'" "\<And>r'. snapshot r' = snapshot r \<Longrightarrow> E r'"
  shows "wp (rbind m f) Q E r"
  unfolding wp_rbind using assms(1) by (rule wp_keeps) (use assms(2,3) in simp_all)

lemma wp_bind_disk:
  "(\<And>x d. wp (f x) Q E (r\<lparr>disk := d\<rparr>)) \<Longrightarrow> (\<And>d. E (r\<lparr>disk := d\<rparr>)) \<Longrightarrow> wp (rbind (rdisk m) f) Q E r"
  by (simp add: wp_simps) (simp add: wp_def split: prod.split outcome.split)

lemma wp_commit:
  assumes "live env K s0 (snapshot r)" "live env K s0 s'" "\<And>r'. snapshot r' = s' \<Longrightarrow> Q () r'"
  shows "wp (commit_snapshot env s') Q (\<lambda>r'. live env K s0 (snapshot r')) r"
  unfolding commit_snapshot_def wp_rseq
  by (rule wp_keeps) (use assms in \<open>simp_all add: keeps wp_simps\<close>)

definition appended :: "relay_env \<Rightarrow> relay_observation \<Rightarrow> relay_snapshot \<Rightarrow> relay_snapshot \<Rightarrow> bool" where
  "appended env obs s s' \<longleftrightarrow> (\<exists>ev. recorded_as obs (ev_observation ev) \<and> apply_relay_event env ev s = Ok s')"

lemma appended_live:
  assumes "live env K s0 s" "event_guard s obs" "lets_finish K s obs" "appended env obs s s'"
  shows "live env K s0 s'"
proof -
  from assms(4) obtain ev where ev: "recorded_as obs (ev_observation ev)" "apply_relay_event env ev s = Ok s'"
    by (auto simp: appended_def)
  note guard = recorded_guard [OF ev(1) assms(2)]
  have "held K s s'"
    by (rule event_held [OF live_inv(3) [OF assms(1)] guard ev(2)])
      (use assms(3) recorded_finishing [OF ev(1) _ assms(2)] in \<open>auto simp: lets_finish_def\<close>)
  with live_step [OF assms(1) step_event [OF guard ev(2)]] show ?thesis .
qed

lemma stage_event_Ok: "stage_event env ev s = Ok (Some s') \<Longrightarrow> apply_relay_event env ev s = Ok s'"
  by (auto simp: stage_event_def split: if_splits)

lemma wp_publish:
  assumes "stage_event env ev (snapshot r) = Ok staged"
    and "\<And>r' s'. apply_relay_event env ev (snapshot r) = Ok s' \<Longrightarrow> snapshot r' = s' \<Longrightarrow> Q () r'" "E r"
  shows "wp (publish_event env ev staged) Q E r"
  using assms by (cases staged)
    (auto simp: publish_event_def wp_simps push_hot_event_def record_journal_append_def dest: stage_event_Ok split: outcome.splits)

lemma wp_append:
  assumes live: "live env K s0 (snapshot r)" and guard: "event_guard (snapshot r) obs" "short_ids obs" "small env obs"
    and fin: "lets_finish K (snapshot r) obs"
    and Q: "\<And>n r'. live env K s0 (snapshot r') \<Longrightarrow> appended env obs (snapshot r) (snapshot r') \<Longrightarrow> Q n r'"
  shows "wp (append_relay_event env cid obs) Q (\<lambda>r'. live env K s0 (snapshot r')) r"
proof -
  let ?s = "snapshot r" and ?E = "\<lambda>r'. live env K s0 (snapshot r')"
  have tail: "wp (rseq (rmodify (\<lambda>r. r\<lparr>unpersisted_journal_bytes := saturating_add_u64 (unpersisted_journal_bytes r) k\<rparr>))
      (rbind (rget unpersisted_journal_bytes) (\<lambda>lag.
        rseq (rwhen (b \<or> lag \<ge> RELAY_SNAPSHOT_LAG_BYTE_LIMIT) (persist_snapshot env)) (rret n)))) Q ?E r'"
    if "live env K s0 (snapshot r')" "appended env obs ?s (snapshot r')" for r' k n b
    by (rule wp_keeps) (use Q that in \<open>auto intro!: keeps\<close>)
  have body: "wp (rseq (seal_active_segment_if_needed env) (rseq (rdisk m) (rseq (publish_event env ev staged) rest))) Q ?E r'"
    if r': "snapshot r' = ?s" and staged: "stage_event env ev ?s = Ok staged" and rec: "recorded_as obs (ev_observation ev)"
      and rest: "\<And>r'. live env K s0 (snapshot r') \<Longrightarrow> appended env obs ?s (snapshot r') \<Longrightarrow> wp rest Q ?E r'"
    for r' ev m rest staged
  proof -
    have "wp (rseq (publish_event env ev staged) rest) Q ?E r''" if "snapshot r'' = ?s" for r''
      unfolding wp_rseq
      by (rule wp_publish) (use staged that live rec in
        \<open>auto intro!: rest appended_live [OF live guard(1) fin] simp: appended_def\<close>)
    then show ?thesis
      using r' live by (intro wp_seq_keeps [OF keeps_seal] wp_seq_keeps [OF keeps_basic(5)]) simp_all
  qed
  show ?thesis
    unfolding append_relay_event_def Let_def clamp_budget_def [symmetric]
  proof (intro wp_bind_get wp_bind_lift wp_bind_disk wp_seq_lift, goal_cases)
    case (1 ordinal obs' now d digest u staged)
    show ?case
    proof (rule body)
      show "stage_event env ((new_event ordinal now cid obs')\<lparr>ev_digest := digest\<rparr>) ?s = Ok staged" by fact
      show "recorded_as obs (ev_observation ((new_event ordinal now cid obs')\<lparr>ev_digest := digest\<rparr>))"
        using clamp_recorded [OF live_inv(2) [OF live] 1(2) guard(2,3)] by (simp add: new_event_def)
    qed (simp_all add: tail)
  qed (use live in simp_all)
qed

end
