(* ===== verification/Relay_Methods.thy ===== *)
theory Relay_Methods
  imports Relay_Refinement
begin

text \<open>
  The refinement, method by method. \<open>refines env K m\<close> says that \<open>m\<close> takes a live session only to live
  sessions, whether it returns or fails, and leaves with the agent what it holds of \<open>K\<close>; the lemmas before it say what the events that the methods
  append do to the ledger, as far as a later statement of the same method relies on it.
\<close>

lemma wp_rret_fun: "wp (rret x) Q E = Q x"
  by (rule ext) (simp add: wp_rret)

section \<open>What an appended event leaves alone\<close>

text \<open>The commands of \<open>C\<close> stay as they are, except that a waiting one may have been started.\<close>

definition spares :: "string set \<Rightarrow> relay_snapshot \<Rightarrow> relay_snapshot \<Rightarrow> bool" where
  "spares C s s' \<longleftrightarrow>
     (\<forall>c \<in> C. entry s' c = entry s c
        \<or> (\<exists>cmd. entry s c = Some (cmd, Waiting) \<and> entry s' c = Some (cmd, Started)))"

lemma spares_entry: "(\<And>c. c \<in> C \<Longrightarrow> entry s' c = entry s c) \<Longrightarrow> spares C s s'"
  by (simp add: spares_def)

lemma spares_trans: "spares C s s' \<Longrightarrow> spares C s' s'' \<Longrightarrow> spares C s s''"
  unfolding spares_def by (metis option.inject prod.inject phase.distinct(1))

lemma spares_mono: "spares C s s' \<Longrightarrow> D \<subseteq> C \<Longrightarrow> spares D s s'"
  by (auto simp: spares_def)

lemma spares_started: "spares C s s' \<Longrightarrow> c \<in> C \<Longrightarrow> entry s c = Some (cmd, Started) \<Longrightarrow> entry s' c = Some (cmd, Started)"
  unfolding spares_def by (metis option.inject prod.inject phase.distinct(1))

definition finished :: "relay_snapshot \<Rightarrow> string \<Rightarrow> bool" where
  "finished s c \<longleftrightarrow> (\<forall>cmd ph. entry s c = Some (cmd, ph) \<longrightarrow> ph = Done)"

lemma spares_finished: "spares C s s' \<Longrightarrow> c \<in> C \<Longrightarrow> finished s c \<Longrightarrow> finished s' c"
  unfolding spares_def finished_def by (metis phase.distinct(3))

lemma appended_observation:
  assumes "appended env obs s s'"
  obtains ev s1 where "recorded_as obs (ev_observation ev)" "apply_observation ev s = Ok s1" "s' = advance_frontier ev s1"
    "latest_ordinal s \<le> ev_ordinal ev"
proof -
  from assms obtain ev where ev: "recorded_as obs (ev_observation ev)" "apply_relay_event env ev s = Ok s'"
    by (auto simp: appended_def)
  moreover from ev(2) obtain s1 where "apply_observation ev s = Ok s1" "s' = advance_frontier ev s1"
    by (auto simp: apply_relay_event_Ok)
  moreover have "latest_ordinal s \<le> ev_ordinal ev" using apply_relay_event_frontier [OF ev(2)] by simp
  ultimately show thesis by (intro that)
qed

lemma appended_started:
  assumes "appended env (CommandStarted cid at) s s'" "relay_inv s" "start_guard s cid"
  shows "\<exists>d. bt_get (dispatches s) cid = Some d \<and> d_state d = DQueued
           \<and> starts cid (d_command d) s s'
           \<and> dispatches s' = bt_modify cid (d_state_update (\<lambda>_. DPending)) (dispatches s)"
proof -
  from assms(1) obtain ev s1 where ev: "ev_observation ev = CommandStarted cid at" "apply_observation ev s = Ok s1"
    "s' = advance_frontier ev s1" "latest_ordinal s \<le> ev_ordinal ev"
    by (rule appended_observation) (auto simp: recorded_as_def)
  from ev have s1: "apply_command_started cid at s = Ok s1" by (simp add: apply_observation_def)
  obtain d where d: "bt_get (dispatches s) cid = Some d" "d_state d = DQueued"
    and q: "is_queue_entry (d_command d) \<Longrightarrow> \<exists>q rest. queued_prompts s = q # rest \<and> q_command_id q = cid"
    using start_guardD [OF assms(3) relay_invD(1) [OF assms(2)]] by metis
  have "starts cid (d_command d) s s'"
    using apply_command_started_starts [OF s1 d q relay_invD(2) [OF assms(2)] ev(4)] by (simp add: ev(3))
  moreover have "dispatches s' = bt_modify cid (d_state_update (\<lambda>_. DPending)) (dispatches s)"
    using apply_command_started_dispatches [OF s1] by (simp add: ev(3))
  ultimately show ?thesis using d by blast
qed

lemma appended_runtime:
  assumes "appended env obs s s'" "runtime_observation obs"
  shows "dispatches s' = dispatches s" "handled_commands s' = handled_commands s" "queued_prompts s' = queued_prompts s"
    "checkpoint_barrier s' = checkpoint_barrier s"
proof -
  from assms(1) obtain ev s1 where ev: "recorded_as obs (ev_observation ev)" "apply_observation ev s = Ok s1"
    "s' = advance_frontier ev s1" by (rule appended_observation)
  have "runtime_observation (ev_observation ev)"
    using ev(1) assms(2) by (cases obs) (auto simp: recorded_as_def)
  from runtime_observation_keeps [OF this ev(2)] show "dispatches s' = dispatches s" "handled_commands s' = handled_commands s"
    "queued_prompts s' = queued_prompts s" "checkpoint_barrier s' = checkpoint_barrier s" by (simp_all add: ev(3))
qed

lemma appended_terminated:
  assumes "appended env obs s s'" "obs = CommandInterrupted cid k m \<or> obs = CommandRejected cid k m"
    and "relay_inv s" "terminate_guard s cid"
  shows "spares (- {cid}) s s'" "length m \<le> 256 \<Longrightarrow> finished s' cid"
proof -
  from assms(1) obtain ev s1 where ev: "recorded_as obs (ev_observation ev)" "apply_observation ev s = Ok s1"
    "s' = advance_frontier ev s1" "latest_ordinal s \<le> ev_ordinal ev" by (rule appended_observation)
  have main: "(c \<noteq> cid \<longrightarrow> entry s' c = entry s c) \<and> (length m \<le> 256 \<longrightarrow> finished s' cid)" for c
  proof (cases "\<exists>message. ev_observation ev = Warning message")
    case True
    with ev(2) have "s1 = s" by (auto simp: apply_observation_def)
    moreover have "\<not> length m \<le> 256" using True ev(1) assms(2) by (auto simp: recorded_as_def)
    ultimately show ?thesis by (simp add: ev(3))
  next
    case False
    with ev(1) assms(2) have "(\<exists>message. ev_observation ev = CommandInterrupted cid k message)
        \<or> (\<exists>message. ev_observation ev = CommandRejected cid k message)" by (auto simp: recorded_as_def)
    then have "\<exists>st message. is_terminal st \<and> apply_command_terminated st (ev_ordinal ev) cid k message s = Ok s1"
      using ev(2) by (force simp: apply_observation_def)
    then obtain st message where "is_terminal st" "apply_command_terminated st (ev_ordinal ev) cid k message s = Ok s1" by blast
    from terminated_finishes [OF assms(3,4) this ev(4)] show ?thesis
      by (auto simp: ev(3) finishes_def ledger_marks_def finished_def)
  qed
  then show "spares (- {cid}) s s'" "length m \<le> 256 \<Longrightarrow> finished s' cid"
    using main by (auto intro: spares_entry)
qed

lemma spares_terminated:
  assumes "appended env obs s s1" "obs = CommandInterrupted cid k m \<or> obs = CommandRejected cid k m"
    and "relay_inv s" "terminate_guard s cid" "spares UNIV s1 s'"
  shows "spares (- {cid}) s s'" "length m \<le> 256 \<Longrightarrow> finished s' cid"
proof -
  note ap = appended_terminated [OF assms(1-4)]
  show "spares (- {cid}) s s'" by (rule spares_trans [OF ap(1) spares_mono [OF assms(5)]]) simp
  show "length m \<le> 256 \<Longrightarrow> finished s' cid" by (rule spares_finished [OF assms(5) UNIV_I ap(2)])
qed

section \<open>Promotion\<close>

lemma promotable_start:
  assumes "relay_inv s" "promotable s = Some q"
  shows "start_guard s (q_command_id q)"
proof -
  from assms(2) obtain rest where q: "queued_prompts s = q # rest" "\<not> promotion_blocked s" by (auto simp: promotable_Some)
  from queue_okD(2) [OF relay_invD(2) [OF assms(1)], of q] q(1)
  obtain d where "bt_get (dispatches s) (q_command_id q) = Some d" "d_state d = DQueued"
    "queue_payload (d_command d) \<noteq> None" by (auto simp: entry_Some phase_of_iff)
  moreover from this have "is_queue_entry (d_command d)" "\<not> is_begin_checkpoint (d_command d)"
    by (cases "d_command d"; simp)+
  ultimately show ?thesis using assms(2) q(2) by (auto simp: start_guard_def promotion_blocked_def)
qed

lemma wp_started:
  assumes "live env K s0 (snapshot r)" "start_guard (snapshot r) cid"
    and "\<And>n at r'. live env K s0 (snapshot r') \<Longrightarrow> appended env (CommandStarted cid at) (snapshot r) (snapshot r') \<Longrightarrow> Q n r'"
  shows "wp (append_started env cid) Q (\<lambda>r'. live env K s0 (snapshot r')) r"
proof -
  from assms(2) obtain d where "bt_get (dispatches (snapshot r)) cid = Some d" by (auto simp: start_guard_def)
  from live_id [OF assms(1) this] show ?thesis
    unfolding append_started_def by (intro wp_bind_disk wp_append) (use assms in simp_all)
qed

lemma wp_promote:
  assumes "live env K s0 (snapshot r)"
    and "\<And>x r'. live env K s0 (snapshot r') \<Longrightarrow> spares UNIV (snapshot r) (snapshot r') \<Longrightarrow>
          (execution (snapshot r) = ExClosed \<Longrightarrow> execution (snapshot r') = ExClosed) \<Longrightarrow> Q x r'"
  shows "wp (promote_next_queued_command env) Q (\<lambda>r'. live env K s0 (snapshot r')) r"
  unfolding promote_next_queued_command_def
proof (rule wp_bind_get, cases "promotable (snapshot r)")
  case None
  then show "wp (case promotable (snapshot r) of None \<Rightarrow> rret None
      | Some queued \<Rightarrow> rbind (append_started env (q_command_id queued)) (\<lambda>ordinal. rret (Some ordinal)))
    Q (\<lambda>r'. live env K s0 (snapshot r')) r"
    by (auto simp: wp_simps intro!: assms spares_entry)
next
  case (Some q)
  note inv = live_inv(3) [OF assms(1)]
  note g = promotable_start [OF inv Some]
  have idle: "execution (snapshot r) = ExIdle" using Some by (auto simp: promotable_Some promotion_blocked_def)
  have "spares UNIV (snapshot r) s'" if "appended env (CommandStarted (q_command_id q) at) (snapshot r) s'" for at s'
  proof -
    from appended_started [OF that inv g] obtain d where d: "bt_get (dispatches (snapshot r)) (q_command_id q) = Some d"
      "d_state d = DQueued" "starts (q_command_id q) (d_command d) (snapshot r) s'" by blast
    have "entry (snapshot r) (q_command_id q) = Some (d_command d, Waiting)" using d(1,2) by (simp add: entry_def)
    moreover have "entry s' c = (if c = q_command_id q then Some (d_command d, Started) else entry (snapshot r) c)" for c
      using d(3) by (simp add: starts_def)
    ultimately show ?thesis by (simp add: spares_def)
  qed
  then show "wp (case promotable (snapshot r) of None \<Rightarrow> rret None
      | Some queued \<Rightarrow> rbind (append_started env (q_command_id queued)) (\<lambda>ordinal. rret (Some ordinal)))
    Q (\<lambda>r'. live env K s0 (snapshot r')) r"
    using idle by (auto simp: Some wp_simps intro!: wp_started assms g)
qed

section \<open>Starting several commands\<close>

text \<open>The commands a method starts in a row: waiting, distinct, and neither queue entries nor barriers.\<close>

definition startable :: "relay_snapshot \<Rightarrow> string \<Rightarrow> bool" where
  "startable s cid \<longleftrightarrow>
     (\<exists>d. bt_get (dispatches s) cid = Some d \<and> d_state d = DQueued \<and> \<not> is_queue_entry (d_command d)
        \<and> \<not> is_begin_checkpoint (d_command d))"

lemma startable_guard: "startable s cid \<Longrightarrow> checkpoint_barrier s = None \<Longrightarrow> start_guard s cid"
  by (auto simp: startable_def start_guard_def)

text \<open>What the starts do to the ledger, and that no barrier appears.\<close>

definition set_pending :: "string list \<Rightarrow> relay_snapshot \<Rightarrow> relay_snapshot \<Rightarrow> bool" where
  "set_pending cids s s' \<longleftrightarrow>
     checkpoint_barrier s' = None
     \<and> (\<forall>c. bt_get (dispatches s') c =
          (if c \<in> set cids then map_option (d_state_update (\<lambda>_. DPending)) (bt_get (dispatches s) c)
           else bt_get (dispatches s) c))"

lemma wp_start_queued_controls:
  assumes "live env K s0 (snapshot r)" "distinct cids" "\<forall>cid \<in> set cids. startable (snapshot r) cid"
    and "checkpoint_barrier (snapshot r) = None"
    and "\<And>r'. live env K s0 (snapshot r') \<Longrightarrow> set_pending cids (snapshot r) (snapshot r') \<Longrightarrow> Q () r'"
  shows "wp (start_queued_controls env cids) Q (\<lambda>r'. live env K s0 (snapshot r')) r"
  using assms unfolding start_queued_controls_def
proof (induction cids arbitrary: r)
  case Nil
  then show ?case by (simp add: wp_simps set_pending_def)
next
  case (Cons cid cids)
  note inv = live_inv(3) [OF Cons.prems(1)]
  have g: "start_guard (snapshot r) cid" using Cons.prems(3,4) by (simp add: startable_guard)
  show ?case
    unfolding rforeach.simps wp_rseq wp_rbind
  proof (rule wp_started [OF Cons.prems(1) g], simp only: wp_rret)
    fix at and r1 :: durable_relay assume r1: "live env K s0 (snapshot r1)" "appended env (CommandStarted cid at) (snapshot r) (snapshot r1)"
    from appended_started [OF r1(2) inv g] obtain d where
      d: "bt_get (dispatches (snapshot r)) cid = Some d" "starts cid (d_command d) (snapshot r) (snapshot r1)"
      and ds: "dispatches (snapshot r1) = bt_modify cid (d_state_update (\<lambda>_. DPending)) (dispatches (snapshot r))" by blast
    have bar: "checkpoint_barrier (snapshot r1) = None"
      using startsD(10) [OF d(2)] d(1) Cons.prems(3,4) by (auto simp: startable_def)
    show "wp (rforeach (\<lambda>cid. rbind (append_started env cid) (\<lambda>_. rret ())) cids) Q (\<lambda>r'. live env K s0 (snapshot r')) r1"
    proof (rule Cons.IH [OF r1(1) _ _ bar])
      show "\<forall>c \<in> set cids. startable (snapshot r1) c"
        using Cons.prems(2,3) by (auto simp: startable_def ds)
      show "Q () r'" if "live env K s0 (snapshot r')" "set_pending cids (snapshot r1) (snapshot r')" for r'
        by (rule Cons.prems(5) [OF that(1)]) (use that(2) Cons.prems(2) in \<open>auto simp: set_pending_def ds\<close>)
    qed (use Cons.prems(2) in simp)
  qed
qed

section \<open>Refinement\<close>

definition refines :: "relay_env \<Rightarrow> string set \<Rightarrow> 'a relay_meth \<Rightarrow> bool" where
  "refines env K m \<longleftrightarrow>
     (\<forall>s0 r. live env K s0 (snapshot r) \<longrightarrow>
        wp m (\<lambda>_ r'. live env K s0 (snapshot r')) (\<lambda>r'. live env K s0 (snapshot r')) r)"

named_theorems refines_intros \<open>methods that refine the machine\<close>

lemma refinesI:
  "(\<And>s0 r. live env K s0 (snapshot r) \<Longrightarrow> wp m (\<lambda>_ r'. live env K s0 (snapshot r')) (\<lambda>r'. live env K s0 (snapshot r')) r)
     \<Longrightarrow> refines env K m"
  by (simp add: refines_def)

lemma refines_wp:
  "refines env K m \<Longrightarrow> live env K s0 (snapshot r) \<Longrightarrow> (\<And>x r'. live env K s0 (snapshot r') \<Longrightarrow> Q x r') \<Longrightarrow>
     wp m Q (\<lambda>r'. live env K s0 (snapshot r')) r"
  unfolding refines_def by (erule allE, erule allE, erule (1) impE) (erule wp_mono, auto)

lemma refines_keeps: "keeps_snapshot m \<Longrightarrow> refines env K m"
  by (rule refinesI, rule wp_keeps) simp_all

lemma refines_rbind [refines_intros]: "refines env K m \<Longrightarrow> (\<And>x. refines env K (f x)) \<Longrightarrow> refines env K (rbind m f)"
  by (rule refinesI) (simp add: wp_simps, rule refines_wp, assumption+, rule refines_wp)

lemma refines_rseq [refines_intros]: "refines env K m \<Longrightarrow> refines env K m' \<Longrightarrow> refines env K (rseq m m')"
  by (simp add: rseq_def refines_rbind)

lemma refines_rwhen [refines_intros]: "refines env K m \<Longrightarrow> refines env K (rwhen b m)"
  by (simp add: rwhen_def refines_keeps keeps_basic)

lemma refines_rforeach [refines_intros]: "(\<And>x. x \<in> set xs \<Longrightarrow> refines env K (f x)) \<Longrightarrow> refines env K (rforeach f xs)"
  by (induction xs) (simp_all add: refines_keeps keeps_basic refines_rseq)

lemma refines_basic [refines_intros]:
  "refines env K (rret x)" "refines env K (rfail e)" "refines env K (rget f)" "refines env K (rlift res)" "refines env K (rdisk m)"
  by (rule refines_keeps, rule keeps)+

lemma refines_persist [refines_intros]: "refines env K (persist_snapshot env)"
  by (rule refines_keeps) (rule keeps)

lemma live_prune:
  assumes "live env K s0 s"
  shows "live env K s0 (prune_commands (prunable_command_ids s n) s)"
proof (rule live_step [OF assms step_prune])
  have "c \<notin> set (prunable_command_ids s n)" if "bt_get (dispatches s) c = Some d" "d_state d = DInFlight" for c d
    using prunable_done [OF relay_invD(1) [OF live_inv(3) [OF assms]], of c n] that by (auto simp: entry_def)
  then show "held K s (prune_commands (prunable_command_ids s n) s)"
    by (auto simp: held_def prune_commands_def bt.get_fold_del)
qed

lemma refines_prune:
  "refines env K (rbind (rget snapshot) (\<lambda>s. rbind (rget unpersisted_journal_bytes) (\<lambda>lag.
      rseq (rwhen (prunable_command_ids s n \<noteq> [] \<or> lag > 0) (commit_snapshot env (prune_commands (prunable_command_ids s n) s)))
           (rmodify (\<lambda>r. r\<lparr>hot_events := filter (\<lambda>ev. ev_ordinal ev > n) (hot_events r)\<rparr>)))))"
proof (rule refinesI)
  fix s0 and r :: durable_relay assume live: "live env K s0 (snapshot r)"
  from live show "wp (rbind (rget snapshot) (\<lambda>s. rbind (rget unpersisted_journal_bytes) (\<lambda>lag.
      rseq (rwhen (prunable_command_ids s n \<noteq> [] \<or> lag > 0) (commit_snapshot env (prune_commands (prunable_command_ids s n) s)))
           (rmodify (\<lambda>r. r\<lparr>hot_events := filter (\<lambda>ev. ev_ordinal ev > n) (hot_events r)\<rparr>)))))
     (\<lambda>_ r'. live env K s0 (snapshot r')) (\<lambda>r'. live env K s0 (snapshot r')) r"
    by (auto simp: wp_simps intro!: wp_commit live_prune)
qed

lemma refines_garbage_collect [refines_intros]: "refines env K (garbage_collect_relay_history env)"
  unfolding garbage_collect_relay_history_def
  by (rule refines_rbind, rule refines_basic)+
    (intro refines_rseq refines_prune refines_rwhen refines_persist refines_keeps [OF keeps_rewrite])

lemma refines_promote [refines_intros]: "refines env K (promote_next_queued_command env)"
  by (rule refinesI, rule wp_promote) simp_all

lemma refines_append_runtime [refines_intros]:
  assumes "runtime_observation obs"
  shows "refines env K (append_relay_event env cid obs)"
proof (rule refinesI, rule wp_append)
  show "event_guard (snapshot r) obs" "short_ids obs" "small env obs" "lets_finish K (snapshot r) obs" for r :: durable_relay
    using assms by (cases obs; simp)+
qed simp_all

section \<open>Recording\<close>

text \<open>The barrier \<open>cid\<close>, if there is one, has been released.\<close>

definition barrier_over :: "relay_snapshot \<Rightarrow> string \<Rightarrow> bool" where
  "barrier_over s cid \<longleftrightarrow>
     (\<forall>d. bt_get (dispatches s) cid = Some d \<longrightarrow> is_begin_checkpoint (d_command d) \<longrightarrow> is_terminal (d_state d))"

lemma finished_over: "finished s cid \<Longrightarrow> barrier_over s cid"
  by (auto simp: finished_def barrier_over_def entry_def phase_of_iff)

lemma barrier_over_entry: "barrier_over s cid \<longleftrightarrow> (\<forall>cmd ph. entry s cid = Some (cmd, ph) \<longrightarrow> is_begin_checkpoint cmd \<longrightarrow> ph = Done)"
  by (auto simp: barrier_over_def entry_Some phase_of_iff)

lemma spares_over: "spares C s s' \<Longrightarrow> c \<in> C \<Longrightarrow> barrier_over s c \<Longrightarrow> barrier_over s' c"
  unfolding spares_def barrier_over_entry by (metis option.inject prod.inject phase.distinct(3))

lemma wp_require_dispatch:
  assumes "\<And>d. bt_get (dispatches (snapshot r)) cid = Some d \<Longrightarrow> wp (f d) Q E r" "E r"
  shows "wp (rbind (require_dispatch cid) f) Q E r"
  using assms by (auto simp: require_dispatch_def wp_simps ok_or_def split: option.split)

lemma wp_require_in_flight:
  assumes "\<And>d. bt_get (dispatches (snapshot r)) cid = Some d \<Longrightarrow> d_state d = DInFlight \<Longrightarrow> wp (f d) Q E r" "E r"
  shows "wp (rbind (require_in_flight cid) f) Q E r"
  using assms by (auto simp: require_in_flight_def require_dispatch_def wp_simps ok_or_def split: option.split)

lemma wp_then_promote:
  assumes "live env K s0 (snapshot r)" "event_guard (snapshot r) obs" "short_ids obs" "small env obs"
    "lets_finish K (snapshot r) obs"
    and "\<And>n s1 r'. live env K s0 (snapshot r') \<Longrightarrow> appended env obs (snapshot r) s1 \<Longrightarrow> spares UNIV s1 (snapshot r') \<Longrightarrow>
          (execution s1 = ExClosed \<Longrightarrow> execution (snapshot r') = ExClosed) \<Longrightarrow> Q n r'"
  shows "wp (then_promote env (append_relay_event env cid obs)) Q (\<lambda>r'. live env K s0 (snapshot r')) r"
  unfolding then_promote_def wp_rbind
  by (rule wp_append [OF assms(1-5)], rule wp_promote) (auto simp: wp_simps intro: assms(6))

lemma wp_record_completed:
  assumes "live env K s0 (snapshot r)" "cid \<notin> K"
    and "\<And>n s1 r'. live env K s0 (snapshot r') \<Longrightarrow> appended env (CommandCompleted cid outcome) (snapshot r) s1 \<Longrightarrow>
          spares UNIV s1 (snapshot r') \<Longrightarrow> (execution s1 = ExClosed \<Longrightarrow> execution (snapshot r') = ExClosed) \<Longrightarrow> Q n r'"
  shows "wp (record_command_completed env cid outcome) Q (\<lambda>r'. live env K s0 (snapshot r')) r"
  unfolding record_command_completed_def
proof (rule wp_require_in_flight)
  fix d assume d: "bt_get (dispatches (snapshot r)) cid = Some d" "d_state d = DInFlight"
  note short = live_id [OF assms(1) d(1)]
  show "wp (if is_begin_checkpoint (d_command d) then rfail (Bail ''checkpoint barriers complete through record_checkpoint_ready'' [])
      else then_promote env (append_relay_event env (Some cid) (CommandCompleted cid outcome)))
      Q (\<lambda>r'. live env K s0 (snapshot r')) r"
    using d short assms by (auto simp: wp_simps complete_guard_def lets_finish_def intro!: wp_then_promote)
qed (use assms in simp)

lemma refines_record_completed [refines_intros]: "cid \<notin> K \<Longrightarrow> refines env K (record_command_completed env cid outcome)"
  by (rule refinesI, rule wp_record_completed) simp_all

text \<open>The driver reports a rejection or an interruption only for a command that has not finished.\<close>

lemma wp_record_interrupted:
  assumes "live env K s0 (snapshot r)" "terminate_guard (snapshot r) cid" "cid \<notin> K"
    and "\<And>n r'. live env K s0 (snapshot r') \<Longrightarrow> spares (- {cid}) (snapshot r) (snapshot r') \<Longrightarrow>
          (length message \<le> 256 \<Longrightarrow> finished (snapshot r') cid) \<Longrightarrow> Q n r'"
  shows "wp (record_command_interrupted env cid message) Q (\<lambda>r'. live env K s0 (snapshot r')) r"
  unfolding record_command_interrupted_def
proof (rule wp_require_dispatch, rule wp_then_promote [OF assms(1)])
  fix d assume "bt_get (dispatches (snapshot r)) cid = Some d"
  from live_id [OF assms(1) this] show "short_ids (CommandInterrupted cid (command_kind (d_command d)) message)" by simp
next
  fix d :: dispatch_record and n s1 and r' :: durable_relay
  assume r': "live env K s0 (snapshot r')" "spares UNIV s1 (snapshot r')"
    "appended env (CommandInterrupted cid (command_kind (d_command d)) message) (snapshot r) s1"
  show "Q n r'"
    by (rule assms(4) [OF r'(1)]) (rule spares_terminated [OF r'(3) _ live_inv(3) [OF assms(1)] assms(2) r'(2)], simp_all)+
qed (use assms in \<open>simp_all add: lets_finish_def\<close>)

lemma wp_record_rejected:
  assumes "live env K s0 (snapshot r)" "terminate_guard (snapshot r) cid" "cid \<notin> K"
    and "\<And>n r'. live env K s0 (snapshot r') \<Longrightarrow> spares (- {cid}) (snapshot r) (snapshot r') \<Longrightarrow>
          (length message \<le> 256 \<Longrightarrow> finished (snapshot r') cid) \<Longrightarrow> Q n r'"
  shows "wp (record_command_rejected env cid message) Q (\<lambda>r'. live env K s0 (snapshot r')) r"
  unfolding record_command_rejected_def
proof (rule wp_require_dispatch, rule wp_then_promote [OF assms(1)])
  fix d assume "bt_get (dispatches (snapshot r)) cid = Some d"
  from live_id [OF assms(1) this] show "short_ids (CommandRejected cid (command_kind (d_command d)) message)" by simp
next
  fix d :: dispatch_record and n s1 and r' :: durable_relay
  assume r': "live env K s0 (snapshot r')" "spares UNIV s1 (snapshot r')"
    "appended env (CommandRejected cid (command_kind (d_command d)) message) (snapshot r) s1"
  show "Q n r'"
    by (rule assms(4) [OF r'(1)]) (rule spares_terminated [OF r'(3) _ live_inv(3) [OF assms(1)] assms(2) r'(2)], simp_all)+
qed (use assms in \<open>simp_all add: lets_finish_def\<close>)

lemma appended_ready:
  assumes "appended env (CheckpointReady cid n) s s'"
  shows "dispatches s' = dispatches s"
proof -
  from assms obtain ev s1 where "ev_observation ev = CheckpointReady cid n" "apply_observation ev s = Ok s1"
    "s' = advance_frontier ev s1" by (rule appended_observation) (auto simp: recorded_as_def)
  then show ?thesis by (auto simp: apply_observation_def apply_checkpoint_ready_def split: if_splits)
qed

lemma wp_record_checkpoint_ready:
  assumes live: "live env K s0 (snapshot r)"
    and Q: "\<And>n r'. live env K s0 (snapshot r') \<Longrightarrow> dispatches (snapshot r') = dispatches (snapshot r) \<Longrightarrow> Q n r'"
  shows "wp (record_checkpoint_ready env cid) Q (\<lambda>r'. live env K s0 (snapshot r')) r"
  unfolding record_checkpoint_ready_def
proof (rule wp_require_in_flight, rule wp_bind_get)
  fix d assume d: "bt_get (dispatches (snapshot r)) cid = Some d" "d_state d = DInFlight"
  note short = live_id [OF live d(1)]
  show "wp (if checkpoint_barrier (snapshot r) \<noteq> Some cid then rfail (Bail ''checkpoint barrier {command_id} is not active'' [AStr cid])
       else if checkpoint_ready_through (snapshot r) \<noteq> None
       then rfail (Bail ''checkpoint barrier {command_id} is already ready'' [AStr cid])
       else if \<not> is_begin_checkpoint (d_command d)
       then rfail (Bail ''command {command_id} is not a checkpoint barrier'' [AStr cid])
       else rbind (rlift (ok_or (checked_add_u64 (latest_ordinal (snapshot r)) 1) (Bail ''relay event ordinal exhausted'' [])))
         (\<lambda>through. append_relay_event env (Some cid) (CheckpointReady cid through)))
     Q (\<lambda>r'. live env K s0 (snapshot r')) r"
    using d short live by (auto simp: wp_rfail ready_guard_def appended_ready intro!: wp_bind_lift wp_append Q)
qed (use live in simp)

lemma refines_record_checkpoint_ready [refines_intros]: "refines env K (record_checkpoint_ready env cid)"
  by (rule refinesI, rule wp_record_checkpoint_ready)

lemma wp_disconnect:
  assumes live: "live env K s0 (snapshot r)"
    and Q: "\<And>n r'. live env K s0 (snapshot r') \<Longrightarrow> spares (- {cid}) (snapshot r) (snapshot r') \<Longrightarrow>
      barrier_over (snapshot r') cid \<Longrightarrow> Q n r'"
  shows "wp (cancel_checkpoint_barrier_on_disconnect env cid) Q (\<lambda>r'. live env K s0 (snapshot r')) r"
proof (cases "barrier_over (snapshot r) cid")
  case True
  then show ?thesis
    using live by (auto simp: cancel_checkpoint_barrier_on_disconnect_def wp_simps barrier_over_def not_terminal_iff spares_entry
        split: option.split intro!: Q)
next
  case False
  then obtain d where d: "bt_get (dispatches (snapshot r)) cid = Some d" "is_begin_checkpoint (d_command d)" "\<not> is_terminal (d_state d)"
    by (auto simp: barrier_over_def)
  let ?m = "''checkpoint barrier cancelled because its controller disconnected''"
  have g: "terminate_guard (snapshot r) cid" using d by (auto simp: terminate_guard_def)
  have "wp (then_promote env (append_relay_event env (Some cid) (CommandInterrupted cid KBeginCheckpoint ?m)))
      (\<lambda>n. Q (Some n)) (\<lambda>r'. live env K s0 (snapshot r')) r"
  proof (rule wp_then_promote [OF live])
    fix n s1 and r' :: durable_relay
    assume r': "live env K s0 (snapshot r')" "appended env (CommandInterrupted cid KBeginCheckpoint ?m) (snapshot r) s1"
      "spares UNIV s1 (snapshot r')"
    note ap = spares_terminated [OF r'(2) disjI1 [OF refl] live_inv(3) [OF live] g r'(3)]
    show "Q (Some n) r'" by (rule Q [OF r'(1) ap(1) finished_over [OF ap(2)]]) simp
  qed (use g d live_id [OF live d(1)] in \<open>auto simp: lets_finish_def agent_command_def entry_Some\<close>)
  with d show ?thesis by (simp add: cancel_checkpoint_barrier_on_disconnect_def wp_simps not_terminal_iff wp_rret_fun)
qed

lemma refines_disconnect [refines_intros]: "refines env K (cancel_checkpoint_barrier_on_disconnect env cid)"
  by (rule refinesI, rule wp_disconnect)

end
