(* ===== verification/Relay_Calls.thy ===== *)
theory Relay_Calls
  imports Relay_Methods
begin

text \<open>
  The refinement of the calls a controller and the agent's driver make: relay-local commands,
  submission, claims, acknowledgement, prompt context, one request, and the recovery that follows
  opening a worker root.
\<close>

section \<open>Relay-local commands\<close>

lemma relay_local_startable:
  assumes "bt_get (dispatches s) cid = Some d" "is_relay_local (d_command d)" "d_state d = DQueued"
  shows "start_guard s cid"
  using assms by (cases "d_command d") (auto simp: start_guard_def)

lemma wp_local_start:
  assumes "live env K s0 (snapshot r)" "bt_get (dispatches (snapshot r)) cid = Some d"
    "is_relay_local (d_command d)" "\<not> is_terminal (d_state d)"
    and Q: "\<And>x r'. live env K s0 (snapshot r') \<Longrightarrow> complete_guard (snapshot r') cid \<Longrightarrow>
          (\<And>res. lets_finish K (snapshot r') (CommandCompleted cid res)) \<Longrightarrow> Q x r'"
  shows "wp (if d_state d = DQueued then rbind (append_started env cid) (\<lambda>_. rret ()) else rret ()) Q
           (\<lambda>r'. live env K s0 (snapshot r')) r"
proof (cases "d_state d = DQueued")
  case True
  note g = relay_local_startable [OF assms(2,3) True]
  show ?thesis
    unfolding if_P [OF True] wp_rbind
  proof (rule wp_started [OF assms(1) g], simp only: wp_rret)
    fix n at and r' :: durable_relay
    assume r': "live env K s0 (snapshot r')" "appended env (CommandStarted cid at) (snapshot r) (snapshot r')"
    from appended_started [OF r'(2) live_inv(3) [OF assms(1)] g] assms(2,3) show "Q () r'"
      by (intro Q r'(1)) (auto simp: complete_guard_def lets_finish_def agent_command_def entry_Some)
  qed
next
  case False
  with assms show ?thesis by (auto simp: wp_simps complete_guard_def lets_finish_def agent_command_def entry_Some)
qed

lemma wp_append_notice:
  assumes "live env K s0 (snapshot r)"
    and Q: "\<And>r'. live env K s0 (snapshot r') \<Longrightarrow> dispatches (snapshot r') = dispatches (snapshot r) \<Longrightarrow> Q () r'"
  shows "wp (append_notice env cid cmd) Q (\<lambda>r'. live env K s0 (snapshot r')) r"
proof (cases "\<exists>m. cmd = RecordNotice m")
  case True
  then obtain m where m: "cmd = RecordNotice m" by blast
  show ?thesis
    unfolding append_notice_def m relay_command.case wp_rbind wp_rret
    by (rule wp_append [OF assms(1)]) (auto intro: Q simp: appended_runtime(1))
next
  case False
  with assms show ?thesis by (cases cmd) (auto simp: append_notice_def wp_rret)
qed

lemma refines_finish_local [refines_intros]: "refines env K (finish_relay_local_command env cid)"
  unfolding finish_relay_local_command_def
proof (rule refinesI, rule wp_bind_get)
  fix s0 and r :: durable_relay assume live: "live env K s0 (snapshot r)"
  let ?E = "\<lambda>r'. live env K s0 (snapshot r')"
  show "wp (case bt_get (dispatches (snapshot r)) cid of
       None \<Rightarrow> rfail (Bail ''unknown relay-local command {command_id}'' [AStr cid])
     | Some d \<Rightarrow>
         if \<not> is_relay_local (d_command d) then rfail (Bail ''command {command_id} is not relay-local'' [AStr cid])
         else if is_terminal (d_state d)
         then rwhen (d_state d = DCompleted \<and> releases_history (d_command d)) (garbage_collect_relay_history env)
         else
           rseq (append_notice env cid (d_command d))
           (rseq (if d_state d = DQueued then rbind (append_started env cid) (\<lambda>_. rret ()) else rret ())
           (rbind (rget (\<lambda>r. local_outcome (snapshot r) (d_command d))) (\<lambda>outcome.
            rbind (append_relay_event env (Some cid) (CommandCompleted cid outcome)) (\<lambda>_.
            rwhen (releases_history (d_command d)) (garbage_collect_relay_history env))))))
     (\<lambda>_. ?E) ?E r"
  proof (cases "bt_get (dispatches (snapshot r)) cid")
    case (Some d)
    note short = live_id [OF live Some]
    note gc = refines_wp [OF refines_rwhen [OF refines_garbage_collect]]
    have finish: "wp (rbind (rget (\<lambda>r. local_outcome (snapshot r) (d_command d))) (\<lambda>outcome.
            rbind (append_relay_event env (Some cid) (CommandCompleted cid outcome)) (\<lambda>_.
            rwhen (releases_history (d_command d)) (garbage_collect_relay_history env)))) (\<lambda>_. ?E) ?E r'"
      if "live env K s0 (snapshot r')" "complete_guard (snapshot r') cid"
        "\<And>res. lets_finish K (snapshot r') (CommandCompleted cid res)" for r'
      unfolding wp_rbind [of "append_relay_event env a b" for a b]
      by (rule wp_bind_get, unfold wp_rbind, rule wp_append [OF that(1)]) (use that short in \<open>auto intro: gc\<close>)
    have body: "wp (rseq (append_notice env cid (d_command d))
           (rseq (if d_state d = DQueued then rbind (append_started env cid) (\<lambda>_. rret ()) else rret ())
           (rbind (rget (\<lambda>r. local_outcome (snapshot r) (d_command d))) (\<lambda>outcome.
            rbind (append_relay_event env (Some cid) (CommandCompleted cid outcome)) (\<lambda>_.
            rwhen (releases_history (d_command d)) (garbage_collect_relay_history env)))))) (\<lambda>_. ?E) ?E r"
      if "is_relay_local (d_command d)" "\<not> is_terminal (d_state d)"
      unfolding wp_rseq
      by (rule wp_append_notice [OF live], rule wp_local_start) (use that Some in \<open>auto intro: finish\<close>)
    show ?thesis
      using body by (auto simp: Some wp_rfail live intro: gc)
  qed (simp add: wp_rfail live)
qed

section \<open>Submission\<close>

lemma wp_floor_check:
  assumes "\<And>rej r'. snapshot r' = snapshot r \<Longrightarrow>
      (\<And>t. rej = None \<Longrightarrow> cmd = AdvanceRecoveryFloor t \<Longrightarrow>
         recovery_floor_ordinal (snapshot r) \<le> cur_ordinal t \<and> cur_ordinal t \<le> latest_ordinal (snapshot r)) \<Longrightarrow> Q rej r'"
    and "\<And>r'. snapshot r' = snapshot r \<Longrightarrow> E r'"
  shows "wp (floor_check env cmd) Q E r"
proof (cases "\<exists>t. cmd = AdvanceRecoveryFloor t")
  case True
  then obtain t where t: "cmd = AdvanceRecoveryFloor t" by blast
  show ?thesis
    unfolding t floor_check_def relay_command.case recovery_floor_rejection_def
    by (rule wp_bind_get)
      (auto simp: wp_rret t intro!: assms wp_bind_get wp_bind_disk split: option.split)
next
  case False
  with assms show ?thesis by (cases cmd) (auto simp: floor_check_def wp_rret)
qed

lemma refines_accept:
  assumes "live env K s0 (snapshot r)" "queue_guard (snapshot r) cid cmd"
    "command_size env cmd \<le> RELAY_COMMAND_BYTE_BUDGET" and Q: "\<And>x r'. live env K s0 (snapshot r') \<Longrightarrow> Q x r'"
  shows "wp (accept_command env cid cmd) Q (\<lambda>r'. live env K s0 (snapshot r')) r"
proof -
  have rest: "refines env K (rseq (rwhen (is_relay_local cmd) (finish_relay_local_command env cid))
     (rbind (promote_next_queued_command env) (\<lambda>_. rret (Inr (PAccepted cid n)))))" for n
    by (intro refines_intros)
  show ?thesis
    unfolding accept_command_def
    by (rule wp_bind_disk, unfold wp_rbind [of "append_relay_event env a b" for a b], rule wp_append)
      (use assms queue_guardD in \<open>auto simp: queue_guard_def intro: refines_wp [OF rest]\<close>)
qed

lemma validate_identifier_Ok: "validate_identifier cid name = Ok () \<Longrightarrow> length cid \<le> 128"
  by (simp add: validate_identifier_def split: if_splits)

lemma ensure_serialized_budget_Ok: "ensure_serialized_budget n budget what = Ok x \<Longrightarrow> n \<le> budget"
  by (auto simp: ensure_serialized_budget_def ensure_byte_budget_def ensure_def split: if_splits)

lemma refines_refuse [refines_intros]: "refines env K (refuse code message)"
  unfolding refuse_def by (rule refines_intros)

lemma refines_submit [refines_intros]: "refines env K (submit_command env cid cmd)"
proof (rule refinesI)
  fix s0 and r :: durable_relay assume live: "live env K s0 (snapshot r)"
  let ?E = "\<lambda>r'. live env K s0 (snapshot r')"
  note known = refines_wp [OF refines_rseq [OF refines_rwhen [OF refines_finish_local] refines_basic(1)] live]
  note no = refines_wp [OF refines_refuse]
  show "wp (submit_command env cid cmd) (\<lambda>_. ?E) ?E r"
  proof (cases "ensure_serialized_budget (command_size env cmd) RELAY_COMMAND_BYTE_BUDGET ''relay command''")
    case (Ok u)
    note size = ensure_serialized_budget_Ok [OF Ok]
    have new: "wp (rbind (floor_check env cmd) (\<lambda>rejection.
         case rejection of Some message \<Rightarrow> refuse InvalidState message | None \<Rightarrow> accept_command env cid cmd)) (\<lambda>_. ?E) ?E r"
      if "validate_identifier cid ''command ID'' = Ok ()" "bt_get (handled_commands (snapshot r)) cid = None"
        "submit_refusal (snapshot r) cmd = None"
      unfolding wp_rbind
    proof (rule wp_floor_check)
      fix rej :: "relay_err option" and r' :: durable_relay
      assume r': "snapshot r' = snapshot r" and floor: "\<And>t. rej = None \<Longrightarrow> cmd = AdvanceRecoveryFloor t \<Longrightarrow>
         recovery_floor_ordinal (snapshot r) \<le> cur_ordinal t \<and> cur_ordinal t \<le> latest_ordinal (snapshot r)"
      have "queue_guard (snapshot r') cid cmd" if "rej = None"
        using floor [OF that] validate_identifier_Ok \<open>validate_identifier cid ''command ID'' = Ok ()\<close>
          \<open>bt_get (handled_commands (snapshot r)) cid = None\<close> \<open>submit_refusal (snapshot r) cmd = None\<close>
        by (auto simp: queue_guard_def r' bt_contains_def)
      then show "wp (case rej of Some message \<Rightarrow> refuse InvalidState message | None \<Rightarrow> accept_command env cid cmd) (\<lambda>_. ?E) ?E r'"
        using live r' size by (cases rej) (auto intro: no refines_accept)
    qed (simp add: live)
    show ?thesis
      unfolding submit_command_def Ok outcome.case using new live
      by (auto intro!: wp_bind_get no known split: option.split)
  next
    case (Err e)
    then show ?thesis using live by (auto simp: submit_command_def intro: no)
  next
    case Diverges
    then show ?thesis using live by (auto simp: submit_command_def wp_simps)
  qed
qed

section \<open>Claims\<close>

lemma distinct_map_sort: "distinct (map f (sort_key g xs)) = distinct (map f xs)"
  by (simp add: distinct_map)

lemma distinct_map_filter:
  "distinct (map fst m) \<Longrightarrow> (\<And>p y. f p = Some y \<Longrightarrow> g y = fst p) \<Longrightarrow> distinct (map g (List.map_filter f m))"
proof (induction m)
  case (Cons p m)
  have "g ` set (List.map_filter f m) \<subseteq> fst ` set m"
    using Cons.prems(2) by (force simp: set_map_filter)
  then have "fst p \<notin> g ` set (List.map_filter f m)" using Cons.prems(1) by auto
  with Cons.IH Cons.prems show ?case by (cases "f p") (auto simp: List.map_filter_simps)
qed (simp add: List.map_filter_simps)

lemma queued_controls_startable:
  assumes "bt_wf (dispatches s)"
  shows "distinct (queued_controls_before n s)" "cid \<in> set (queued_controls_before n s) \<Longrightarrow> startable s cid"
proof -
  show "distinct (queued_controls_before n s)"
    unfolding queued_controls_before_def Let_def distinct_map_sort
    by (rule distinct_map_filter [OF bt_wf_distinct [OF assms]]) (auto dest: control_entry_Some(1))
  assume "cid \<in> set (queued_controls_before n s)"
  from queued_controls_before_mem [OF assms this] obtain d where "bt_get (dispatches s) cid = Some d" "d_state d = DQueued"
    "is_effectful_acp (d_command d)" "\<not> is_queue_entry (d_command d)" by blast
  then show "startable s cid" by (cases "d_command d") (auto simp: startable_def)
qed

lemma refines_start_before_claim [refines_intros]: "refines env K (start_before_claim env maximum)"
  unfolding start_before_claim_def
proof (rule refinesI, rule wp_bind_get)
  fix s0 and r :: durable_relay assume live: "live env K s0 (snapshot r)"
  let ?E = "\<lambda>r'. live env K s0 (snapshot r')" and ?s = "snapshot r"
  have wf: "bt_wf (dispatches ?s)" using ledger_okD(1) [OF relay_invD(1) [OF live_inv(3) [OF live]]] .
  have controls: "wp (start_queued_controls env (take maximum (queued_controls_before n ?s))) (\<lambda>_. ?E) ?E r"
    if "checkpoint_barrier ?s = None" for n
    by (rule wp_start_queued_controls [OF live])
      (use that queued_controls_startable [OF wf] in \<open>auto dest: in_set_takeD\<close>)
  have barrier: "start_guard ?s cid"
    if "next_queued_checkpoint ?s = Some (cid, n)" "checkpoint_barrier ?s = None" "\<not> effectful_command_in_progress ?s" for cid n
    using next_queued_checkpoint_Some(1) [OF wf that(1)] that(2,3) by (auto simp: start_guard_def; case_tac "d_command d"; simp)
  show "wp (if checkpoint_barrier ?s \<noteq> None then rret ()
       else case next_queued_checkpoint ?s of
           Some (barrier_id, barrier_ordinal) \<Rightarrow>
             let earlier_controls = queued_controls_before barrier_ordinal ?s in
             if earlier_controls \<noteq> [] then start_queued_controls env (take maximum earlier_controls)
             else if \<not> effectful_command_in_progress ?s then rbind (append_started env barrier_id) (\<lambda>_. rret ())
             else rret ()
         | None \<Rightarrow> start_queued_controls env (take maximum (queued_controls_before u64_max ?s))) (\<lambda>_. ?E) ?E r"
    using live controls
    by (auto simp: wp_rret wp_rbind Let_def intro!: wp_started barrier split: option.split)
qed

lemma claim_commands_held:
  "bt_get (dispatches s) c = Some d \<Longrightarrow> d_state d = DInFlight \<Longrightarrow> bt_get (dispatches (snd (claim_commands ps s))) c = Some d"
proof (induction ps arbitrary: s)
  case (Cons p ps)
  have "bt_get (dispatches (snd (claim_command p s))) c = Some d"
    using Cons.prems by (auto simp: claim_command_def Let_def set_dispatch_state_def split: option.split)
  from Cons.IH [OF this Cons.prems(2)] show ?case by (simp add: split_beta)
qed simp

lemma live_claim:
  assumes "live env K s0 s" "\<forall>p \<in> set ps. \<exists>d. bt_get (dispatches s) (snd p) = Some d \<and> d_state d = DPending"
  shows "live env K s0 (snd (claim_commands ps s))"
  by (rule live_step [OF assms(1) step_claim [OF assms(2)]]) (simp add: held_def claim_commands_held)

lemma claim_commands_dispatches:
  "bt_get (dispatches (snd (claim_commands ps s))) x =
     (if x \<in> snd ` set ps then map_option (d_state_update (\<lambda>_. DInFlight)) (bt_get (dispatches s) x) else bt_get (dispatches s) x)"
proof (induction ps arbitrary: s)
  case (Cons p ps)
  have "bt_get (dispatches (snd (claim_command p s))) x =
      (if x = snd p then map_option (d_state_update (\<lambda>_. DInFlight)) (bt_get (dispatches s) x) else bt_get (dispatches s) x)"
    by (auto simp: claim_command_def Let_def set_dispatch_state_def split: option.split)
  then show ?case by (auto simp: split_beta Cons.IH option.map_comp comp_def)
qed simp

text \<open>The claims list the commands that were pending, in order, and each is now in flight.\<close>

definition claimed_from :: "relay_snapshot \<Rightarrow> relay_snapshot \<Rightarrow> claimed_relay_command list \<Rightarrow> bool" where
  "claimed_from s s' claims \<longleftrightarrow>
     distinct (map cl_command_id claims)
     \<and> (\<forall>c \<in> set claims. bt_get (dispatches s) (cl_command_id c) = Some \<lparr>d_command = cl_command c, d_state = DPending\<rparr>
          \<and> bt_get (dispatches s') (cl_command_id c) = Some \<lparr>d_command = cl_command c, d_state = DInFlight\<rparr>)"

definition claims_of :: "(u64 \<times> string) list \<Rightarrow> relay_snapshot \<Rightarrow> (string \<times> relay_command) list" where
  "claims_of ps s = List.map_filter (\<lambda>p. map_option (\<lambda>d. (snd p, d_command d)) (bt_get (dispatches s) (snd p))) ps"

lemma claims_of_claim: "claims_of ps (snd (claim_command p s)) = claims_of ps s"
  unfolding claims_of_def
  by (rule arg_cong [of _ _ "\<lambda>f. List.map_filter f ps"])
    (auto simp: fun_eq_iff claim_command_def Let_def set_dispatch_state_def option.map_comp comp_def split: option.split)

lemma claim_commands_list:
  "map (\<lambda>c. (cl_command_id c, cl_command c)) (fst (claim_commands ps s)) = claims_of ps s"
proof (induction ps arbitrary: s)
  case (Cons p ps)
  have "map (\<lambda>c. (cl_command_id c, cl_command c)) (fst (claim_command p s))
      = (case bt_get (dispatches s) (snd p) of None \<Rightarrow> [] | Some d \<Rightarrow> [(snd p, d_command d)])"
    by (simp add: claim_command_def Let_def split: option.split)
  with Cons.IH [of "snd (claim_command p s)"] show ?case
    by (auto simp: split_beta claims_of_claim) (auto simp: claims_of_def List.map_filter_simps split: option.split)
qed (simp add: claims_of_def List.map_filter_simps)

lemma claimed_fromI:
  assumes "map (\<lambda>c. (cl_command_id c, cl_command c)) claims = claims_of ps s" "distinct (map snd ps)"
    and pend: "\<forall>p \<in> set ps. \<exists>d. bt_get (dispatches s) (snd p) = Some d \<and> d_state d = DPending"
    and s': "s' = snd (claim_commands ps s)"
  shows "claimed_from s s' claims" "map cl_command_id claims = map snd ps"
proof -
  have "map fst (claims_of ps s) = map snd ps"
    unfolding claims_of_def using pend by (induction ps) (auto simp: List.map_filter_simps)
  then show ids: "map cl_command_id claims = map snd ps"
    using arg_cong [OF assms(1), of "map fst"] by (simp add: comp_def)
  show "claimed_from s s' claims"
    unfolding claimed_from_def
  proof (intro conjI ballI)
    show "distinct (map cl_command_id claims)" using ids assms(2) by simp
    fix c assume c: "c \<in> set claims"
    then have "(cl_command_id c, cl_command c) \<in> set (claims_of ps s)" unfolding assms(1) [symmetric] by auto
    then obtain p d where p: "p \<in> set ps" "snd p = cl_command_id c" "bt_get (dispatches s) (snd p) = Some d" "d_command d = cl_command c"
      by (auto simp: claims_of_def set_map_filter)
    from bspec [OF pend p(1)] p(3) have "d_state d = DPending" by simp
    with p(4) have "d = \<lparr>d_command = cl_command c, d_state = DPending\<rparr>" by (cases d) simp
    with p show "bt_get (dispatches s) (cl_command_id c) = Some \<lparr>d_command = cl_command c, d_state = DPending\<rparr>"
      and "bt_get (dispatches s') (cl_command_id c) = Some \<lparr>d_command = cl_command c, d_state = DInFlight\<rparr>"
      unfolding s' claim_commands_dispatches using imageI [OF p(1), of snd] by auto
  qed
qed

lemma claimable_distinct: "bt_wf (dispatches s) \<Longrightarrow> distinct (map snd (claimable s))"
  unfolding claimable_def distinct_map_sort
  by (rule distinct_map_filter [OF bt_wf_distinct]) (auto split: if_splits option.splits)

lemma wp_claim_pending:
  assumes live: "live env K s0 (snapshot r)"
    and Q: "\<And>claims s1 r'. live env K s0 (snapshot r') \<Longrightarrow> live env K s0 s1 \<Longrightarrow> claimed_from s1 (snapshot r') claims \<Longrightarrow>
          length claims \<le> maximum \<Longrightarrow> Q claims r'"
  shows "wp (claim_pending_commands_up_to env configured maximum) Q (\<lambda>r'. live env K s0 (snapshot r')) r"
proof (cases "\<not> configured \<or> maximum = 0")
  case True
  with Q [OF live live] show ?thesis by (simp add: claim_pending_commands_up_to_def wp_rret claimed_from_def)
next
  case False
  let ?E = "\<lambda>r'. live env K s0 (snapshot r')"
  have claim: "wp (rbind (rget snapshot) (\<lambda>s.
           let (claimed, next_snapshot) = claim_commands (take maximum (claimable s)) s in
           rseq (rwhen (claimed \<noteq> []) (commit_snapshot env next_snapshot)) (rret claimed))) Q ?E r1"
    if l1: "live env K s0 (snapshot r1)" for r1 :: durable_relay
  proof (rule wp_bind_get)
    let ?s = "snapshot r1" and ?ps = "take maximum (claimable (snapshot r1))"
    have wf: "bt_wf (dispatches ?s)" using ledger_okD(1) [OF relay_invD(1) [OF live_inv(3) [OF l1]]] .
    have pend: "\<forall>p \<in> set ?ps. \<exists>d. bt_get (dispatches ?s) (snd p) = Some d \<and> d_state d = DPending"
      by (blast dest: in_set_takeD claimable_pending [OF wf])
    have dist: "distinct (map snd ?ps)" using claimable_distinct [OF wf] by (simp add: take_map [symmetric])
    note res = claimed_fromI [OF claim_commands_list dist pend refl]
    have len: "length (fst (claim_commands ?ps ?s)) \<le> maximum"
      using arg_cong [OF res(2), of length] by simp
    show "wp (let (claimed, next_snapshot) = claim_commands ?ps ?s in
           rseq (rwhen (claimed \<noteq> []) (commit_snapshot env next_snapshot)) (rret claimed)) Q ?E r1"
    proof (cases "fst (claim_commands ?ps ?s) = []")
      case True
      then show ?thesis
        using Q [OF l1 l1] by (auto simp: Let_def split_beta wp_simps claimed_from_def)
    next
      case False
      then show ?thesis
        using live_claim [OF l1 pend] res(1) len l1
        by (auto simp: Let_def split_beta wp_simps rwhen_def wp_rret_fun intro!: wp_commit Q [OF _ l1])
    qed
  qed
  show ?thesis
    unfolding claim_pending_commands_up_to_def if_not_P [OF False] wp_rbind [of "promote_next_queued_command env"] wp_rseq [of "start_before_claim env n" for n]
    by (rule refines_wp [OF refines_promote live], erule refines_wp [OF refines_start_before_claim]) (rule claim)
qed

lemma refines_claim_pending [refines_intros]: "refines env K (claim_pending_commands_up_to env configured maximum)"
  by (rule refinesI, rule wp_claim_pending)

section \<open>Shell claims\<close>

lemma queued_shells_mem:
  assumes "bt_wf (dispatches s)" "p \<in> set (queued_shells P s)"
  shows "\<exists>d. bt_get (dispatches s) (snd p) = Some d \<and> d_state d = DQueued \<and> P (snd p) (fst p) (d_command d)"
  using assms by (force simp: queued_shells_def set_map_filter bt_mem_iff split: if_splits option.splits)

lemma queued_shells_distinct: "bt_wf (dispatches s) \<Longrightarrow> distinct (map snd (queued_shells P s))"
  unfolding queued_shells_def distinct_map_sort
  by (rule distinct_map_filter [OF bt_wf_distinct]) (auto split: if_splits option.splits)

lemma selected_shells_mem:
  assumes "bt_wf (dispatches s)" "p \<in> set (selected_shells n s)"
  shows "\<exists>d. bt_get (dispatches s) (snd p) = Some d \<and> d_state d = DQueued
           \<and> (is_cancel_user_shell (d_command d) \<or> is_run_user_shell (d_command d))"
proof -
  from assms(2) consider "p \<in> set (queued_shells (\<lambda>_ _ cmd. is_cancel_user_shell cmd) s)"
    | "p \<in> set (queued_shells (\<lambda>cid accepted cmd. is_run_user_shell cmd \<and> accepted < shell_barrier_ordinal s
                                \<and> cid \<notin> set (cancelled_shells s)) s)"
    by (auto simp: selected_shells_def Let_def dest: in_set_takeD)
  then show ?thesis by cases (use queued_shells_mem [OF assms(1)] in \<open>fastforce+\<close>)
qed

lemma selected_shells_distinct:
  assumes "bt_wf (dispatches s)"
  shows "distinct (map snd (selected_shells n s))"
proof -
  let ?c = "queued_shells (\<lambda>_ _ cmd. is_cancel_user_shell cmd) s"
  let ?r = "queued_shells (\<lambda>cid accepted cmd. is_run_user_shell cmd \<and> accepted < shell_barrier_ordinal s
                                \<and> cid \<notin> set (cancelled_shells s)) s"
  have cls: "\<not> (is_cancel_user_shell c \<and> is_run_user_shell c)" for c by (cases c) auto
  have "snd p \<noteq> snd q" if "p \<in> set ?c" "q \<in> set ?r" for p q
    using queued_shells_mem [OF assms that(1)] queued_shells_mem [OF assms that(2)] cls by auto
  then have "snd ` set ?c \<inter> snd ` set (take n ?r) = {}" by (blast dest: in_set_takeD)
  then show ?thesis
    using queued_shells_distinct [OF assms]
    by (simp add: selected_shells_def Let_def distinct_map_sort take_map [symmetric] flip: set_map)
qed

lemma claim_shell_command:
  assumes "\<And>d. bt_get (dispatches s) (snd p) = Some d \<Longrightarrow> \<not> is_prompt (d_command d)"
  shows "snd (claim_shell p s) = snd (claim_command p s)"
  using assms by (auto simp: claim_shell_def claim_command_def Let_def split: option.split)

lemma claim_shells_commands:
  assumes "\<forall>p \<in> set ps. \<forall>d. bt_get (dispatches s) (snd p) = Some d \<longrightarrow> \<not> is_prompt (d_command d)"
  shows "snd (claim_shells ps s) = snd (claim_commands ps s)"
  using assms
proof (induction ps arbitrary: s)
  case (Cons p ps)
  have eq: "snd (claim_shell p s) = snd (claim_command p s)"
    by (rule claim_shell_command) (use Cons.prems in simp)
  have "\<forall>q \<in> set ps. \<forall>d. bt_get (dispatches (snd (claim_shell p s))) (snd q) = Some d \<longrightarrow> \<not> is_prompt (d_command d)"
    using Cons.prems by (auto simp: claim_shell_def set_dispatch_state_def split: option.split if_splits)
  from Cons.IH [OF this] eq show ?case by (auto simp: Let_def split: prod.split)
qed simp

text \<open>The same for the shells; a shell that a claimed cancellation targets is not claimed.\<close>

definition shell_claim :: "claimed_relay_command \<Rightarrow> bool" where
  "shell_claim c \<longleftrightarrow> is_run_user_shell (cl_command c) \<or> is_cancel_user_shell (cl_command c)"

definition no_target_runs :: "claimed_relay_command list \<Rightarrow> bool" where
  "no_target_runs claims \<longleftrightarrow>
     (\<forall>c \<in> set claims. \<forall>c' \<in> set claims. \<forall>t. cl_command c = CancelUserShell t \<longrightarrow>
        is_run_user_shell (cl_command c') \<longrightarrow> cl_command_id c' \<noteq> t)"

lemma claim_shells_list:
  "map (\<lambda>c. (cl_command_id c, cl_command c)) (fst (claim_shells ps s)) = claims_of ps s"
proof (induction ps arbitrary: s)
  case (Cons p ps)
  have "map (\<lambda>c. (cl_command_id c, cl_command c)) (fst (claim_shell p s))
      = (case bt_get (dispatches s) (snd p) of None \<Rightarrow> [] | Some d \<Rightarrow> [(snd p, d_command d)])"
    by (simp add: claim_shell_def split: option.split)
  moreover have "claims_of ps (snd (claim_shell p s)) = claims_of ps s"
    unfolding claims_of_def
    by (rule arg_cong [of _ _ "\<lambda>f. List.map_filter f ps"])
      (auto simp: fun_eq_iff claim_shell_def set_dispatch_state_def option.map_comp comp_def split: option.split)
  ultimately show ?case
    using Cons.IH [of "snd (claim_shell p s)"]
    by (auto simp: split_beta) (auto simp: claims_of_def List.map_filter_simps split: option.split)
qed (simp add: claims_of_def List.map_filter_simps)

lemma selected_cancels:
  assumes "bt_wf (dispatches s)" "p \<in> set (selected_shells n s)" "q \<in> set (selected_shells n s)"
    and "bt_get (dispatches s) (snd p) = Some d" "d_command d = CancelUserShell t"
    and "bt_get (dispatches s) (snd q) = Some e" "is_run_user_shell (d_command e)"
  shows "snd q \<noteq> t"
proof -
  from selected_shells_mem [OF assms(1,2)] assms(4) have "d_state d = DQueued" by auto
  moreover have "(snd p, d) \<in> set (dispatches s)" using assms(1,4) by (simp add: bt_mem_iff)
  ultimately have t: "t \<in> set (cancelled_shells s)"
    unfolding cancelled_shells_def set_map_filter using assms(5) by (force split: if_splits)
  have "\<not> is_cancel_user_shell (d_command e)" using assms(7) by (cases "d_command e") auto
  then have "q \<notin> set (queued_shells (\<lambda>_ _ cmd. is_cancel_user_shell cmd) s)"
    using queued_shells_mem [OF assms(1), of q "\<lambda>_ _ cmd. is_cancel_user_shell cmd"] assms(6) by auto
  with assms(3) have "q \<in> set (queued_shells (\<lambda>cid accepted cmd. is_run_user_shell cmd \<and> accepted < shell_barrier_ordinal s
      \<and> cid \<notin> set (cancelled_shells s)) s)"
    by (auto simp: selected_shells_def Let_def dest: in_set_takeD)
  from queued_shells_mem [OF assms(1) this] t show ?thesis by auto
qed

lemma wp_claim_shells:
  assumes live: "live env K s0 (snapshot r)"
    and Q: "\<And>claims s1 r'. live env K s0 (snapshot r') \<Longrightarrow> live env K s0 s1 \<Longrightarrow> claimed_from s1 (snapshot r') claims \<Longrightarrow>
          (\<forall>c \<in> set claims. shell_claim c) \<Longrightarrow> no_target_runs claims \<Longrightarrow> Q claims r'"
  shows "wp (claim_pending_user_shell_commands_up_to env maximum) Q (\<lambda>r'. live env K s0 (snapshot r')) r"
proof (cases "checkpoint_barrier (snapshot r)")
  case (Some b)
  with Q [OF live live] show ?thesis
    by (simp add: claim_pending_user_shell_commands_up_to_def wp_simps claimed_from_def no_target_runs_def)
next
  case None
  let ?E = "\<lambda>r'. live env K s0 (snapshot r')" and ?s = "snapshot r"
  let ?ps = "selected_shells maximum (snapshot r)"
  have wf: "bt_wf (dispatches ?s)" using ledger_okD(1) [OF relay_invD(1) [OF live_inv(3) [OF live]]] .
  note dist = selected_shells_distinct [OF wf, of maximum] and sel = selected_shells_mem [OF wf]
  have startable: "startable ?s (snd p)" if "p \<in> set ?ps" for p
  proof -
    from sel [OF that] obtain d where "bt_get (dispatches ?s) (snd p) = Some d" "d_state d = DQueued"
      "is_cancel_user_shell (d_command d) \<or> is_run_user_shell (d_command d)" by blast
    then show ?thesis by (cases "d_command d") (auto simp: startable_def)
  qed
  have claim: "wp (rbind (rget snapshot) (\<lambda>s'. let (claimed, next_snapshot) = claim_shells ?ps s' in
       rseq (rwhen (claimed \<noteq> []) (commit_snapshot env next_snapshot)) (rret claimed))) Q ?E r1"
    if l1: "live env K s0 (snapshot r1)" and pen: "set_pending (map snd ?ps) ?s (snapshot r1)" for r1 :: durable_relay
  proof (rule wp_bind_get)
    let ?s1 = "snapshot r1"
    have get: "\<exists>d. bt_get (dispatches ?s) (snd p) = Some d \<and> bt_get (dispatches ?s1) (snd p) = Some (d\<lparr>d_state := DPending\<rparr>)
        \<and> (is_cancel_user_shell (d_command d) \<or> is_run_user_shell (d_command d))" if "p \<in> set ?ps" for p
      using sel [OF that] pen that by (auto simp: set_pending_def)
    then have pend: "\<forall>p \<in> set ?ps. \<exists>d. bt_get (dispatches ?s1) (snd p) = Some d \<and> d_state d = DPending" by force
    have noprompt: "\<forall>p \<in> set ?ps. \<forall>d. bt_get (dispatches ?s1) (snd p) = Some d \<longrightarrow> \<not> is_prompt (d_command d)"
    proof (intro ballI allI impI)
      fix p d assume "p \<in> set ?ps" "bt_get (dispatches ?s1) (snd p) = Some d"
      with get [of p] show "\<not> is_prompt (d_command d)" by (cases "d_command d") auto
    qed
    note eq = claim_shells_commands [OF noprompt]
    let ?cl = "fst (claim_shells ?ps ?s1)"
    note res = claimed_fromI [OF claim_shells_list dist pend eq]
    have from_sel: "\<exists>p d. p \<in> set ?ps \<and> snd p = cl_command_id c \<and> bt_get (dispatches ?s) (snd p) = Some d \<and> d_command d = cl_command c
        \<and> (is_cancel_user_shell (d_command d) \<or> is_run_user_shell (d_command d))" if "c \<in> set ?cl" for c
    proof -
      from res(2) that have "cl_command_id c \<in> snd ` set ?ps" by (metis imageI list.set_map)
      then obtain p where p: "p \<in> set ?ps" "snd p = cl_command_id c" by auto
      from get [OF p(1)] obtain d where d: "bt_get (dispatches ?s) (snd p) = Some d" "bt_get (dispatches ?s1) (snd p) = Some (d\<lparr>d_state := DPending\<rparr>)"
        "is_cancel_user_shell (d_command d) \<or> is_run_user_shell (d_command d)" by blast
      from res(1) that have "bt_get (dispatches ?s1) (cl_command_id c) = Some \<lparr>d_command = cl_command c, d_state = DPending\<rparr>"
        by (simp add: claimed_from_def)
      with d(2) p(2) have "d_command d = cl_command c" by (cases d) simp
      with p d(1,3) show ?thesis by blast
    qed
    have kinds: "\<forall>c \<in> set ?cl. shell_claim c" using from_sel by (fastforce simp: shell_claim_def)
    have targets: "no_target_runs ?cl"
      unfolding no_target_runs_def by (metis from_sel selected_cancels [OF wf])
    have l2: "live env K s0 (snd (claim_shells ?ps ?s1))" unfolding eq by (rule live_claim [OF l1 pend])
    show "wp (let (claimed, next_snapshot) = claim_shells ?ps ?s1 in
       rseq (rwhen (claimed \<noteq> []) (commit_snapshot env next_snapshot)) (rret claimed)) Q ?E r1"
    proof (cases "?cl = []")
      case True
      then show ?thesis
        using Q [OF l1 l1] by (auto simp: Let_def split_beta wp_simps claimed_from_def no_target_runs_def)
    next
      case False
      then show ?thesis
        using l2 res(1) kinds targets l1
        by (auto simp: Let_def split_beta wp_simps rwhen_def wp_rret_fun intro!: wp_commit Q [OF _ l1])
    qed
  qed
  have "wp (start_queued_controls env (map snd ?ps)) (\<lambda>_. wp (rbind (rget snapshot) (\<lambda>s'.
            let (claimed, next_snapshot) = claim_shells ?ps s' in
            rseq (rwhen (claimed \<noteq> []) (commit_snapshot env next_snapshot)) (rret claimed))) Q ?E) ?E r"
    by (rule wp_start_queued_controls [OF live dist _ None claim]) (use startable in auto)
  then show ?thesis
    unfolding claim_pending_user_shell_commands_up_to_def
    by (intro wp_bind_get) (simp add: None wp_rseq Let_def)
qed

lemma refines_claim_shells [refines_intros]: "refines env K (claim_pending_user_shell_commands_up_to env maximum)"
  by (rule refinesI, rule wp_claim_shells)

section \<open>Acknowledgement, prompt context and attaching\<close>

lemma wp_rtry: "wp (rtry m f g) Q E r = (case m r of (Ok x, r') \<Rightarrow> wp (f x) Q E r' | (Err e, r') \<Rightarrow> wp (g e) Q E r' | (Diverges, r') \<Rightarrow> E r')"
  by (auto simp: wp_def rtry_def split: outcome.split prod.split)

lemma refines_rtry [refines_intros]:
  assumes "refines env K m" "\<And>x. refines env K (f x)" "\<And>e. refines env K (g e)"
  shows "refines env K (rtry m f g)"
proof (rule refinesI)
  fix s0 and r :: durable_relay assume "live env K s0 (snapshot r)"
  with assms(1) have "wp m (\<lambda>_ r'. live env K s0 (snapshot r')) (\<lambda>r'. live env K s0 (snapshot r')) r" by (simp add: refines_def)
  then show "wp (rtry m f g) (\<lambda>_ r'. live env K s0 (snapshot r')) (\<lambda>r'. live env K s0 (snapshot r')) r"
    using assms(2,3) by (auto simp: wp_rtry wp_def [of m] refines_def split: outcome.split prod.split)
qed

lemma validate_cursor_Ok:
  assumes "validate_cursor env plan n digest d = (Ok x, d')"
  shows "n \<le> pl_latest_ordinal plan" "is_hex_digest digest"
  using assms
  by (auto simp: validate_cursor_def rfail_def rseq_def rbind_def rlift_def validate_relay_digest_def is_hex_digest_def split: if_splits)

lemma rwhen_cases: "rwhen True m = m" "rwhen False m = rret ()"
  by (simp_all add: rwhen_def)

lemma refines_acknowledge [refines_intros]: "refines env K (acknowledge env n digest)"
  unfolding acknowledge_def
proof (rule refinesI, rule wp_bind_get)
  fix s0 and r :: durable_relay assume live: "live env K s0 (snapshot r)"
  let ?E = "\<lambda>r'. live env K s0 (snapshot r')"
  have rest: "refines env K (rbind (rget (\<lambda>r. n = acknowledged_through (snapshot r))) (\<lambda>current.
          rseq (rwhen current (garbage_collect_relay_history env))
          (rbind (rget snapshot) (\<lambda>s'.
             rret (Inr (PAcknowledged (acknowledged_through s') (acknowledged_digest s')))))))"
    by (intro refines_intros)
  have ack: "wp (rbind (rget snapshot) (\<lambda>s.
         rseq (rwhen (n > acknowledged_through s)
                 (commit_snapshot env (s\<lparr>acknowledged_through := n, acknowledged_digest := digest\<rparr>)))
         (rbind (rget (\<lambda>r. n = acknowledged_through (snapshot r))) (\<lambda>current.
          rseq (rwhen current (garbage_collect_relay_history env))
          (rbind (rget snapshot) (\<lambda>s'.
             rret (Inr (PAcknowledged (acknowledged_through s') (acknowledged_digest s')))))))))
       (\<lambda>_. ?E) ?E r'"
    if "n \<le> latest_ordinal (snapshot r)" "is_hex_digest digest" "snapshot r' = snapshot r" for r' :: durable_relay
  proof (rule wp_bind_get, unfold wp_rseq [of "rwhen a b" for a b])
    have "live env K s0 (snapshot r'\<lparr>acknowledged_through := n, acknowledged_digest := digest\<rparr>)"
      if "acknowledged_through (snapshot r') < n"
      by (rule live_step [OF live]) (use that \<open>snapshot r' = snapshot r\<close> \<open>n \<le> _\<close> \<open>is_hex_digest digest\<close> in
        \<open>auto intro!: step_acknowledge held_same\<close>)
    then show "wp (rwhen (n > acknowledged_through (snapshot r'))
                 (commit_snapshot env (snapshot r'\<lparr>acknowledged_through := n, acknowledged_digest := digest\<rparr>)))
       (\<lambda>_. wp (rbind (rget (\<lambda>r. n = acknowledged_through (snapshot r))) (\<lambda>current.
          rseq (rwhen current (garbage_collect_relay_history env))
          (rbind (rget snapshot) (\<lambda>s'.
             rret (Inr (PAcknowledged (acknowledged_through s') (acknowledged_digest s'))))))) (\<lambda>_. ?E) ?E) ?E r'"
      using live that(3)
      by (cases "n > acknowledged_through (snapshot r')")
        (auto simp: rwhen_cases wp_rret intro!: wp_commit refines_wp [OF rest])
  qed
  show "wp (rtry (rdisk (validate_cursor env (replay_plan r) n digest))
       (\<lambda>_. rbind (rget snapshot) (\<lambda>s.
         rseq (rwhen (n > acknowledged_through s)
                 (commit_snapshot env (s\<lparr>acknowledged_through := n, acknowledged_digest := digest\<rparr>)))
         (rbind (rget (\<lambda>r. n = acknowledged_through (snapshot r))) (\<lambda>current.
          rseq (rwhen current (garbage_collect_relay_history env))
          (rbind (rget snapshot) (\<lambda>s'.
             rret (Inr (PAcknowledged (acknowledged_through s') (acknowledged_digest s')))))))))
       (\<lambda>e. rret (Inl (relay_protocol_error Desynchronized e False
                         (Some (desynchronized_detail (replay_plan r) n digest)))))) (\<lambda>_. ?E) ?E r"
    using live by (auto simp: wp_rtry rdisk_def wp_rret replay_plan_def intro!: ack
        dest: validate_cursor_Ok split: outcome.split prod.split)
qed

lemma refines_install_context [refines_intros]: "refines env K (install_prompt_context env new_part)"
  unfolding install_prompt_context_def
proof (rule refinesI)
  fix s0 and r :: durable_relay assume live: "live env K s0 (snapshot r)"
  have "live env K s0 (snapshot r\<lparr>pending_prompt_ctx := c\<rparr>)" for c
    using live step_context by (rule live_step) (rule held_same, simp)
  with live show "wp (if is_blank new_part then rfail (Bail ''pending prompt context is empty'' [])
      else
        rbind (rget snapshot) (\<lambda>s.
          if active_prompt s \<noteq> None
             \<or> (case pending_prompt_ctx s of Some c \<Rightarrow> pc_attached c \<noteq> None | None \<Rightarrow> False)
          then rfail (Bail ''cannot replace prompt context while its prompt is active'' [])
          else
            let next = s\<lparr>pending_prompt_ctx := extend_context new_part (pending_prompt_ctx s)\<rparr> in
            rseq (rlift (ensure_serialized_budget (snapshot_size env next) RELAY_SNAPSHOT_BYTE_BUDGET
                           ''relay snapshot with pending prompt context''))
                 (commit_snapshot env next)))
     (\<lambda>_ r'. live env K s0 (snapshot r')) (\<lambda>r'. live env K s0 (snapshot r')) r"
    by (auto simp: wp_rfail Let_def intro!: wp_bind_get wp_seq_lift wp_commit)
qed

lemma refines_attach [refines_intros]: "refines env K (attach env n digest)"
  unfolding attach_def by (intro refines_intros)

lemma refines_handle_request [refines_intros]: "refines env K (handle_request env request)"
  unfolding handle_request_def by (cases request) (auto intro!: refines_intros)

lemma refines_handle [refines_intros]: "refines env K (handle env envelope)"
  unfolding handle_def handle_inner_def by (auto intro!: refines_intros split: option.split)

end
