(* ===== verification/Relay_Recovery.thy ===== *)
theory Relay_Recovery
  imports Relay_Calls
begin

text \<open>
  Recovery after a restart: the commands that were unfinished are settled by steps of the machine
  only, and no command is left in the agent's hands, so nothing that ran before the restart runs
  again. The last section puts the refinements together.
\<close>

lemma bt_modify_same: "bt_wf m \<Longrightarrow> bt_get m k = Some v \<Longrightarrow> f v = v \<Longrightarrow> bt_modify k f m = m"
  unfolding bt_modify_def by (rule map_idI) (auto simp: bt_mem_iff)

section \<open>Settling commands one after the other\<close>

text \<open>The commands of \<open>C\<close> are in one of the phases of \<open>\<Phi>\<close>.\<close>

definition phases :: "phase set \<Rightarrow> string set \<Rightarrow> relay_snapshot \<Rightarrow> bool" where
  "phases \<Phi> C s \<longleftrightarrow> (\<forall>c \<in> C. \<exists>cmd ph. entry s c = Some (cmd, ph) \<and> ph \<in> \<Phi>)"

lemma phases_mono: "phases \<Phi> C s \<Longrightarrow> D \<subseteq> C \<Longrightarrow> phases \<Phi> D s"
  unfolding phases_def by blast

lemma phases_spares:
  assumes "spares C s s'" "phases \<Phi> C s" "Started \<in> \<Phi>" "Done \<notin> \<Phi>"
  shows "phases \<Phi> C s'"
  unfolding phases_def
proof
  fix c assume c: "c \<in> C"
  with assms(2) obtain cmd ph where e: "entry s c = Some (cmd, ph)" "ph \<in> \<Phi>" by (auto simp: phases_def)
  have "ph = Waiting \<or> ph = Started" using e(2) assms(4) by (cases ph) auto
  moreover have "entry s' c = Some (cmd, Started) \<or> entry s' c = Some (cmd, Waiting) \<and> ph = Waiting"
    using calculation e(1) bspec [OF assms(1) [unfolded spares_def] c] by auto
  ultimately show "\<exists>cmd ph. entry s' c = Some (cmd, ph) \<and> ph \<in> \<Phi>" using e(2) assms(3) by auto
qed

lemma wp_settle:
  fixes r :: durable_relay
  assumes "live env {} s0 (snapshot r)" "distinct (map snd ps)" "phases \<Phi> (snd ` set ps) (snapshot r)" "Started \<in> \<Phi>" "Done \<notin> \<Phi>"
    and step: "\<And>p acc r. live env {} s0 (snapshot r) \<Longrightarrow> phases \<Phi> {snd p} (snapshot r) \<Longrightarrow>
      wp (f p acc) (\<lambda>_ r'. live env {} s0 (snapshot r') \<and> spares (- {snd p}) (snapshot r) (snapshot r'))
        (\<lambda>r'. live env {} s0 (snapshot r')) r"
  shows "wp (rfold f ps acc) (\<lambda>_ r'. live env {} s0 (snapshot r')) (\<lambda>r'. live env {} s0 (snapshot r')) r"
  using assms(1-3)
proof (induction ps arbitrary: r acc)
  case (Cons p ps)
  have "phases \<Phi> {snd p} (snapshot r)" using Cons.prems(3) by (rule phases_mono) auto
  note head = step [OF Cons.prems(1) this, of acc]
  show ?case
    unfolding rfold.simps(2) wp_rbind
  proof (rule wp_mono [OF head])
    fix x and r' :: durable_relay
    assume r': "live env {} s0 (snapshot r') \<and> spares (- {snd p}) (snapshot r) (snapshot r')"
    have "spares (snd ` set ps) (snapshot r) (snapshot r')"
      by (rule spares_mono [OF conjunct2 [OF r']]) (use Cons.prems(2) in auto)
    moreover have "phases \<Phi> (snd ` set ps) (snapshot r)" using Cons.prems(3) by (rule phases_mono) auto
    ultimately have "phases \<Phi> (snd ` set ps) (snapshot r')" using assms(4,5) by (rule phases_spares)
    with r' Cons.prems(2) show "wp (rfold f ps x) (\<lambda>_ r'. live env {} s0 (snapshot r')) (\<lambda>r'. live env {} s0 (snapshot r')) r'"
      by (intro Cons.IH) simp_all
  qed
qed (simp add: wp_rret)

lemma rforeach_rfold: "rforeach f xs = rfold (\<lambda>x _. f x) xs ()"
  by (induction xs) (simp_all add: rseq_def)

section \<open>The commands a restart finds unfinished\<close>

lemma unfinished_mem:
  assumes "bt_wf (dispatches s)" "p \<in> set (unfinished P s)"
  shows "\<exists>d. bt_get (dispatches s) (snd p) = Some d \<and> P d"
  using assms by (force simp: unfinished_def set_map_filter bt_mem_iff split: if_splits)

lemma unfinished_distinct: "bt_wf (dispatches s) \<Longrightarrow> distinct (map snd (unfinished P s))"
  unfolding unfinished_def distinct_map_sort
  by (rule distinct_map_filter [OF bt_wf_distinct]) (auto split: if_splits)

lemma unfinished_phases:
  assumes "bt_wf (dispatches s)" "\<And>d. P d \<Longrightarrow> phase_of (d_state d) \<in> \<Phi>"
  shows "phases \<Phi> (snd ` set (unfinished P s)) s"
  using unfinished_mem [OF assms(1), of _ P] assms(2) by (fastforce simp: phases_def entry_def)

lemma appended_shell_completed:
  assumes "appended env (CommandCompleted cid outcome) s s'" "relay_inv s" "entry s cid = Some (RunUserShell k, ph)"
  shows "spares (- {cid}) s s'"
proof -
  from assms(1) obtain ev s1 where ev: "recorded_as (CommandCompleted cid outcome) (ev_observation ev)"
    "apply_observation ev s = Ok s1" "s' = advance_frontier ev s1" "latest_ordinal s \<le> ev_ordinal ev" by (rule appended_observation)
  have "entry s' c = entry s c" if "c \<noteq> cid" for c
  proof (cases "\<exists>message. ev_observation ev = Warning message")
    case True
    with ev(2) have "s1 = s" by (auto simp: apply_observation_def)
    then show ?thesis by (simp add: ev(3))
  next
    case False
    with ev(1) obtain out where "ev_observation ev = CommandCompleted cid out" by (auto simp: recorded_as_def)
    with ev(2) have ok: "apply_command_completed (ev_ordinal ev) cid out s = Ok s1" by (simp add: apply_observation_def)
    from assms(3) obtain d where d: "bt_get (dispatches s) cid = Some d" "d_command d = RunUserShell k" by (auto simp: entry_Some)
    with ok obtain res where "complete_user_shell cid res
        (set_terminal_ordinal cid (ev_ordinal ev) (set_dispatch_state cid DCompleted s)) = Ok s1"
      by (auto simp: apply_command_completed_def complete_outcome_def split: relay_command_outcome.splits if_splits)
    from finishes_user_shell [OF assms(2,3) _ this] frontier_okD(2) [OF relay_invD(7) [OF assms(2)]] ev(4) that
    show ?thesis by (simp add: ev(3) finishes_def ledger_marks_def)
  qed
  then show ?thesis by (intro spares_entry) simp
qed

lemma wp_interrupt:
  assumes "live env {} s0 (snapshot r)" "phases {Waiting, Started} {cid} (snapshot r)"
  shows "wp (rbind (record_command_interrupted env cid message) (\<lambda>_. rret x))
    (\<lambda>_ r'. live env {} s0 (snapshot r') \<and> spares (- {cid}) (snapshot r) (snapshot r')) (\<lambda>r'. live env {} s0 (snapshot r')) r"
  unfolding wp_rbind
proof (rule wp_record_interrupted [OF assms(1)])
  from assms(2) obtain d where "bt_get (dispatches (snapshot r)) cid = Some d" "\<not> is_terminal (d_state d)"
    by (auto simp: phases_def entry_Some phase_of_iff not_terminal_iff)
  then show "terminate_guard (snapshot r) cid" by (auto simp: terminate_guard_def)
qed (simp_all add: wp_rret)

lemma reclose_live:
  assumes "live env {} s0 s" "entry s cid = Some (Close b e, Started)"
  shows "live env {} s0 (set_dispatch_state cid DPending s)"
proof -
  from assms(2) obtain d where d: "bt_get (dispatches s) cid = Some d" "d_command d = Close b e" "in_progress (d_state d)"
    by (auto simp: entry_Some phase_of_iff)
  show ?thesis
  proof (cases "d_state d = DInFlight")
    case True
    show ?thesis by (rule live_step [OF assms(1)], rule step_reclose [OF d(1)]) (use d True in \<open>simp_all add: held_def\<close>)
  next
    case False
    with d(3) have "d_state d = DPending" by (cases "d_state d") simp_all
    then have "set_dispatch_state cid DPending s = s"
      using d(1) ledger_okD(1) [OF relay_invD(1) [OF live_inv(3) [OF assms(1)]]]
      by (simp add: set_dispatch_state_def bt_modify_same)
    with assms(1) show ?thesis by simp
  qed
qed

lemma set_dispatch_spares: "spares (- {cid}) s (set_dispatch_state cid st s)"
  by (rule spares_entry) (simp add: entry_set_dispatch_state)

lemma wp_recover_in_flight:
  assumes live: "live env {} s0 (snapshot r)" and "phases {Started} {cid} (snapshot r)"
  shows "wp (recover_in_flight env cid kept)
    (\<lambda>_ r'. live env {} s0 (snapshot r') \<and> spares (- {cid}) (snapshot r) (snapshot r')) (\<lambda>r'. live env {} s0 (snapshot r')) r"
proof -
  from assms(2) obtain cmd where e: "entry (snapshot r) cid = Some (cmd, Started)" by (auto simp: phases_def)
  then obtain d where d: "bt_get (dispatches (snapshot r)) cid = Some d" "d_command d = cmd" by (auto simp: entry_Some)
  have any: "phases {Waiting, Started} {cid} (snapshot r)" using e by (simp add: phases_def)
  show ?thesis
    unfolding recover_in_flight_def
  proof (rule wp_bind_get, unfold d option.map option.case, cases cmd)
    case (Close b x)
    then show "wp (case cmd of
         Close _ _ \<Rightarrow> rseq (rmodify (\<lambda>r. r\<lparr>snapshot := set_dispatch_state cid DPending (snapshot r)\<rparr>)) (rret True)
       | RunUserShell command \<Rightarrow>
           rbind (record_command_completed env cid (OUserShell (interrupted_shell_result command))) (\<lambda>_. rret kept)
       | _ \<Rightarrow> rbind (record_command_interrupted env cid
                ''relay restarted while the ACP command was in flight; it was not replayed'') (\<lambda>_. rret kept))
      (\<lambda>_ r'. live env {} s0 (snapshot r') \<and> spares (- {cid}) (snapshot r) (snapshot r')) (\<lambda>r'. live env {} s0 (snapshot r')) r"
      using reclose_live [OF live] e by (simp add: wp_simps set_dispatch_spares)
  next
    case (RunUserShell k)
    have "wp (record_command_completed env cid (OUserShell (interrupted_shell_result k)))
       (\<lambda>_ r'. live env {} s0 (snapshot r') \<and> spares (- {cid}) (snapshot r) (snapshot r')) (\<lambda>r'. live env {} s0 (snapshot r')) r"
    proof (rule wp_record_completed [OF live], simp, intro conjI)
      fix s1 and r' :: durable_relay
      assume "appended env (CommandCompleted cid (OUserShell (interrupted_shell_result k))) (snapshot r) s1"
        and promoted: "spares UNIV s1 (snapshot r')"
      from appended_shell_completed [OF this(1) live_inv(3) [OF live] e [unfolded RunUserShell]]
      show "spares (- {cid}) (snapshot r) (snapshot r')" by (rule spares_trans) (rule spares_mono [OF promoted], simp)
    qed
    then show "wp (case cmd of
         Close _ _ \<Rightarrow> rseq (rmodify (\<lambda>r. r\<lparr>snapshot := set_dispatch_state cid DPending (snapshot r)\<rparr>)) (rret True)
       | RunUserShell command \<Rightarrow>
           rbind (record_command_completed env cid (OUserShell (interrupted_shell_result command))) (\<lambda>_. rret kept)
       | _ \<Rightarrow> rbind (record_command_interrupted env cid
                ''relay restarted while the ACP command was in flight; it was not replayed'') (\<lambda>_. rret kept))
      (\<lambda>_ r'. live env {} s0 (snapshot r') \<and> spares (- {cid}) (snapshot r) (snapshot r')) (\<lambda>r'. live env {} s0 (snapshot r')) r"
      by (simp add: RunUserShell wp_rbind wp_rret_fun)
  qed (simp_all add: wp_interrupt [OF live any])
qed

lemma refines_settle:
  assumes phase: "\<And>d. P d \<Longrightarrow> phase_of (d_state d) \<in> \<Phi>" "Started \<in> \<Phi>" "Done \<notin> \<Phi>"
    and step: "\<And>s0 cid acc r. live env {} s0 (snapshot r) \<Longrightarrow> phases \<Phi> {cid} (snapshot r) \<Longrightarrow>
      wp (f cid acc) (\<lambda>_ r'. live env {} s0 (snapshot r') \<and> spares (- {cid}) (snapshot r) (snapshot r'))
        (\<lambda>r'. live env {} s0 (snapshot r')) r"
    and rest: "\<And>x. refines env {} (k x)"
  shows "refines env {} (rbind (rget (\<lambda>r. unfinished P (snapshot r))) (\<lambda>ps. rbind (rfold (\<lambda>p. f (snd p)) ps acc) k))"
proof (rule refinesI, rule wp_bind_get)
  fix s0 and r :: durable_relay assume live: "live env {} s0 (snapshot r)"
  have wf: "bt_wf (dispatches (snapshot r))" using ledger_okD(1) [OF relay_invD(1) [OF live_inv(3) [OF live]]] .
  have "wp (rfold (\<lambda>p. f (snd p)) (unfinished P (snapshot r)) acc) (\<lambda>_ r'. live env {} s0 (snapshot r'))
      (\<lambda>r'. live env {} s0 (snapshot r')) r"
    by (rule wp_settle [OF live unfinished_distinct [OF wf] unfinished_phases [OF wf phase(1)] phase(2,3)])
      (assumption, rule step)
  then show "wp (rbind (rfold (\<lambda>p. f (snd p)) (unfinished P (snapshot r)) acc) k)
      (\<lambda>_ r'. live env {} s0 (snapshot r')) (\<lambda>r'. live env {} s0 (snapshot r')) r"
    unfolding wp_rbind by (rule wp_mono) (auto intro: refines_wp [OF rest])
qed

lemma refines_recover_nonterminal [refines_intros]: "refines env {} (recover_nonterminal_commands env)"
  unfolding recover_nonterminal_commands_def
proof (rule refines_rbind [OF refines_basic(3)], rule refines_rseq)
  show "refines env {} (rforeach (\<lambda>p. finish_relay_local_command env (snd p)) ps)" for ps
    by (intro refines_intros)
  have in_flight: "refines env {} (rbind (rget (\<lambda>r. unfinished (\<lambda>d. d_state d = DInFlight) (snapshot r))) (\<lambda>in_flight.
       rbind (rfold (\<lambda>p. recover_in_flight env (snd p)) in_flight False) (\<lambda>restored_close.
       rwhen restored_close (persist_snapshot env))))"
    by (rule refines_settle [where \<Phi> = "{Started}"]) (auto intro: wp_recover_in_flight refines_intros)
  show "refines env {} (rbind (rget (\<lambda>r. unfinished ownerless_barrier (snapshot r))) (\<lambda>barriers.
      rseq (rforeach (\<lambda>p. rbind (record_command_interrupted env (snd p)
                ''relay restarted without the controller that owned the checkpoint barrier'') (\<lambda>_. rret ())) barriers)
      (rbind (rget (\<lambda>r. unfinished (\<lambda>d. d_state d = DInFlight) (snapshot r))) (\<lambda>in_flight.
       rbind (rfold (\<lambda>p. recover_in_flight env (snd p)) in_flight False) (\<lambda>restored_close.
       rwhen restored_close (persist_snapshot env))))))"
    unfolding rseq_def rforeach_rfold
    by (rule refines_settle [where \<Phi> = "{Waiting, Started}"])
      (auto intro: wp_interrupt in_flight simp: ownerless_barrier_def not_terminal_iff phase_of_iff)
qed

section \<open>Adopting and opening\<close>

lemma unqueued_none:
  assumes "relay_inv s"
  shows "unqueued s = []"
proof -
  have "x \<notin> set (unqueued s)" for x
  proof
    assume "x \<in> set (unqueued s)"
    then obtain cid d where d: "(cid, d) \<in> set (dispatches s)" "d_state d = DQueued" "is_queue_entry (d_command d)"
      "\<not> list_ex (\<lambda>q. q_command_id q = cid) (queued_prompts s)"
      unfolding unqueued_def set_map_filter by (auto split: if_splits)
    then have "entry s cid = Some (d_command d, Waiting)"
      using ledger_okD(1) [OF relay_invD(1) [OF assms]] by (simp add: entry_def bt_mem_iff)
    with queue_okD(3) [OF relay_invD(2) [OF assms]] d(3,4) show False by (auto simp: list_ex_iff)
  qed
  then show ?thesis by (metis list.set_intros(1) neq_Nil_conv)
qed

lemma refines_adopt [refines_intros]: "refines env {} (adopt_unqueued_queue_commands env)"
  unfolding adopt_unqueued_queue_commands_def
proof (rule refinesI, rule wp_bind_get)
  fix s0 and r :: durable_relay assume live: "live env {} s0 (snapshot r)"
  then show "wp (rbind (rdisk (rfold (stamp_adopted env) (unqueued (snapshot r)) [])) (\<lambda>adopted.
       if adopted = [] then rret ()
       else
         rseq (rmodify (\<lambda>r. r\<lparr>snapshot := (snapshot r)\<lparr>queued_prompts := merge_adopted adopted (snapshot r)\<rparr>\<rparr>))
              (persist_snapshot env))) (\<lambda>_ r'. live env {} s0 (snapshot r')) (\<lambda>r'. live env {} s0 (snapshot r')) r"
    by (simp add: unqueued_none [OF live_inv(3) [OF live]] wp_simps)
qed

lemma refines_recover_relay [refines_intros]: "refines env {} (recover_relay env n)"
  unfolding recover_relay_def by (intro refines_intros)

end
