(* ===== verification/User_Shell.thy ===== *)
theory User_Shell
  imports Relay_Types
begin

text \<open>
  The user shells of a worker (\<open>src/src/hel_user_shell.rs\<close>): the buffer that keeps the first and the
  last bytes of a command's output, the status a finished command is reported with, and the
  registry that limits how many commands run at once. Spawning a process is outside the model; a
  script says which spawns fail and which cancellation channels are still open.
\<close>

definition MAX_CONCURRENT_USER_SHELLS :: usize where "MAX_CONCURRENT_USER_SHELLS = 4"
definition OUTPUT_HEAD_BYTES :: usize where "OUTPUT_HEAD_BYTES = 16 * 1024"
definition OUTPUT_TAIL_BYTES :: usize where "OUTPUT_TAIL_BYTES = 16 * 1024"
definition LIVE_OUTPUT_BYTES :: usize where "LIVE_OUTPUT_BYTES = 16 * 1024"

section \<open>Lossy UTF-8\<close>

text \<open>
  \<open>String::from_utf8_lossy\<close>: \<open>utf8_char\<close> says whether the bytes begin with a character and how many
  bytes to take, where an ill-formed sequence is cut at its longest proper prefix; each such prefix
  becomes one replacement character.
\<close>

definition is_cont :: "nat \<Rightarrow> bool" where
  "is_cont b \<longleftrightarrow> 0x80 \<le> b \<and> b \<le> 0xBF"

definition second_of_three :: "nat \<Rightarrow> nat \<Rightarrow> bool" where
  "second_of_three b c \<longleftrightarrow>
     (b = 0xE0 \<and> 0xA0 \<le> c \<and> c \<le> 0xBF) \<or> (0xE1 \<le> b \<and> b \<le> 0xEC \<and> is_cont c)
     \<or> (b = 0xED \<and> 0x80 \<le> c \<and> c \<le> 0x9F) \<or> (0xEE \<le> b \<and> b \<le> 0xEF \<and> is_cont c)"

definition second_of_four :: "nat \<Rightarrow> nat \<Rightarrow> bool" where
  "second_of_four b c \<longleftrightarrow>
     (b = 0xF0 \<and> 0x90 \<le> c \<and> c \<le> 0xBF) \<or> (0xF1 \<le> b \<and> b \<le> 0xF3 \<and> is_cont c)
     \<or> (b = 0xF4 \<and> 0x80 \<le> c \<and> c \<le> 0x8F)"

text \<open>A byte past the end reads as 0, which no test accepts.\<close>

definition byte_at :: "string \<Rightarrow> nat \<Rightarrow> nat" where
  "byte_at bs i = (if i < length bs then of_char (bs ! i) else 0)"

definition utf8_char :: "string \<Rightarrow> bool \<times> nat" where
  "utf8_char bs =
     (let b = byte_at bs 0; c = byte_at bs 1; third = is_cont (byte_at bs 2); fourth = is_cont (byte_at bs 3) in
      if b < 0x80 then (True, 1)
      else if 0xC2 \<le> b \<and> b \<le> 0xDF then (if is_cont c then (True, 2) else (False, 1))
      else if 0xE0 \<le> b \<and> b \<le> 0xEF then
        (if \<not> second_of_three b c then (False, 1) else if \<not> third then (False, 2) else (True, 3))
      else if 0xF0 \<le> b \<and> b \<le> 0xF4 then
        (if \<not> second_of_four b c then (False, 1) else if \<not> third then (False, 2)
         else if \<not> fourth then (False, 3) else (True, 4))
      else (False, 1))"

definition REPLACEMENT_CHARACTER :: string where
  "REPLACEMENT_CHARACTER = [CHR 0xEF, CHR 0xBF, CHR 0xBD]"

lemma utf8_char_pos: "0 < snd (utf8_char bs)"
  by (simp add: utf8_char_def Let_def)

lemma utf8_char_drop: "(ok, n) = utf8_char bs \<Longrightarrow> bs \<noteq> [] \<Longrightarrow> 0 < n"
  using utf8_char_pos [of bs] by (metis snd_conv)

function from_utf8_lossy :: "string \<Rightarrow> string" where
  "from_utf8_lossy bs =
     (if bs = [] then []
      else let (ok, n) = utf8_char bs
           in (if ok then take n bs else REPLACEMENT_CHARACTER) @ from_utf8_lossy (drop n bs))"
  by auto
termination
  by (relation "measure length") (auto simp: utf8_char_drop)

declare from_utf8_lossy.simps [simp del]

function valid_utf8 :: "string \<Rightarrow> bool" where
  "valid_utf8 bs = (if bs = [] then True else let (ok, n) = utf8_char bs in if ok then valid_utf8 (drop n bs) else False)"
  by auto
termination
  by (relation "measure length") (auto simp: utf8_char_drop)

declare valid_utf8.simps [simp del]

lemma from_utf8_lossy_valid: "valid_utf8 bs \<Longrightarrow> from_utf8_lossy bs = bs"
  by (induction bs rule: valid_utf8.induct)
    (subst from_utf8_lossy.simps, subst (asm) (2) valid_utf8.simps, auto split: prod.splits if_splits)

section \<open>Output with its middle dropped\<close>

record head_tail_buffer =
  ht_head :: string
  ht_tail :: string
  ht_total :: usize

definition empty_buffer :: head_tail_buffer where
  "empty_buffer = \<lparr>ht_head = [], ht_tail = [], ht_total = 0\<rparr>"

definition push_tail :: "char \<Rightarrow> string \<Rightarrow> string" where
  "push_tail byte bytes =
     (let bytes' = bytes @ [byte] in if length bytes' > OUTPUT_TAIL_BYTES then tl bytes' else bytes')"

definition append_output :: "string \<Rightarrow> head_tail_buffer \<Rightarrow> head_tail_buffer" where
  "append_output bytes b =
     (let head_bytes = min (OUTPUT_HEAD_BYTES - length (ht_head b)) (length bytes) in
      b\<lparr>ht_total := saturating_add_u64 (ht_total b) (length bytes),
        ht_head := ht_head b @ take head_bytes bytes,
        ht_tail := fold push_tail (drop head_bytes bytes) (ht_tail b)\<rparr>)"

definition live_text :: "head_tail_buffer \<Rightarrow> string \<times> bool" where
  "live_text b =
     (from_utf8_lossy (take (min (length (ht_head b)) LIVE_OUTPUT_BYTES) (ht_head b)), ht_total b > LIVE_OUTPUT_BYTES)"

definition dropped_notice :: "usize \<Rightarrow> string" where
  "dropped_notice dropped = [CHR 0x0A] @ ''[mj dropped '' @ show_nat dropped @ '' middle bytes]'' @ [CHR 0x0A]"

definition final_bytes :: "head_tail_buffer \<Rightarrow> string" where
  "final_bytes b =
     ht_head b
     @ (if ht_total b > OUTPUT_HEAD_BYTES + OUTPUT_TAIL_BYTES
        then dropped_notice (ht_total b - (OUTPUT_HEAD_BYTES + OUTPUT_TAIL_BYTES)) else [])
     @ ht_tail b"

definition final_text :: "head_tail_buffer \<Rightarrow> string \<times> bool" where
  "final_text b = (from_utf8_lossy (final_bytes b), ht_total b > OUTPUT_HEAD_BYTES + OUTPUT_TAIL_BYTES)"

subsection \<open>What the buffer holds\<close>

definition last_bytes :: "nat \<Rightarrow> 'a list \<Rightarrow> 'a list" where
  "last_bytes n xs = drop (length xs - n) xs"

lemma last_bytes_append: "last_bytes n (last_bytes n xs @ ys) = last_bytes n (xs @ ys)"
proof (cases "length xs \<le> n")
  case False
  then show ?thesis
    by (simp add: last_bytes_def add.commute)
qed (simp add: last_bytes_def)

lemma fold_push_tail:
  "fold push_tail ys (last_bytes OUTPUT_TAIL_BYTES xs) = last_bytes OUTPUT_TAIL_BYTES (xs @ ys)"
proof (induction ys arbitrary: xs)
  case (Cons y ys)
  have "push_tail y (last_bytes OUTPUT_TAIL_BYTES xs) = last_bytes OUTPUT_TAIL_BYTES (xs @ [y])"
  proof (cases "length xs < OUTPUT_TAIL_BYTES")
    case False
    moreover have "0 < OUTPUT_TAIL_BYTES" by (simp add: OUTPUT_TAIL_BYTES_def)
    ultimately show ?thesis
      by (simp add: push_tail_def last_bytes_def Let_def tl_append2 tl_drop drop_Suc Suc_diff_le)
  qed (simp add: push_tail_def last_bytes_def Let_def)
  with Cons [of "xs @ [y]"] show ?case by simp
qed simp

text \<open>The buffer of a whole output; it does not depend on how the output arrived.\<close>

definition buffer_of :: "string \<Rightarrow> head_tail_buffer" where
  "buffer_of bs =
     \<lparr>ht_head = take OUTPUT_HEAD_BYTES bs, ht_tail = last_bytes OUTPUT_TAIL_BYTES (drop OUTPUT_HEAD_BYTES bs),
      ht_total = min (length bs) u64_max\<rparr>"

lemma append_output_buffer: "append_output ys (buffer_of xs) = buffer_of (xs @ ys)"
proof -
  let ?h = "min (OUTPUT_HEAD_BYTES - length (take OUTPUT_HEAD_BYTES xs)) (length ys)"
  have head: "take OUTPUT_HEAD_BYTES xs @ take ?h ys = take OUTPUT_HEAD_BYTES (xs @ ys)"
    by (simp add: min_def)
  have "drop OUTPUT_HEAD_BYTES xs @ drop ?h ys = drop OUTPUT_HEAD_BYTES (xs @ ys)"
    by (simp add: min_def)
  with head show ?thesis
    by (simp add: append_output_def buffer_of_def Let_def fold_push_tail saturating_add_u64_def min_def)
qed

lemma fold_append_output: "fold append_output chunks (buffer_of xs) = buffer_of (xs @ concat chunks)"
  by (induction chunks arbitrary: xs) (simp_all add: append_output_buffer)

lemma empty_buffer_of: "empty_buffer = buffer_of []"
  by (simp add: empty_buffer_def buffer_of_def last_bytes_def)

lemma final_bytes_buffer:
  "final_bytes (buffer_of bs) =
     (if length bs \<le> OUTPUT_HEAD_BYTES + OUTPUT_TAIL_BYTES then bs
      else take OUTPUT_HEAD_BYTES bs
           @ dropped_notice (min (length bs) u64_max - (OUTPUT_HEAD_BYTES + OUTPUT_TAIL_BYTES))
           @ last_bytes OUTPUT_TAIL_BYTES bs)"
proof (cases "length bs \<le> OUTPUT_HEAD_BYTES + OUTPUT_TAIL_BYTES")
  case True
  then have "last_bytes OUTPUT_TAIL_BYTES (drop OUTPUT_HEAD_BYTES bs) = drop OUTPUT_HEAD_BYTES bs"
    by (simp add: last_bytes_def)
  with True show ?thesis by (auto simp: final_bytes_def buffer_of_def)
next
  case False
  then have "last_bytes OUTPUT_TAIL_BYTES (drop OUTPUT_HEAD_BYTES bs) = last_bytes OUTPUT_TAIL_BYTES bs"
    by (simp add: last_bytes_def)
  moreover have "min (length bs) u64_max > OUTPUT_HEAD_BYTES + OUTPUT_TAIL_BYTES"
    using False by (simp add: OUTPUT_HEAD_BYTES_def OUTPUT_TAIL_BYTES_def u64_max_def)
  ultimately show ?thesis using False by (simp add: final_bytes_def buffer_of_def)
qed

section \<open>How a command ended\<close>

datatype pipe_read = PipeDrained | PipeError string | ReaderFailed string

datatype child_wait = Waited "int option" "nat option" | WaitError string

definition pipe_errors :: "string \<Rightarrow> pipe_read \<Rightarrow> string list" where
  "pipe_errors name read =
     (case read of
        PipeDrained \<Rightarrow> []
      | PipeError e \<Rightarrow> [''read '' @ name @ '': '' @ e]
      | ReaderFailed e \<Rightarrow> [name @ '' reader task failed: '' @ e])"

definition status_parts :: "child_wait \<Rightarrow> int option \<times> string option \<times> string option" where
  "status_parts waited =
     (case waited of
        Waited code sig \<Rightarrow> (code, map_option (\<lambda>n. ''SIG'' @ show_nat n) sig, None)
      | WaitError e \<Rightarrow> (None, None, Some (''wait for user shell: '' @ e)))"

definition shell_status :: "string list \<Rightarrow> bool \<Rightarrow> bool \<Rightarrow> string option \<Rightarrow> user_shell_status" where
  "shell_status read_errors timed_out was_cancelled sig =
     (if read_errors \<noteq> [] then ShFailed
      else if timed_out then ShTimedOut
      else if was_cancelled then ShCancelled
      else if sig \<noteq> None then ShSignaled
      else ShExited)"

fun join_errors :: "string list \<Rightarrow> string" where
  "join_errors [] = []"
| "join_errors [x] = x"
| "join_errors (x # y # xs) = x @ ''; '' @ join_errors (y # xs)"

definition user_shell_finished ::
  "string \<Rightarrow> head_tail_buffer \<Rightarrow> pipe_read \<Rightarrow> head_tail_buffer \<Rightarrow> pipe_read \<Rightarrow> child_wait \<Rightarrow> bool \<Rightarrow> bool \<Rightarrow> nat
     \<Rightarrow> user_shell_result" where
  "user_shell_finished command out out_read err err_read waited timed_out was_cancelled elapsed_ms =
     (let (exit_code, sig, wait_error) = status_parts waited;
          read_errors = pipe_errors ''stdout'' out_read @ pipe_errors ''stderr'' err_read
                        @ (case wait_error of Some e \<Rightarrow> [e] | None \<Rightarrow> [])
      in \<lparr>us_command = command, us_stdout = fst (final_text out), us_stderr = fst (final_text err),
          us_stdout_truncated = snd (final_text out), us_stderr_truncated = snd (final_text err),
          us_exit_code = exit_code, us_signal = sig, us_duration_ms = min elapsed_ms u64_max,
          us_status = shell_status read_errors timed_out was_cancelled sig,
          us_error = (if read_errors \<noteq> [] then Some (join_errors read_errors) else None)\<rparr>)"

section \<open>The registry\<close>

text \<open>
  A cancellation entry is \<open>True\<close> while its channel has not been used. \<open>spawns\<close> and \<open>receivers\<close> script
  what the next spawns (\<open>Some\<close> an error) and cancellation sends meet; \<open>started\<close> records the shells
  that were spawned.
\<close>

record user_shell_registry =
  cancellations :: "(string, bool) btree"
  started :: "(string \<times> string) list"
  spawns :: "string option list"
  receivers :: "bool list"

datatype user_shell_cancel_outcome = Requested | AlreadyRequested | NotRunning

definition available_slots :: "user_shell_registry \<Rightarrow> usize" where
  "available_slots u = MAX_CONCURRENT_USER_SHELLS - length (cancellations u)"

definition start_shell :: "string \<Rightarrow> string \<Rightarrow> user_shell_registry \<Rightarrow> string option \<times> user_shell_registry" where
  "start_shell request_id command u =
     (let next_spawn = (case spawns u of [] \<Rightarrow> None | e # _ \<Rightarrow> e); u' = u\<lparr>spawns := tl (spawns u)\<rparr> in
      case next_spawn of
        Some e \<Rightarrow> (Some e, u')
      | None \<Rightarrow> (None, u'\<lparr>cancellations := bt_insert request_id True (cancellations u'),
                          started := started u' @ [(request_id, command)]\<rparr>))"

definition cancel_shell :: "string \<Rightarrow> user_shell_registry \<Rightarrow> user_shell_cancel_outcome \<times> user_shell_registry" where
  "cancel_shell request_id u =
     (case bt_get (cancellations u) request_id of
        None \<Rightarrow> (NotRunning, u)
      | Some False \<Rightarrow> (AlreadyRequested, u)
      | Some True \<Rightarrow>
          (let u' = u\<lparr>cancellations := bt_insert request_id False (cancellations u), receivers := tl (receivers u)\<rparr> in
           if (case receivers u of [] \<Rightarrow> True | b # _ \<Rightarrow> b) then (Requested, u') else (AlreadyRequested, u')))"

definition shell_completed :: "string \<Rightarrow> user_shell_registry \<Rightarrow> user_shell_registry" where
  "shell_completed request_id u = u\<lparr>cancellations := bt_remove request_id (cancellations u)\<rparr>"

section \<open>Properties\<close>

text \<open>
  C28: However the output of a command arrives in pieces, the text reported at its end is the whole
  output when it is at most 32768 bytes, and otherwise its first and last 16384 bytes around a
  notice with the exact number of bytes left out; the live text is its first 16384 bytes. The
  truncation flags say exactly when something is missing.
\<close>

theorem output_window:
  "final_text (fold append_output chunks empty_buffer) =
     (let bs = concat chunks in
      if length bs \<le> 32768 then (from_utf8_lossy bs, False)
      else (from_utf8_lossy (take 16384 bs @ dropped_notice (min (length bs) u64_max - 32768)
              @ drop (length bs - 16384) bs), True))
   \<and> live_text (fold append_output chunks empty_buffer) =
     (from_utf8_lossy (take 16384 (concat chunks)), 16384 < length (concat chunks))"
  unfolding empty_buffer_of fold_append_output final_text_def live_text_def final_bytes_buffer
  by (auto simp: OUTPUT_HEAD_BYTES_def OUTPUT_TAIL_BYTES_def LIVE_OUTPUT_BYTES_def last_bytes_def
        buffer_of_def Let_def u64_max_def min_def)

end
