(* ===== verification/Worker_Coordinator.thy ===== *)
theory Worker_Coordinator
  imports Relay_Recovery User_Shell
begin

text \<open>
  The coordinator of a worker (\<open>src/src/hel_worker_runtime/unix.rs\<close>): it folds the events of the
  agent's runtime into the relay, hands claimed commands to the runtime, and runs user shells. Its
  state is the relay together with what the coordinator holds in memory: the commands in the
  agent's hands, the registry of user shells, and the channel of runtime events. The runtime itself
  (\<open>hel_acp\<close>) is not modelled; its events are inputs and the commands sent to it are outputs.
\<close>

section \<open>Events and commands of the runtime\<close>

datatype runtime_event =
    EvConnected "string option" "string option" "nat option" "json option" "json option"
  | EvSessionStarted string bool "string option"
  | EvSessionConfigured "json list"
  | EvSessionModesConfigured "session_mode_state option"
  | EvSessionUpdate json
  | EvElicitationRequested json
  | EvElicitationResolved string string
  | EvPromptFinished string string
  | EvWarning string
  | EvTerminalStarted string string i64
  | EvTerminalClosed string string bool "nat option" "string option"
  | EvUserShellOutput string string string string bool bool
  | EvUserShellFinished string user_shell_result
  | EvConfigApplied string string string "json list"
  | EvSessionModeApplied string string "json list" "session_mode_state option"
  | EvCommandRejected string string
  | EvCommandInterrupted string string
  | EvCancelApplied string
  | EvSteerApplied string string
  | EvCloseApplied string
  | EvHarnessRestarting string
  | EvStopped

datatype command_request =
    RqPrompt string "content_block list"
  | RqSetConfig string string string
  | RqSetSessionMode string string
  | RqCompact string
  | RqResolveElicitation string json
  | RqCancel string "claimed_steering_prompt option"
  | RqClose string

text \<open>What the coordinator takes from the ACP schema crate.\<close>

record runtime_env =
  decode_session_update :: "json \<Rightarrow> string + session_update"
  text_block :: "string \<Rightarrow> content_block"
  terminal_content :: "string \<Rightarrow> json"
  execute_tool_call :: "string \<Rightarrow> string \<Rightarrow> json \<Rightarrow> json"

definition FALLBACK_TERMINAL_META_KEY :: string where
  "FALLBACK_TERMINAL_META_KEY = ''hel.dev/fallback-terminal''"

definition FALLBACK_TERMINAL_TOOL_ID_PREFIX :: string where
  "FALLBACK_TERMINAL_TOOL_ID_PREFIX = ''hel-terminal:''"

definition fallback_terminal_tool_call_id :: "string \<Rightarrow> string" where
  "fallback_terminal_tool_call_id terminal_id = FALLBACK_TERMINAL_TOOL_ID_PREFIX @ terminal_id"

definition fallback_terminal_tool_call :: "runtime_env \<Rightarrow> string \<Rightarrow> string \<Rightarrow> session_update" where
  "fallback_terminal_tool_call renv terminal_id command =
     SUToolCall [TCOther (terminal_content renv terminal_id)]
       (execute_tool_call renv (fallback_terminal_tool_call_id terminal_id) command
          (JObject [(FALLBACK_TERMINAL_META_KEY, JBool True)]))"

section \<open>The coordinator's state\<close>

record coordinator =
  co_relay :: durable_relay
  in_flight :: "(string, relay_command) btree"
  session_configured :: bool
  user_shells :: user_shell_registry
  co_events :: "runtime_event list"
  co_events_open :: bool
  co_sent :: "command_request list"

type_synonym 'a co_meth = "(coordinator, relay_err, 'a) meth"

definition on_relay :: "'a relay_meth \<Rightarrow> 'a co_meth" where
  "on_relay m co = (case m (co_relay co) of (res, r) \<Rightarrow> (res, co\<lparr>co_relay := r\<rparr>))"

definition forget_in_flight :: "string \<Rightarrow> unit co_meth" where
  "forget_in_flight cid = rmodify (\<lambda>co. co\<lparr>in_flight := bt_remove cid (in_flight co)\<rparr>)"

text \<open>\<open>std::mem::take\<close> empties the map before the first command is reported.\<close>

definition interrupt_in_flight :: "relay_env \<Rightarrow> string \<Rightarrow> unit co_meth" where
  "interrupt_in_flight env message =
     rbind (rget in_flight) (\<lambda>commands.
     rseq (rmodify (\<lambda>co. co\<lparr>in_flight := []\<rparr>))
          (rforeach (\<lambda>p. rbind (on_relay (record_command_interrupted env (fst p) message)) (\<lambda>_. rret ())) commands))"

definition observe :: "relay_env \<Rightarrow> relay_observation \<Rightarrow> unit co_meth" where
  "observe env obs = rbind (on_relay (record_observation env obs)) (\<lambda>_. rret ())"

definition completes :: "relay_env \<Rightarrow> string \<Rightarrow> relay_command_outcome \<Rightarrow> unit co_meth" where
  "completes env cid outcome = rbind (on_relay (record_command_completed env cid outcome)) (\<lambda>_. rret ())"

section \<open>Recording runtime events\<close>

definition TERMINAL_JOURNAL_OUTPUT_BYTES :: usize where
  "TERMINAL_JOURNAL_OUTPUT_BYTES = 256 * 1024"

definition record_terminal_closed ::
  "relay_env \<Rightarrow> string \<Rightarrow> string \<Rightarrow> bool \<Rightarrow> nat option \<Rightarrow> string option \<Rightarrow> unit co_meth" where
  "record_terminal_closed env terminal_id output was_truncated exit_code sig =
     (let (output', cut) = truncate_start_with_marker TERMINAL_JOURNAL_OUTPUT_BYTES output in
      rseq (on_relay (rmodify (agent_terminal_closed terminal_id)))
           (observe env (TerminalOutput terminal_id output' (was_truncated \<or> cut) exit_code sig)))"

definition record_session_update_event :: "relay_env \<Rightarrow> diff_env \<Rightarrow> runtime_env \<Rightarrow> json \<Rightarrow> unit co_meth" where
  "record_session_update_event env denv renv update =
     (case decode_session_update renv update of
        Inr typed \<Rightarrow> rbind (on_relay (record_session_update env denv typed)) (\<lambda>_. rret ())
      | Inl e \<Rightarrow>
          rseq (observe env (Warning (''decode ACP session update for relay journal: '' @ e)))
               (rfail (Bail ''decode ACP session update for relay journal: {error}'' [AStr e])))"

definition record_stopped :: "relay_env \<Rightarrow> unit co_meth" where
  "record_stopped env =
     rseq (on_relay (rmodify clear_agent_terminals))
     (rseq (observe env ElicitationsCleared)
     (rbind (rget (\<lambda>co. os_execution (operational_state (co_relay co)))) (\<lambda>ex.
      rseq (rwhen (ex \<noteq> ExClosed) (observe env (Warning ''ACP runtime stopped'')))
           (interrupt_in_flight env ''ACP runtime stopped before the command completed''))))"

definition fold_runtime_event :: "relay_env \<Rightarrow> diff_env \<Rightarrow> runtime_env \<Rightarrow> runtime_event \<Rightarrow> unit co_meth" where
  "fold_runtime_event env denv renv event =
     (case event of
        EvConnected _ _ protocol_version caps info \<Rightarrow>
          (case (protocol_version, caps) of
             (Some v, Some c) \<Rightarrow> observe env (AgentInitialized v c info)
           | _ \<Rightarrow> observe env (Warning ''ACP initialized without capability metadata''))
      | EvSessionStarted native_id resumed _ \<Rightarrow> observe env (SessionOpened native_id resumed)
      | EvSessionConfigured options \<Rightarrow> observe env (SessionConfigured options)
      | EvSessionModesConfigured mode_state \<Rightarrow> observe env (SessionModesConfigured mode_state)
      | EvSessionUpdate update \<Rightarrow> record_session_update_event env denv renv update
      | EvElicitationRequested request \<Rightarrow> observe env (ElicitationRequested request)
      | EvElicitationResolved elicitation_id action \<Rightarrow> observe env (ElicitationResolved elicitation_id action)
      | EvPromptFinished request_id stop_reason \<Rightarrow>
          rseq (forget_in_flight request_id) (completes env request_id (OPrompt stop_reason))
      | EvConfigApplied request_id key val options \<Rightarrow>
          rseq (observe env (ConfigurationUpdated key val))
          (rseq (observe env (SessionConfigured options))
          (rseq (completes env request_id OConfigured) (forget_in_flight request_id)))
      | EvSessionModeApplied request_id mode_id options mode_state \<Rightarrow>
          rseq (observe env (ConfigurationUpdated ''mode'' mode_id))
          (rseq (observe env (SessionConfigured options))
          (rseq (observe env (SessionModesConfigured mode_state))
          (rseq (completes env request_id OSessionModeSet) (forget_in_flight request_id))))
      | EvCommandRejected request_id message \<Rightarrow>
          rseq (forget_in_flight request_id)
               (rbind (on_relay (record_command_rejected env request_id message)) (\<lambda>_. rret ()))
      | EvCommandInterrupted request_id message \<Rightarrow>
          rseq (forget_in_flight request_id)
               (rbind (on_relay (record_command_interrupted env request_id message)) (\<lambda>_. rret ()))
      | EvCancelApplied request_id \<Rightarrow>
          rseq (forget_in_flight request_id) (completes env request_id OCancelled)
      | EvSteerApplied request_id queued_command_id \<Rightarrow>
          rseq (forget_in_flight request_id) (completes env request_id (OSteered queued_command_id))
      | EvCloseApplied request_id \<Rightarrow>
          rseq (forget_in_flight request_id) (rseq (completes env request_id OClosed) (observe env Closed))
      | EvWarning message \<Rightarrow> observe env (Warning message)
      | EvHarnessRestarting message \<Rightarrow>
          rseq (on_relay (rmodify clear_agent_terminals))
          (rseq (observe env (Warning message))
          (rseq (interrupt_in_flight env message) (observe env SessionRestarted)))
      | EvTerminalClosed terminal_id output was_truncated exit_code sig \<Rightarrow>
          record_terminal_closed env terminal_id output was_truncated exit_code sig
      | EvTerminalStarted terminal_id command started_at_ms \<Rightarrow>
          rseq (on_relay (rmodify (agent_terminal_started
                  \<lparr>at_terminal_id = terminal_id, at_command = command, at_started_at_ms = started_at_ms\<rparr>)))
          (rbind (on_relay (record_session_update env denv (fallback_terminal_tool_call renv terminal_id command)))
             (\<lambda>_. rret ()))
      | EvUserShellOutput request_id command out err out_truncated err_truncated \<Rightarrow>
          observe env (UserShellOutput request_id command out err out_truncated err_truncated)
      | EvUserShellFinished request_id result \<Rightarrow> completes env request_id (OUserShell result)
      | EvStopped \<Rightarrow> record_stopped env)"

definition record_runtime_event :: "relay_env \<Rightarrow> diff_env \<Rightarrow> runtime_env \<Rightarrow> runtime_event \<Rightarrow> bool co_meth" where
  "record_runtime_event env denv renv event =
     rseq (fold_runtime_event env denv renv event) (rret (event = EvStopped))"

fun is_session_configured :: "runtime_event \<Rightarrow> bool" where
  "is_session_configured (EvSessionConfigured _) = True"
| "is_session_configured _ = False"

definition record_runtime_event_and_track_configuration ::
  "relay_env \<Rightarrow> diff_env \<Rightarrow> runtime_env \<Rightarrow> runtime_event \<Rightarrow> bool co_meth" where
  "record_runtime_event_and_track_configuration env denv renv event =
     rseq (rmodify (\<lambda>co. co\<lparr>session_configured := session_configured co \<or> is_session_configured event\<rparr>))
          (record_runtime_event env denv renv event)"

definition track_user_shell_completion :: "runtime_event \<Rightarrow> unit co_meth" where
  "track_user_shell_completion event =
     (case event of
        EvUserShellFinished request_id _ \<Rightarrow>
          rmodify (\<lambda>co. co\<lparr>user_shells := shell_completed request_id (user_shells co)\<rparr>)
      | _ \<Rightarrow> rret ())"

section \<open>Batches of events\<close>

text \<open>
  The events already in the channel are recorded before anything is dispatched. \<open>events.try_recv\<close>
  finds the channel empty and open, or empty and closed, or takes its first event.
\<close>

fun record_queued_runtime_events :: "relay_env \<Rightarrow> diff_env \<Rightarrow> runtime_env \<Rightarrow> usize \<Rightarrow> bool co_meth" where
  "record_queued_runtime_events env denv renv 0 = rret False"
| "record_queued_runtime_events env denv renv (Suc maximum) =
     rbind (rget co_events) (\<lambda>events.
       case events of
         event # rest \<Rightarrow>
           rseq (rmodify (\<lambda>co. co\<lparr>co_events := rest\<rparr>))
           (rseq (track_user_shell_completion event)
           (rbind (record_runtime_event_and_track_configuration env denv renv event) (\<lambda>stopped.
              if stopped then rret True else record_queued_runtime_events env denv renv maximum)))
       | [] \<Rightarrow>
           rbind (rget co_events_open) (\<lambda>is_open.
             if is_open then rret False
             else rseq (interrupt_in_flight env ''ACP runtime stopped before the command completed'') (rret True)))"

definition record_runtime_event_batch :: "relay_env \<Rightarrow> diff_env \<Rightarrow> runtime_env \<Rightarrow> runtime_event \<Rightarrow> bool co_meth" where
  "record_runtime_event_batch env denv renv first =
     rseq (track_user_shell_completion first)
     (rbind (record_runtime_event_and_track_configuration env denv renv first) (\<lambda>stopped.
        if stopped then rret True
        else rbind (rget (\<lambda>co. length (co_events co))) (\<lambda>queued.
               record_queued_runtime_events env denv renv queued)))"

section \<open>Dispatch\<close>

definition acp_command :: "runtime_env \<Rightarrow> claimed_relay_command \<Rightarrow> command_request option" where
  "acp_command renv claimed =
     (let request_id = cl_command_id claimed in
      case cl_command claimed of
        Prompt prompt \<Rightarrow>
          Some (RqPrompt request_id
            (case cl_hidden_prompt_context claimed of Some c \<Rightarrow> text_block renv c # prompt | None \<Rightarrow> prompt))
      | SetConfig key val \<Rightarrow> Some (RqSetConfig request_id key val)
      | SetSessionMode mode_id \<Rightarrow> Some (RqSetSessionMode request_id mode_id)
      | Cancel \<Rightarrow> Some (RqCancel request_id (cl_steering_prompt claimed))
      | Close _ _ \<Rightarrow> Some (RqClose request_id)
      | _ \<Rightarrow> None)"

definition failed_shell_result :: "string \<Rightarrow> string \<Rightarrow> user_shell_result" where
  "failed_shell_result command e =
     \<lparr>us_command = command, us_stdout = [], us_stderr = [], us_stdout_truncated = False, us_stderr_truncated = False,
      us_exit_code = None, us_signal = None, us_duration_ms = 0, us_status = ShFailed, us_error = Some e\<rparr>"

definition run_claimed_shell :: "relay_env \<Rightarrow> string \<Rightarrow> string \<Rightarrow> unit co_meth" where
  "run_claimed_shell env cid command =
     rbind (rget (\<lambda>co. start_shell cid command (user_shells co))) (\<lambda>(failed, shells).
     rseq (rmodify (\<lambda>co. co\<lparr>user_shells := shells\<rparr>))
          (case failed of
             None \<Rightarrow> rret ()
           | Some e \<Rightarrow> completes env cid (OUserShell (failed_shell_result command e))))"

definition cancel_claimed_shell :: "relay_env \<Rightarrow> string \<Rightarrow> string \<Rightarrow> unit co_meth" where
  "cancel_claimed_shell env cid shell =
     rbind (rget (\<lambda>co. cancel_shell shell (user_shells co))) (\<lambda>(cancellation, shells).
     rseq (rmodify (\<lambda>co. co\<lparr>user_shells := shells\<rparr>))
     (rbind (rget (\<lambda>co. os_active_user_shells (operational_state (co_relay co)))) (\<lambda>active.
      rseq (rwhen (cancellation = NotRunning \<and> list_ex (\<lambda>s. sh_command_id s = shell) active)
              (rbind (on_relay (record_command_interrupted env shell ''shell command was cancelled before it started''))
                 (\<lambda>_. rret ())))
           (completes env cid OUserShellCancelled))))"

definition dispatch_user_shells :: "relay_env \<Rightarrow> unit co_meth" where
  "dispatch_user_shells env =
     rbind (rget (\<lambda>co. available_slots (user_shells co))) (\<lambda>slots.
     rbind (on_relay (claim_pending_user_shell_commands_up_to env slots)) (\<lambda>claimed.
       rforeach (\<lambda>c. case cl_command c of
           RunUserShell command \<Rightarrow> run_claimed_shell env (cl_command_id c) command
         | CancelUserShell shell \<Rightarrow> cancel_claimed_shell env (cl_command_id c) shell
         | _ \<Rightarrow> rfail (Bail ''only user shell commands are claimed here'' [])) claimed))"

text \<open>The permits are counted down; running out of them would be a panic.\<close>

definition dispatch_claimed :: "relay_env \<Rightarrow> runtime_env \<Rightarrow> claimed_relay_command \<Rightarrow> usize \<Rightarrow> usize co_meth" where
  "dispatch_claimed env renv claimed permits =
     (if is_begin_checkpoint (cl_command claimed)
      then rbind (on_relay (record_checkpoint_ready env (cl_command_id claimed))) (\<lambda>_. rret permits)
      else case acp_command renv claimed of
        None \<Rightarrow>
          rbind (on_relay (record_command_rejected env (cl_command_id claimed)
                   ''relay-local command was unexpectedly claimed for ACP dispatch'')) (\<lambda>_. rret permits)
      | Some command \<Rightarrow>
          if permits = 0 then rfail (Bail ''every claimed command holds a reserved ACP command permit'' [])
          else
            rseq (rmodify (\<lambda>co. co\<lparr>co_sent := co_sent co @ [command]\<rparr>))
            (rseq (rmodify (\<lambda>co. co\<lparr>in_flight := bt_insert (cl_command_id claimed) (cl_command claimed) (in_flight co)\<rparr>))
                  (rret (permits - 1))))"

text \<open>\<open>permits\<close> is how many slots of the command channel could be reserved just before.\<close>

definition dispatch_pending :: "relay_env \<Rightarrow> runtime_env \<Rightarrow> usize \<Rightarrow> unit co_meth" where
  "dispatch_pending env renv permits =
     rseq (dispatch_user_shells env)
     (rbind (rget session_configured) (\<lambda>configured.
      rbind (on_relay (claim_pending_commands_up_to env configured permits)) (\<lambda>pending.
      rbind (rfold (dispatch_claimed env renv) (sort_key cl_accepted_ordinal pending) (min permits (length pending))) (\<lambda>_.
      rret ()))))"

section \<open>The loop\<close>

text \<open>
  One turn of the loop is entered because a wake arrived, because the wake channel closed, or for
  the event channel. The result says whether the coordinator returns.
\<close>

datatype coordinator_input = Woken | WakesClosed | EventReady

definition coordinator_turn ::
  "relay_env \<Rightarrow> diff_env \<Rightarrow> runtime_env \<Rightarrow> coordinator_input \<Rightarrow> usize \<Rightarrow> bool co_meth" where
  "coordinator_turn env denv renv input permits =
     (case input of
        WakesClosed \<Rightarrow> rret False
      | Woken \<Rightarrow>
          rbind (rget (\<lambda>co. length (co_events co))) (\<lambda>queued.
          rbind (record_queued_runtime_events env denv renv queued) (\<lambda>stopped.
            if stopped then rret True else rseq (dispatch_pending env renv permits) (rret False)))
      | EventReady \<Rightarrow>
          rbind (rget co_events) (\<lambda>events.
            case events of
              [] \<Rightarrow>
                rseq (interrupt_in_flight env ''ACP runtime stopped before the command completed'') (rret True)
            | event # rest \<Rightarrow>
                rseq (rmodify (\<lambda>co. co\<lparr>co_events := rest\<rparr>))
                (rbind (record_runtime_event_batch env denv renv event) (\<lambda>stopped.
                   if stopped then rret True else rseq (dispatch_pending env renv permits) (rret False)))))"

end
