(* ===== verification/Worker_Safety.thy ===== *)
theory Worker_Safety
  imports Worker_Coordinator
begin

text \<open>
  The coordinator and the connections of a worker, interleaved, refine the session machine: every
  snapshot they reach is reached by steps of the machine, the commands the coordinator believes to
  be in the agent's hands are exactly in flight in the durable state, and no command is handed to
  the agent twice. The runtime is assumed to report the end of a command only while it holds it.
\<close>

section \<open>Snapshots a worker can be in\<close>

definition good :: "relay_env \<Rightarrow> relay_snapshot \<Rightarrow> bool" where
  "good env s \<longleftrightarrow> env_ok env \<and> codec_ok env \<and> relay_inv s \<and> ids_ok s"

lemma live_start: "good env s \<Longrightarrow> live env K s s"
  by (simp add: good_def live_def held_def)

lemma live_good:
  assumes "live env K s0 s"
  shows "good env s \<and> relay_steps env s0 s \<and> held K s0 s"
  using live_inv [OF assms] assms unfolding good_def live_def by blast

definition reached :: "relay_env \<Rightarrow> relay_snapshot \<Rightarrow> coordinator \<Rightarrow> bool" where
  "reached env s0 co \<longleftrightarrow> good env (snapshot (co_relay co)) \<and> relay_steps env s0 (snapshot (co_relay co))"

text \<open>The commands that go through the agent's command channel.\<close>

fun acp_kind :: "relay_command \<Rightarrow> bool" where
  "acp_kind (Prompt _) = True"
| "acp_kind (SetConfig _ _) = True"
| "acp_kind (SetSessionMode _) = True"
| "acp_kind Cancel = True"
| "acp_kind (Close _ _) = True"
| "acp_kind _ = False"

definition in_agent_hands :: "relay_snapshot \<Rightarrow> (string, relay_command) btree \<Rightarrow> bool" where
  "in_agent_hands s fl \<longleftrightarrow>
     bt_wf fl
     \<and> (\<forall>c cmd. bt_get fl c = Some cmd \<longrightarrow>
          acp_kind cmd \<and> bt_get (dispatches s) c = Some \<lparr>d_command = cmd, d_state = DInFlight\<rparr>)"

definition shells_running :: "relay_snapshot \<Rightarrow> (string, bool) btree \<Rightarrow> bool" where
  "shells_running s cs \<longleftrightarrow>
     bt_wf cs
     \<and> (\<forall>c. bt_get cs c \<noteq> None \<longrightarrow>
          (\<exists>k. bt_get (dispatches s) c = Some \<lparr>d_command = RunUserShell k, d_state = DInFlight\<rparr>))"

definition co_ok :: "relay_env \<Rightarrow> relay_snapshot \<Rightarrow> coordinator \<Rightarrow> bool" where
  "co_ok env s0 co \<longleftrightarrow>
     reached env s0 co \<and> in_agent_hands (snapshot (co_relay co)) (in_flight co)
     \<and> shells_running (snapshot (co_relay co)) (cancellations (user_shells co))"

lemma co_okD: "co_ok env s0 co \<Longrightarrow> reached env s0 co"
  by (simp add: co_ok_def)

lemma acp_kind_agent: "acp_kind cmd \<Longrightarrow> agent_command cmd"
  by (cases cmd) (simp_all add: agent_command_def)

text \<open>What the coordinator holds, as identifiers.\<close>

definition holding :: "coordinator \<Rightarrow> string set" where
  "holding co = {c. bt_get (in_flight co) c \<noteq> None} \<union> {c. bt_get (cancellations (user_shells co)) c \<noteq> None}"

lemma holding_held:
  assumes "co_ok env s0 co" "held K (snapshot (co_relay co)) s'" "holding co \<subseteq> K"
  shows "in_agent_hands s' (in_flight co)" "shells_running s' (cancellations (user_shells co))"
proof -
  have keep: "bt_get (dispatches s') c = Some d"
    if "c \<in> holding co" "bt_get (dispatches (snapshot (co_relay co))) c = Some d" "agent_command (d_command d)" "d_state d = DInFlight" for c d
    using that assms(2,3) by (auto simp: held_def)
  show "in_agent_hands s' (in_flight co)"
    unfolding in_agent_hands_def
  proof (intro conjI allI impI)
    fix c cmd assume c: "bt_get (in_flight co) c = Some cmd"
    with assms(1) have "acp_kind cmd" "bt_get (dispatches (snapshot (co_relay co))) c = Some \<lparr>d_command = cmd, d_state = DInFlight\<rparr>"
      by (auto simp: co_ok_def in_agent_hands_def)
    with c keep [of c] show "acp_kind cmd" "bt_get (dispatches s') c = Some \<lparr>d_command = cmd, d_state = DInFlight\<rparr>"
      by (auto simp: holding_def acp_kind_agent)
  qed (use assms(1) in \<open>simp add: co_ok_def in_agent_hands_def\<close>)
  show "shells_running s' (cancellations (user_shells co))"
    unfolding shells_running_def
  proof (intro conjI allI impI)
    fix c assume c: "bt_get (cancellations (user_shells co)) c \<noteq> None"
    with assms(1) obtain k where "bt_get (dispatches (snapshot (co_relay co))) c = Some \<lparr>d_command = RunUserShell k, d_state = DInFlight\<rparr>"
      by (auto simp: co_ok_def shells_running_def)
    with c keep [of c] show "\<exists>k. bt_get (dispatches s') c = Some \<lparr>d_command = RunUserShell k, d_state = DInFlight\<rparr>"
      by (auto simp: holding_def agent_command_def)
  qed (use assms(1) in \<open>simp add: co_ok_def shells_running_def\<close>)
qed

section \<open>Calls of the relay\<close>

lemma wp_on_relay [wp_simps]:
  "wp (on_relay m) Q E co = wp m (\<lambda>x r. Q x (co\<lparr>co_relay := r\<rparr>)) (\<lambda>r. E (co\<lparr>co_relay := r\<rparr>)) (co_relay co)"
  by (simp add: wp_def on_relay_def split: prod.splits outcome.splits)

lemma reached_step:
  assumes "reached env s0 co" "live env K (snapshot (co_relay co)) (snapshot r)"
  shows "reached env s0 (co\<lparr>co_relay := r\<rparr>)"
  using assms(1) live_good [OF assms(2)] relay_steps_trans [of env s0 "snapshot (co_relay co)" "snapshot r"]
  by (simp add: reached_def)

text \<open>A method of the relay that leaves the agent what the coordinator holds.\<close>

lemma wp_relay_post:
  assumes "co_ok env s0 co" "holding co \<subseteq> K"
    and m: "live env K (snapshot (co_relay co)) (snapshot (co_relay co)) \<Longrightarrow>
      wp m (\<lambda>x r. live env K (snapshot (co_relay co)) (snapshot r) \<and> P x r)
        (\<lambda>r. live env K (snapshot (co_relay co)) (snapshot r)) (co_relay co)"
    and Q: "\<And>x r. co_ok env s0 (co\<lparr>co_relay := r\<rparr>) \<Longrightarrow> held K (snapshot (co_relay co)) (snapshot r) \<Longrightarrow> P x r \<Longrightarrow>
      Q x (co\<lparr>co_relay := r\<rparr>)"
  shows "wp (on_relay m) Q (reached env s0) co"
proof -
  have re: "reached env s0 co" using assms(1) by (rule co_okD)
  then have "live env K (snapshot (co_relay co)) (snapshot (co_relay co))" by (intro live_start) (simp add: reached_def)
  from m [OF this] show ?thesis
    unfolding wp_on_relay
  proof (rule wp_mono)
    fix x and r :: durable_relay assume r: "live env K (snapshot (co_relay co)) (snapshot r) \<and> P x r"
    note live = conjunct1 [OF r]
    note h = conjunct2 [OF conjunct2 [OF live_good [OF live]]]
    have "co_ok env s0 (co\<lparr>co_relay := r\<rparr>)"
      using reached_step [OF re live] holding_held [OF assms(1) h assms(2)] by (simp add: co_ok_def)
    from Q [OF this h conjunct2 [OF r]] show "Q x (co\<lparr>co_relay := r\<rparr>)" .
  qed (rule reached_step [OF re])
qed

lemmas wp_relay_live = wp_relay_post [where P = "\<lambda>_ _. True", simplified]

lemma wp_relay_call:
  assumes "refines env K m" "co_ok env s0 co" "holding co \<subseteq> K"
    and "\<And>x r. co_ok env s0 (co\<lparr>co_relay := r\<rparr>) \<Longrightarrow> held K (snapshot (co_relay co)) (snapshot r) \<Longrightarrow> Q x (co\<lparr>co_relay := r\<rparr>)"
  shows "wp (on_relay m) Q (reached env s0) co"
  by (rule wp_relay_live [OF assms(2,3)]) (use assms(1,4) in \<open>simp_all add: refines_def\<close>)

lemma wp_interrupt_call:
  assumes "co_ok env s0 co" "rid \<notin> holding co" "bt_get (dispatches (snapshot (co_relay co))) rid = Some d" "\<not> is_terminal (d_state d)"
    and "\<And>x r. co_ok env s0 (co\<lparr>co_relay := r\<rparr>) \<Longrightarrow> held (- {rid}) (snapshot (co_relay co)) (snapshot r) \<Longrightarrow>
      spares (- {rid}) (snapshot (co_relay co)) (snapshot r) \<Longrightarrow> Q x (co\<lparr>co_relay := r\<rparr>)"
  shows "wp (on_relay (record_command_interrupted env rid message)) Q (reached env s0) co"
proof (rule wp_relay_post [OF assms(1)])
  have "terminate_guard (snapshot (co_relay co)) rid" using assms(3,4) by (auto simp: terminate_guard_def)
  then show "wp (record_command_interrupted env rid message)
      (\<lambda>_ r. live env (- {rid}) (snapshot (co_relay co)) (snapshot r) \<and> spares (- {rid}) (snapshot (co_relay co)) (snapshot r))
      (\<lambda>r. live env (- {rid}) (snapshot (co_relay co)) (snapshot r)) (co_relay co)"
    if "live env (- {rid}) (snapshot (co_relay co)) (snapshot (co_relay co))"
    using that by (intro wp_record_interrupted) simp_all
qed (use assms(2,5) in auto)

lemma wp_reject_call:
  assumes "co_ok env s0 co" "rid \<notin> holding co" "bt_get (dispatches (snapshot (co_relay co))) rid = Some d" "\<not> is_terminal (d_state d)"
    and "\<And>x r. co_ok env s0 (co\<lparr>co_relay := r\<rparr>) \<Longrightarrow> held (- {rid}) (snapshot (co_relay co)) (snapshot r) \<Longrightarrow>
      spares (- {rid}) (snapshot (co_relay co)) (snapshot r) \<Longrightarrow> Q x (co\<lparr>co_relay := r\<rparr>)"
  shows "wp (on_relay (record_command_rejected env rid message)) Q (reached env s0) co"
proof (rule wp_relay_post [OF assms(1)])
  have "terminate_guard (snapshot (co_relay co)) rid" using assms(3,4) by (auto simp: terminate_guard_def)
  then show "wp (record_command_rejected env rid message)
      (\<lambda>_ r. live env (- {rid}) (snapshot (co_relay co)) (snapshot r) \<and> spares (- {rid}) (snapshot (co_relay co)) (snapshot r))
      (\<lambda>r. live env (- {rid}) (snapshot (co_relay co)) (snapshot r)) (co_relay co)"
    if "live env (- {rid}) (snapshot (co_relay co)) (snapshot (co_relay co))"
    using that by (intro wp_record_rejected) simp_all
qed (use assms(2,5) in auto)

lemma wp_complete_call:
  assumes "co_ok env s0 co" "rid \<notin> holding co"
    and "\<And>r. co_ok env s0 (co\<lparr>co_relay := r\<rparr>) \<Longrightarrow> held (- {rid}) (snapshot (co_relay co)) (snapshot r) \<Longrightarrow> Q () (co\<lparr>co_relay := r\<rparr>)"
  shows "wp (completes env rid outcome) Q (reached env s0) co"
  unfolding completes_def wp_rbind wp_rret_fun
  by (rule wp_relay_call [OF refines_record_completed, of rid "- {rid}"]) (use assms in auto)

section \<open>Steady operations\<close>

text \<open>Operations that keep the coordinator's invariant and change nothing but the relay.\<close>

definition steady :: "relay_env \<Rightarrow> 'a co_meth \<Rightarrow> bool" where
  "steady env m \<longleftrightarrow>
     (\<forall>s0 co. co_ok env s0 co \<longrightarrow>
        wp m (\<lambda>_ co'. co_ok env s0 co' \<and> (\<exists>r. co' = co\<lparr>co_relay := r\<rparr>
                \<and> held UNIV (snapshot (co_relay co)) (snapshot r))) (reached env s0) co)"

named_theorems steady_intros \<open>operations that change nothing but the relay\<close>

lemma steady_relay [steady_intros]: "refines env UNIV m \<Longrightarrow> steady env (on_relay m)"
  unfolding steady_def by (intro allI impI, rule wp_relay_call) auto

lemma steady_wp:
  assumes "steady env m" "co_ok env s0 co"
    "\<And>x r. co_ok env s0 (co\<lparr>co_relay := r\<rparr>) \<Longrightarrow> held UNIV (snapshot (co_relay co)) (snapshot r) \<Longrightarrow> Q x (co\<lparr>co_relay := r\<rparr>)"
  shows "wp m Q (reached env s0) co"
proof -
  from assms(1,2) have "wp m (\<lambda>_ co'. co_ok env s0 co' \<and> (\<exists>r. co' = co\<lparr>co_relay := r\<rparr>
      \<and> held UNIV (snapshot (co_relay co)) (snapshot r))) (reached env s0) co" by (simp add: steady_def)
  then show ?thesis by (rule wp_mono) (auto intro: assms(3))
qed

lemma held_refl: "held K s s"
  by (simp add: held_def)

lemma co_same: "\<exists>r. co = co\<lparr>co_relay := r\<rparr> \<and> held UNIV (snapshot (co_relay co)) (snapshot r)"
  by (rule exI [of _ "co_relay co"]) (simp add: held_refl)

lemma steady_rret [steady_intros]: "steady env (rret x)"
  unfolding steady_def by (simp add: wp_rret co_same)

lemma steady_rbind [steady_intros]:
  assumes "steady env m" "\<And>x. steady env (f x)"
  shows "steady env (rbind m f)"
  unfolding steady_def wp_rbind
proof (intro allI impI)
  fix s0 co assume "co_ok env s0 co"
  with assms(1) show "wp m (\<lambda>x. wp (f x) (\<lambda>_ co'. co_ok env s0 co' \<and> (\<exists>r. co' = co\<lparr>co_relay := r\<rparr>
      \<and> held UNIV (snapshot (co_relay co)) (snapshot r))) (reached env s0)) (reached env s0) co"
    by (rule steady_wp, intro steady_wp [OF assms(2)]) (auto intro: held_trans)
qed

lemma steady_rseq [steady_intros]: "steady env m \<Longrightarrow> steady env m' \<Longrightarrow> steady env (rseq m m')"
  by (simp add: rseq_def steady_rbind)

lemma steady_rwhen [steady_intros]: "steady env m \<Longrightarrow> steady env (rwhen b m)"
  by (simp add: rwhen_def steady_rret)

lemma steady_rget [steady_intros]: "steady env (rget f)"
  unfolding steady_def by (simp add: wp_simps co_same)

lemma steady_rfail [steady_intros]: "steady env (rfail e)"
  unfolding steady_def by (auto simp: wp_simps dest: co_okD)

lemma steady_observe [steady_intros]: "runtime_observation obs \<Longrightarrow> steady env (observe env obs)"
  unfolding observe_def record_observation_def by (intro steady_intros refines_append_runtime)

lemma steady_session_update [steady_intros]: "steady env (on_relay (record_session_update env denv update))"
  unfolding record_session_update_def record_observation_def by (intro steady_intros refines_append_runtime) simp

lemma steady_memory [steady_intros]: "(\<And>r. snapshot (g r) = snapshot r) \<Longrightarrow> steady env (on_relay (rmodify g))"
  by (intro steady_intros refines_keeps keeps_basic(6))

section \<open>What the runtime may report\<close>

definition flying :: "coordinator \<Rightarrow> string set" where
  "flying co = {c. bt_get (in_flight co) c \<noteq> None}"

definition running :: "coordinator \<Rightarrow> string set" where
  "running co = {c. bt_get (cancellations (user_shells co)) c \<noteq> None}"

lemma holding_eq: "holding co = flying co \<union> running co"
  by (simp add: holding_def flying_def running_def)

fun reported_end :: "runtime_event \<Rightarrow> string option" where
  "reported_end (EvPromptFinished rid _) = Some rid"
| "reported_end (EvConfigApplied rid _ _ _) = Some rid"
| "reported_end (EvSessionModeApplied rid _ _ _) = Some rid"
| "reported_end (EvCommandRejected rid _) = Some rid"
| "reported_end (EvCommandInterrupted rid _) = Some rid"
| "reported_end (EvCancelApplied rid) = Some rid"
| "reported_end (EvSteerApplied rid _) = Some rid"
| "reported_end (EvCloseApplied rid) = Some rid"
| "reported_end _ = None"

fun shell_ends :: "runtime_event \<Rightarrow> string set" where
  "shell_ends (EvUserShellFinished rid _) = {rid}"
| "shell_ends _ = {}"

text \<open>The commands no longer in the agent's hands after an event; a restart takes them all.\<close>

definition ends :: "runtime_event \<Rightarrow> string set" where
  "ends event =
     (case event of
        EvHarnessRestarting _ \<Rightarrow> UNIV | EvStopped \<Rightarrow> UNIV
      | _ \<Rightarrow> set_option (reported_end event))"

text \<open>
  A sequence of events is possible if each one that reports the end of a command, or of a shell,
  names one that is still held when its turn comes.
\<close>

fun events_ok :: "runtime_event list \<Rightarrow> string set \<Rightarrow> string set \<Rightarrow> bool" where
  "events_ok [] F R = True"
| "events_ok (event # events) F R =
     (set_option (reported_end event) \<subseteq> F \<and> shell_ends event \<subseteq> R \<and> events_ok events (F - ends event) (R - shell_ends event))"

lemma events_ok_mono: "events_ok events F R \<Longrightarrow> F \<subseteq> F' \<Longrightarrow> R \<subseteq> R' \<Longrightarrow> events_ok events F' R'"
proof (induction events arbitrary: F R F' R')
  case (Cons event events)
  from Cons.prems Cons.IH [of "F - ends event" "R - shell_ends event" "F' - ends event" "R' - shell_ends event"]
  show ?case by auto
qed simp

lemma flying_state:
  assumes "co_ok env s0 co" "c \<in> flying co"
  obtains cmd where "acp_kind cmd" "bt_get (dispatches (snapshot (co_relay co))) c = Some \<lparr>d_command = cmd, d_state = DInFlight\<rparr>"
  using assms by (auto simp: flying_def co_ok_def in_agent_hands_def)

lemma running_state:
  assumes "co_ok env s0 co" "c \<in> running co"
  obtains k where "bt_get (dispatches (snapshot (co_relay co))) c = Some \<lparr>d_command = RunUserShell k, d_state = DInFlight\<rparr>"
  using assms by (auto simp: running_def co_ok_def shells_running_def)

lemma flying_not_running: "co_ok env s0 co \<Longrightarrow> c \<in> flying co \<Longrightarrow> c \<notin> running co"
  by (metis acp_kind.simps(6) dispatch_record.select_convs(1) flying_state option.inject running_state)

section \<open>Forgetting a command\<close>

definition forgotten :: "string \<Rightarrow> coordinator \<Rightarrow> coordinator" where
  "forgotten rid co = co\<lparr>in_flight := bt_remove rid (in_flight co)\<rparr>"

lemma forgotten_sel [simp]:
  "flying (forgotten rid co) = flying co - {rid}" "running (forgotten rid co) = running co"
  "co_relay (forgotten rid co) = co_relay co" "user_shells (forgotten rid co) = user_shells co"
  "co_events (forgotten rid co) = co_events co" "co_events_open (forgotten rid co) = co_events_open co"
  "forgotten rid (co\<lparr>co_relay := r\<rparr>) = (forgotten rid co)\<lparr>co_relay := r\<rparr>"
  by (auto simp: forgotten_def flying_def running_def)

lemma co_ok_forgotten: "co_ok env s0 co \<Longrightarrow> co_ok env s0 (forgotten rid co)"
  by (auto simp: co_ok_def reached_def in_agent_hands_def forgotten_def)

lemma forgotten_holding: "co_ok env s0 co \<Longrightarrow> rid \<in> flying co \<Longrightarrow> rid \<notin> holding (forgotten rid co)"
  by (simp add: holding_eq flying_not_running)

lemma wp_forget: "wp (forget_in_flight rid) Q E co = Q () (forgotten rid co)"
  by (simp add: forget_in_flight_def forgotten_def wp_simps)

text \<open>The coordinator completes a command and forgets it, in either order.\<close>

lemma wp_end_complete:
  assumes "co_ok env s0 co" "rid \<in> flying co"
    and Q: "\<And>r. co_ok env s0 ((forgotten rid co)\<lparr>co_relay := r\<rparr>) \<Longrightarrow> Q () ((forgotten rid co)\<lparr>co_relay := r\<rparr>)"
  shows "wp (rseq (forget_in_flight rid) (completes env rid outcome)) Q (reached env s0) co"
    and "wp (rseq (completes env rid outcome) (forget_in_flight rid)) Q (reached env s0) co"
proof -
  note after = wp_complete_call [OF co_ok_forgotten [OF assms(1), of rid] forgotten_holding [OF assms(1,2)], of Q outcome]
  show "wp (rseq (forget_in_flight rid) (completes env rid outcome)) Q (reached env s0) co"
    unfolding wp_rseq wp_forget by (rule after) (rule Q)
  have "wp (completes env rid outcome) Q (reached env s0) (forgotten rid co)" by (rule after) (rule Q)
  then show "wp (rseq (completes env rid outcome) (forget_in_flight rid)) Q (reached env s0) co"
    unfolding wp_rseq wp_forget by (simp add: completes_def wp_simps wp_rret_fun reached_def)
qed

section \<open>Interrupting everything in the agent's hands\<close>

definition emptied :: "coordinator \<Rightarrow> coordinator" where
  "emptied co = co\<lparr>in_flight := []\<rparr>"

lemma emptied_sel [simp]:
  "flying (emptied co) = {}" "running (emptied co) = running co" "co_relay (emptied co) = co_relay co"
  "co_events (emptied co) = co_events co" "co_events_open (emptied co) = co_events_open co"
  "emptied (co\<lparr>co_relay := r\<rparr>) = (emptied co)\<lparr>co_relay := r\<rparr>"
  by (auto simp: emptied_def flying_def running_def bt_get_def)

lemma co_ok_emptied: "co_ok env s0 co \<Longrightarrow> co_ok env s0 (emptied co)"
  by (auto simp: co_ok_def reached_def in_agent_hands_def emptied_def bt_get_def bt_wf_def)

definition agent_busy :: "coordinator \<Rightarrow> string \<Rightarrow> bool" where
  "agent_busy co c \<longleftrightarrow>
     (\<exists>cmd. acp_kind cmd \<and> bt_get (dispatches (snapshot (co_relay co))) c = Some \<lparr>d_command = cmd, d_state = DInFlight\<rparr>)"

lemma agent_busy_held:
  assumes "agent_busy co c" "held K (snapshot (co_relay co)) (snapshot r)" "c \<in> K"
  shows "agent_busy (co\<lparr>co_relay := r\<rparr>) c"
  using assms by (auto simp: agent_busy_def held_def acp_kind_agent)

lemma agent_busy_not_running: "co_ok env s0 co \<Longrightarrow> agent_busy co c \<Longrightarrow> c \<notin> running co"
  by (metis acp_kind.simps(6) agent_busy_def dispatch_record.select_convs(1) option.inject running_state)

lemma wp_interrupt_all:
  assumes "co_ok env s0 co" "flying co = {}" "distinct cids" "\<forall>c \<in> set cids. agent_busy co c"
    and "\<And>r. co_ok env s0 (co\<lparr>co_relay := r\<rparr>) \<Longrightarrow> Q () (co\<lparr>co_relay := r\<rparr>)"
  shows "wp (rforeach (\<lambda>c. rbind (on_relay (record_command_interrupted env c message)) (\<lambda>_. rret ())) cids) Q (reached env s0) co"
  using assms
proof (induction cids arbitrary: co)
  case Nil
  from Nil.prems(5) [of "co_relay co"] Nil.prems(1) show ?case by (simp add: wp_rret)
next
  case (Cons c cids)
  from Cons.prems(4) obtain d where d: "bt_get (dispatches (snapshot (co_relay co))) c = Some d" "\<not> is_terminal (d_state d)"
    by (auto simp: agent_busy_def)
  have free: "c \<notin> holding co"
    using Cons.prems(2,4) agent_busy_not_running [OF Cons.prems(1)] by (simp add: holding_eq)
  show ?case
    unfolding rforeach.simps wp_rseq wp_rbind wp_rret_fun
  proof (rule wp_interrupt_call [OF Cons.prems(1) free d])
    fix r assume ok: "co_ok env s0 (co\<lparr>co_relay := r\<rparr>)" and h: "held (- {c}) (snapshot (co_relay co)) (snapshot r)"
    show "wp (rforeach (\<lambda>c. rbind (on_relay (record_command_interrupted env c message)) (\<lambda>_. rret ())) cids) Q (reached env s0)
        (co\<lparr>co_relay := r\<rparr>)"
    proof (rule Cons.IH [OF ok])
      show "flying (co\<lparr>co_relay := r\<rparr>) = {}" using Cons.prems(2) by (simp add: flying_def)
      show "distinct cids" using Cons.prems(3) by simp
      show "\<forall>x \<in> set cids. agent_busy (co\<lparr>co_relay := r\<rparr>) x"
        using Cons.prems(3,4) agent_busy_held [OF _ h] by auto
      show "Q () (co\<lparr>co_relay := r, co_relay := r'\<rparr>)" if "co_ok env s0 (co\<lparr>co_relay := r, co_relay := r'\<rparr>)" for r'
        using Cons.prems(5) [of r'] that by simp
    qed
  qed
qed

lemma rforeach_map: "rforeach (\<lambda>x. f (g x)) xs = rforeach f (map g xs)"
  by (induction xs) simp_all

lemma wp_interrupt_in_flight:
  assumes "co_ok env s0 co"
    and "\<And>r. co_ok env s0 ((emptied co)\<lparr>co_relay := r\<rparr>) \<Longrightarrow> Q () ((emptied co)\<lparr>co_relay := r\<rparr>)"
  shows "wp (interrupt_in_flight env message) Q (reached env s0) co"
proof -
  have fl: "bt_wf (in_flight co)" using assms(1) by (simp add: co_ok_def in_agent_hands_def)
  have busy: "agent_busy (emptied co) c" if "c \<in> set (map fst (in_flight co))" for c
  proof -
    from that fl have "c \<in> flying co" by (auto simp: flying_def bt_mem_iff)
    with flying_state [OF assms(1)] show ?thesis by (metis agent_busy_def emptied_sel(3))
  qed
  have "wp (rforeach (\<lambda>c. rbind (on_relay (record_command_interrupted env c message)) (\<lambda>_. rret ())) (map fst (in_flight co)))
      Q (reached env s0) (emptied co)"
    by (rule wp_interrupt_all [OF co_ok_emptied [OF assms(1)]])
      (use busy bt_wf_distinct [OF fl] assms(2) in \<open>simp_all del: set_map\<close>)
  then show ?thesis
    unfolding interrupt_in_flight_def
    using rforeach_map [of "\<lambda>c. rbind (on_relay (record_command_interrupted env c message)) (\<lambda>_. rret ())" fst "in_flight co"]
    by (simp add: wp_simps emptied_def)
qed

section \<open>Folding one event\<close>

lemma co_relay_sel [simp]:
  "flying (co\<lparr>co_relay := r\<rparr>) = flying co" "running (co\<lparr>co_relay := r\<rparr>) = running co"
  "holding (co\<lparr>co_relay := r\<rparr>) = holding co"
  by (simp_all add: flying_def running_def holding_def)

lemma closed_executes:
  assumes "appended env (CommandCompleted rid OClosed) s s'"
  shows "execution s' = ExClosed"
proof -
  from assms obtain ev s1 where ev: "ev_observation ev = CommandCompleted rid OClosed" "apply_observation ev s = Ok s1"
    "s' = advance_frontier ev s1" by (rule appended_observation) (auto simp: recorded_as_def)
  from ev(1,2) obtain d :: dispatch_record where "complete_outcome (ev_ordinal ev) rid (d_command d) OClosed
      (set_terminal_ordinal rid (ev_ordinal ev) (set_dispatch_state rid DCompleted s)) = Ok s1"
    by (auto simp: apply_observation_def apply_command_completed_def split: if_splits)
  then have "execution s1 = ExClosed" by (cases "d_command d") (auto simp: complete_outcome_def)
  then show ?thesis by (simp add: ev(3))
qed

lemma wp_close_complete:
  assumes "co_ok env s0 co" "rid \<in> flying co"
    and "\<And>r. co_ok env s0 ((forgotten rid co)\<lparr>co_relay := r\<rparr>) \<Longrightarrow> Q () ((forgotten rid co)\<lparr>co_relay := r\<rparr>)"
  shows "wp (rseq (forget_in_flight rid) (rseq (completes env rid OClosed) (observe env Closed))) Q (reached env s0) co"
proof -
  let ?K = "- {rid}"
  have step: "wp (rbind (record_command_completed env rid OClosed) (\<lambda>_. append_relay_event env None Closed))
      (\<lambda>_ r. live env ?K s (snapshot r)) (\<lambda>r. live env ?K s (snapshot r)) r"
    if live: "live env ?K s (snapshot r)" for s r
    unfolding wp_rbind
  proof (rule wp_record_completed [OF live])
    fix n s1 and r' :: durable_relay
    assume r': "live env ?K s (snapshot r')" and app: "appended env (CommandCompleted rid OClosed) (snapshot r) s1"
      and "execution s1 = ExClosed \<Longrightarrow> execution (snapshot r') = ExClosed"
    then have "execution (snapshot r') = ExClosed" using closed_executes by blast
    then show "wp (append_relay_event env None Closed) (\<lambda>_ r. live env ?K s (snapshot r)) (\<lambda>r. live env ?K s (snapshot r)) r'"
      by (intro wp_append [OF r']) simp_all
  qed simp
  have "wp (on_relay (rbind (record_command_completed env rid OClosed) (\<lambda>_. append_relay_event env None Closed)))
      (\<lambda>_. Q ()) (reached env s0) (forgotten rid co)"
    by (rule wp_relay_live [OF co_ok_forgotten [OF assms(1)] _ step]) (use forgotten_holding [OF assms(1,2)] assms(3) in auto)
  then show ?thesis
    unfolding wp_rseq wp_forget
    by (simp add: completes_def observe_def record_observation_def wp_simps wp_rret_fun)
qed

text \<open>What an event leaves of the coordinator's own state.\<close>

definition folded :: "runtime_event \<Rightarrow> coordinator \<Rightarrow> coordinator \<Rightarrow> bool" where
  "folded event co co' \<longleftrightarrow>
     flying co' = flying co - ends event \<and> running co' = running co
     \<and> co_events co' = co_events co \<and> co_events_open co' = co_events_open co \<and> co_sent co' = co_sent co"

lemma wp_steady_fold:
  assumes "steady env m" "co_ok env s0 co" "ends event = {}"
  shows "wp m (\<lambda>_ co'. co_ok env s0 co' \<and> folded event co co') (reached env s0) co"
  by (rule steady_wp [OF assms(1,2)]) (simp add: folded_def assms(3))

lemma forgotten_folded: "ends event = {rid} \<Longrightarrow> folded event co ((forgotten rid co)\<lparr>co_relay := r\<rparr>)"
  by (simp add: folded_def) (simp add: forgotten_def)

lemma wp_steady_then:
  assumes "steady env m" "co_ok env s0 co"
    and "\<And>r. co_ok env s0 (co\<lparr>co_relay := r\<rparr>) \<Longrightarrow> wp m' Q (reached env s0) (co\<lparr>co_relay := r\<rparr>)"
  shows "wp (rseq m m') Q (reached env s0) co"
  unfolding wp_rseq by (rule steady_wp [OF assms(1,2)]) (rule assms(3))

lemma steady_terminal_closed: "steady env (record_terminal_closed env terminal_id output tr code sig)"
  unfolding record_terminal_closed_def Let_def
  by (simp add: split_beta, intro steady_intros) (simp_all add: agent_terminal_closed_def Let_def)

lemma steady_update_event: "steady env (record_session_update_event env denv renv update)"
  unfolding record_session_update_event_def by (auto split: sum.split intro!: steady_intros)

lemma clear_agent_terminals_snapshot: "snapshot (clear_agent_terminals r) = snapshot r"
  by (simp add: clear_agent_terminals_def Let_def)

lemma agent_terminal_started_snapshot: "snapshot (agent_terminal_started terminal r) = snapshot r"
  by (simp add: agent_terminal_started_def)

lemma wp_restart:
  assumes "co_ok env s0 co" "ends event = UNIV" "steady env before" "steady env after"
  shows "wp (rseq before (rseq (interrupt_in_flight env message) after))
    (\<lambda>_ co'. co_ok env s0 co' \<and> folded event co co') (reached env s0) co"
proof (rule wp_steady_then [OF assms(3,1)])
  fix r assume ok: "co_ok env s0 (co\<lparr>co_relay := r\<rparr>)"
  show "wp (rseq (interrupt_in_flight env message) after) (\<lambda>_ co'. co_ok env s0 co' \<and> folded event co co') (reached env s0)
      (co\<lparr>co_relay := r\<rparr>)"
    unfolding wp_rseq
  proof (rule wp_interrupt_in_flight [OF ok])
    fix r' assume "co_ok env s0 ((emptied (co\<lparr>co_relay := r\<rparr>))\<lparr>co_relay := r'\<rparr>)"
    with assms(4) show "wp after (\<lambda>_ co'. co_ok env s0 co' \<and> folded event co co') (reached env s0)
        ((emptied (co\<lparr>co_relay := r\<rparr>))\<lparr>co_relay := r'\<rparr>)"
      by (rule steady_wp) (simp add: folded_def assms(2), simp add: emptied_def)
  qed
qed

lemma rseq_assoc: "rseq (rseq a b) c = rseq a (rseq b c)"
  by (rule ext) (simp add: rseq_def rbind_def split: prod.split outcome.split)

lemma rbind_assoc: "rbind (rbind m f) g = rbind m (\<lambda>x. rbind (f x) g)"
  by (rule ext) (simp add: rbind_def split: prod.split outcome.split)

lemma rseq_rret_unit: "rseq m (rret ()) = (m :: ('s, 'e, unit) meth)"
  by (rule ext) (simp add: rseq_def rbind_def rret_def split: prod.split outcome.split)

lemma wp_fold_event:
  assumes ok: "co_ok env s0 co" and held: "set_option (reported_end event) \<subseteq> flying co"
    and shell: "shell_ends event \<inter> holding co = {}"
  shows "wp (fold_runtime_event env denv renv event) (\<lambda>_ co'. co_ok env s0 co' \<and> folded event co co') (reached env s0) co"
proof -
  have open_rid: "\<exists>d. bt_get (dispatches (snapshot (co_relay (forgotten rid co)))) rid = Some d \<and> \<not> is_terminal (d_state d)"
    if "rid \<in> flying co" for rid
    using flying_state [OF ok that] by (metis dispatch_record.select_convs(2) forgotten_sel(3) is_terminal.simps(6))
  show ?thesis
  proof (cases event)
    case (EvConnected a b v c i)
    then show ?thesis unfolding fold_runtime_event_def
      by (intro wp_steady_fold ok) (auto split: option.split intro!: steady_intros simp: ends_def)
  next
    case (EvPromptFinished rid x)
    with held show ?thesis by (auto simp: fold_runtime_event_def ends_def intro!: wp_end_complete(1) ok forgotten_folded)
  next
    case (EvCancelApplied rid)
    with held show ?thesis by (auto simp: fold_runtime_event_def ends_def intro!: wp_end_complete(1) ok forgotten_folded)
  next
    case (EvSteerApplied rid x)
    with held show ?thesis by (auto simp: fold_runtime_event_def ends_def intro!: wp_end_complete(1) ok forgotten_folded)
  next
    case (EvCloseApplied rid)
    with held show ?thesis by (auto simp: fold_runtime_event_def ends_def intro!: wp_close_complete ok forgotten_folded)
  next
    case (EvConfigApplied rid key val opts)
    with held show ?thesis
      by (auto simp: fold_runtime_event_def ends_def intro!: wp_steady_then wp_end_complete(2) steady_observe ok forgotten_folded)
  next
    case (EvSessionModeApplied rid m opts st)
    with held show ?thesis
      by (auto simp: fold_runtime_event_def ends_def intro!: wp_steady_then wp_end_complete(2) steady_observe ok forgotten_folded)
  next
    case (EvCommandRejected rid m)
    with held have rid: "rid \<in> flying co" by simp
    from open_rid [OF rid] obtain d where d: "bt_get (dispatches (snapshot (co_relay (forgotten rid co)))) rid = Some d" "\<not> is_terminal (d_state d)" by blast
    show ?thesis
      unfolding fold_runtime_event_def EvCommandRejected runtime_event.case wp_rseq wp_forget wp_rbind wp_rret_fun
      by (rule wp_reject_call [OF co_ok_forgotten [OF ok] forgotten_holding [OF ok rid] d])
        (use EvCommandRejected in \<open>auto simp: ends_def intro!: forgotten_folded\<close>)
  next
    case (EvCommandInterrupted rid m)
    with held have rid: "rid \<in> flying co" by simp
    from open_rid [OF rid] obtain d where d: "bt_get (dispatches (snapshot (co_relay (forgotten rid co)))) rid = Some d" "\<not> is_terminal (d_state d)" by blast
    show ?thesis
      unfolding fold_runtime_event_def EvCommandInterrupted runtime_event.case wp_rseq wp_forget wp_rbind wp_rret_fun
      by (rule wp_interrupt_call [OF co_ok_forgotten [OF ok] forgotten_holding [OF ok rid] d])
        (use EvCommandInterrupted in \<open>auto simp: ends_def intro!: forgotten_folded\<close>)
  next
    case (EvUserShellFinished rid res)
    with shell show ?thesis
      by (auto simp: fold_runtime_event_def ends_def folded_def intro!: wp_complete_call ok)
  next
    case (EvHarnessRestarting m)
    show ?thesis
      unfolding fold_runtime_event_def EvHarnessRestarting runtime_event.case rseq_assoc [symmetric]
      unfolding rseq_assoc [of "rseq x y" for x y]
      by (rule wp_restart [OF ok]) (auto simp: ends_def clear_agent_terminals_snapshot intro!: steady_intros)
  next
    case EvStopped
    have "steady env (rseq (on_relay (rmodify clear_agent_terminals)) (rseq (observe env ElicitationsCleared)
        (rbind (rget (\<lambda>co. os_execution (operational_state (co_relay co)))) (\<lambda>ex.
           rwhen (ex \<noteq> ExClosed) (observe env (Warning ''ACP runtime stopped''))))))"
      by (intro steady_intros) (simp_all add: clear_agent_terminals_snapshot)
    note stop = wp_restart [OF ok _ this steady_rret [of env "()"], where event = event
      and message = "''ACP runtime stopped before the command completed''", unfolded rseq_rret_unit rseq_assoc]
    show ?thesis
      using stop by (simp add: EvStopped fold_runtime_event_def record_stopped_def ends_def rseq_def rbind_assoc)
  qed (unfold fold_runtime_event_def, simp_all, (rule wp_steady_fold [OF _ ok], (intro steady_intros steady_terminal_closed steady_update_event; simp add: agent_terminal_started_snapshot), simp add: ends_def)+)
qed

section \<open>Batches\<close>

definition channel_ok :: "coordinator \<Rightarrow> bool" where
  "channel_ok co \<longleftrightarrow> events_ok (co_events co) (flying co) (running co)"

lemma wp_track:
  assumes "co_ok env s0 co" "shell_ends event \<subseteq> running co"
    and "\<And>co'. co_ok env s0 co' \<Longrightarrow> flying co' = flying co \<Longrightarrow> running co' = running co - shell_ends event \<Longrightarrow>
      co_events co' = co_events co \<Longrightarrow> co_events_open co' = co_events_open co \<Longrightarrow> co_sent co' = co_sent co \<Longrightarrow> Q () co'"
  shows "wp (track_user_shell_completion event) Q E co"
proof (cases event)
  case (EvUserShellFinished rid res)
  let ?co = "co\<lparr>user_shells := shell_completed rid (user_shells co)\<rparr>"
  have "co_ok env s0 ?co" using assms(1) by (auto simp: co_ok_def reached_def shells_running_def shell_completed_def)
  moreover have "flying ?co = flying co" "running ?co = running co - {rid}"
    by (auto simp: flying_def running_def shell_completed_def)
  ultimately have "Q () ?co" by (intro assms(3)) (simp_all add: EvUserShellFinished)
  then show ?thesis by (simp add: track_user_shell_completion_def EvUserShellFinished wp_simps)
qed (use assms in \<open>simp_all add: track_user_shell_completion_def wp_simps\<close>)

text \<open>Tracking and recording one event that the runtime may report now.\<close>

lemma wp_record_one:
  assumes "co_ok env s0 co" "events_ok (event # co_events co) (flying co) (running co)"
    and Q: "\<And>stopped co'. co_ok env s0 co' \<Longrightarrow> channel_ok co' \<Longrightarrow> co_sent co' = co_sent co \<Longrightarrow>
      co_events co' = co_events co \<Longrightarrow> wp (f stopped) Q (reached env s0) co'"
  shows "wp (rseq (track_user_shell_completion event)
      (rbind (record_runtime_event_and_track_configuration env denv renv event) f)) Q (reached env s0) co"
  unfolding wp_rseq
proof (rule wp_track [OF assms(1)])
  show "shell_ends event \<subseteq> running co" using assms(2) by simp
  fix co1 assume co1: "co_ok env s0 co1" "flying co1 = flying co" "running co1 = running co - shell_ends event"
    "co_events co1 = co_events co" "co_sent co1 = co_sent co"
  let ?co2 = "co1\<lparr>session_configured := session_configured co1 \<or> is_session_configured event\<rparr>"
  have same: "co_ok env s0 ?co2" "flying ?co2 = flying co1" "running ?co2 = running co1" "holding ?co2 = holding co1"
    using co1(1) by (simp_all add: co_ok_def reached_def flying_def running_def holding_def)
  have "shell_ends event \<inter> flying co = {}"
    using assms(2) flying_not_running [OF assms(1)] by auto
  then have "shell_ends event \<inter> holding ?co2 = {}" unfolding holding_eq same(2,3) co1 by auto
  moreover have "set_option (reported_end event) \<subseteq> flying ?co2" using assms(2) unfolding same co1 by simp
  ultimately have "wp (fold_runtime_event env denv renv event)
      (\<lambda>_ co'. co_ok env s0 co' \<and> folded event ?co2 co') (reached env s0) ?co2" by (intro wp_fold_event [OF same(1)])
  then show "wp (rbind (record_runtime_event_and_track_configuration env denv renv event) f) Q (reached env s0) co1"
    unfolding record_runtime_event_and_track_configuration_def record_runtime_event_def wp_rbind wp_rseq wp_rmodify
  proof (rule wp_mono)
    fix co' assume co': "co_ok env s0 co' \<and> folded event ?co2 co'"
    then have "channel_ok co'"
      using assms(2) unfolding folded_def same co1 by (simp add: channel_ok_def co1)
    then show "wp (rret (event = EvStopped)) (\<lambda>x. wp (f x) Q (reached env s0)) (reached env s0) co'"
      using co' by (simp add: wp_rret folded_def co1 Q)
  qed
qed

lemma co_events_sel:
  "co_ok env s0 (co\<lparr>co_events := es\<rparr>) = co_ok env s0 co" "flying (co\<lparr>co_events := es\<rparr>) = flying co"
  "running (co\<lparr>co_events := es\<rparr>) = running co"
  by (simp_all add: co_ok_def reached_def flying_def running_def)

lemma channel_ok_emptied:
  "channel_ok co \<Longrightarrow> co_events co = [] \<Longrightarrow> channel_ok ((emptied co)\<lparr>co_relay := r\<rparr>)"
  by (simp add: channel_ok_def)

lemma wp_record_queued:
  assumes "co_ok env s0 co" "channel_ok co"
  shows "wp (record_queued_runtime_events env denv renv n)
    (\<lambda>_ co'. co_ok env s0 co' \<and> channel_ok co' \<and> co_sent co' = co_sent co) (reached env s0) co"
  using assms
proof (induction n arbitrary: co)
  case 0
  then show ?case by (simp add: wp_rret)
next
  case (Suc n)
  let ?Q = "\<lambda>_ co'. co_ok env s0 co' \<and> channel_ok co' \<and> co_sent co' = co_sent co"
  show ?case
  proof (cases "co_events co")
    case Nil
    have "wp (interrupt_in_flight env ''ACP runtime stopped before the command completed'') (\<lambda>_. ?Q True) (reached env s0) co"
      by (rule wp_interrupt_in_flight [OF Suc.prems(1)]) (use Suc.prems(2) Nil in \<open>simp add: channel_ok_emptied, simp add: emptied_def\<close>)
    with Suc.prems show ?thesis by (simp add: Nil wp_simps wp_rret_fun)
  next
    case (Cons event rest)
    have "wp (rseq (track_user_shell_completion event)
           (rbind (record_runtime_event_and_track_configuration env denv renv event) (\<lambda>stopped.
              if stopped then rret True else record_queued_runtime_events env denv renv n)))
         ?Q (reached env s0) (co\<lparr>co_events := rest\<rparr>)"
    proof (rule wp_record_one)
      show "events_ok (event # co_events (co\<lparr>co_events := rest\<rparr>)) (flying (co\<lparr>co_events := rest\<rparr>)) (running (co\<lparr>co_events := rest\<rparr>))"
        using Suc.prems(2) Cons unfolding co_events_sel by (simp add: channel_ok_def)
      fix stopped co' assume co': "co_ok env s0 co'" "channel_ok co'" "co_sent co' = co_sent (co\<lparr>co_events := rest\<rparr>)"
      with Suc.IH [OF co'(1,2)] show "wp (if stopped then rret True else record_queued_runtime_events env denv renv n) ?Q (reached env s0) co'"
        by (simp add: wp_rret)
    qed (simp add: co_events_sel Suc.prems(1))
    then show ?thesis by (simp add: Cons wp_simps)
  qed
qed

end
