(* ===== verification/Worker_Dispatch.thy ===== *)
theory Worker_Dispatch
  imports Worker_Safety
begin

text \<open>
  Dispatch: what a claim returns, and that handing the claimed commands to the agent and to the
  shells keeps the coordinator's invariant. The last section interleaves the coordinator with the
  connections of its controllers.
\<close>


section \<open>User shells\<close>

text \<open>A claimed command that has not been handed over yet.\<close>

definition handed :: "coordinator \<Rightarrow> claimed_relay_command \<Rightarrow> bool" where
  "handed co c \<longleftrightarrow>
     cl_command_id c \<notin> holding co
     \<and> bt_get (dispatches (snapshot (co_relay co))) (cl_command_id c) = Some \<lparr>d_command = cl_command c, d_state = DInFlight\<rparr>"

lemma handed_held:
  assumes "handed co c" "held K (snapshot (co_relay co)) (snapshot r)" "cl_command_id c \<in> K" "agent_command (cl_command c)"
  shows "handed (co\<lparr>co_relay := r\<rparr>) c"
  using assms by (auto simp: handed_def held_def)

text \<open>What handing over shells leaves alone.\<close>

definition grows :: "coordinator \<Rightarrow> coordinator \<Rightarrow> bool" where
  "grows co co' \<longleftrightarrow>
     flying co' = flying co \<and> running co \<subseteq> running co' \<and> co_events co' = co_events co
     \<and> co_events_open co' = co_events_open co \<and> co_sent co' = co_sent co \<and> session_configured co' = session_configured co"

lemma grows_refl: "grows co co"
  by (simp add: grows_def)

lemma grows_trans: "grows co co' \<Longrightarrow> grows co' co'' \<Longrightarrow> grows co co''"
  by (auto simp: grows_def)

lemma grows_relay [simp]: "grows co (co'\<lparr>co_relay := r\<rparr>) = grows co co'"
  by (simp add: grows_def)

lemma grows_channel: "grows co co' \<Longrightarrow> channel_ok co \<Longrightarrow> channel_ok co'"
  unfolding grows_def channel_ok_def by (metis events_ok_mono order_refl)

lemma shell_claim_agent: "shell_claim c \<Longrightarrow> agent_command (cl_command c)"
  by (cases "cl_command c") (auto simp: shell_claim_def agent_command_def)

lemma wp_run_claimed:
  assumes "co_ok env s0 co" "handed co c" "cl_command c = RunUserShell k"
    and Q: "\<And>co'. co_ok env s0 co' \<Longrightarrow> grows co co' \<Longrightarrow> holding co' \<subseteq> insert (cl_command_id c) (holding co) \<Longrightarrow>
      held (- {cl_command_id c}) (snapshot (co_relay co)) (snapshot (co_relay co')) \<Longrightarrow> Q () co'"
  shows "wp (run_claimed_shell env (cl_command_id c) k) Q (reached env s0) co"
proof -
  let ?cid = "cl_command_id c"
  obtain failed shells where st: "start_shell ?cid k (user_shells co) = (failed, shells)" by fastforce
  let ?co = "co\<lparr>user_shells := shells\<rparr>"
  show ?thesis
  proof (cases failed)
    case None
    with st have cs: "cancellations shells = bt_insert ?cid True (cancellations (user_shells co))"
      by (auto simp: start_shell_def Let_def split: option.splits list.splits)
    have "co_ok env s0 ?co"
      using assms(1-3) by (auto simp: co_ok_def reached_def shells_running_def cs handed_def)
    moreover have "grows co ?co" "holding ?co \<subseteq> insert ?cid (holding co)"
      by (auto simp: grows_def flying_def running_def holding_def cs split: if_splits)
    ultimately show ?thesis
      using Q [of ?co] by (simp add: run_claimed_shell_def wp_simps st None held_refl)
  next
    case (Some e)
    with st have cs: "cancellations shells = cancellations (user_shells co)"
      by (auto simp: start_shell_def Let_def split: option.splits list.splits)
    have ok: "co_ok env s0 ?co" using assms(1) by (simp add: co_ok_def reached_def cs)
    have hold: "holding ?co = holding co" "grows co ?co" by (simp_all add: holding_def grows_def flying_def running_def cs)
    have "wp (completes env ?cid (OUserShell (failed_shell_result k e))) Q (reached env s0) ?co"
    proof (rule wp_complete_call [OF ok])
      show "?cid \<notin> holding ?co" using assms(2) by (simp add: hold handed_def)
      fix r assume "co_ok env s0 (?co\<lparr>co_relay := r\<rparr>)" "held (- {?cid}) (snapshot (co_relay ?co)) (snapshot r)"
      with hold show "Q () (?co\<lparr>co_relay := r\<rparr>)" by (intro Q) auto
    qed
    then show ?thesis by (simp add: run_claimed_shell_def wp_simps st Some)
  qed
qed

lemma cancel_shell_keys:
  assumes "cancel_shell shell u = (res, u')"
  shows "bt_wf (cancellations u) \<Longrightarrow> bt_wf (cancellations u')"
    and "bt_get (cancellations u') c = None \<longleftrightarrow> bt_get (cancellations u) c = None"
    and "res = NotRunning \<Longrightarrow> bt_get (cancellations u) shell = None"
  using assms by (auto simp: cancel_shell_def Let_def split: option.splits bool.splits if_splits)

lemma active_shell_state:
  assumes "relay_inv s" "list_ex (\<lambda>x. sh_command_id x = shell) (bt_values (active_user_shells s))"
  shows "\<exists>d k. bt_get (dispatches s) shell = Some d \<and> d_command d = RunUserShell k \<and> \<not> is_terminal (d_state d)"
proof -
  note sh = shell_okD [OF relay_invD(6) [OF assms(1)]]
  from assms(2) obtain c x where x: "(c, x) \<in> set (active_user_shells s)" "sh_command_id x = shell"
    by (auto simp: list_ex_iff bt_values_def)
  then have get: "bt_get (active_user_shells s) c = Some x" using sh(1) by (simp add: bt_mem_iff)
  with sh(3) x(2) have "c = shell" by simp
  with get sh(2) [of shell] obtain k ph where "entry s shell = Some (RunUserShell k, ph)" "ph \<noteq> Done" by auto
  then show ?thesis by (auto simp: entry_Some phase_of_iff)
qed

lemma wp_cancel_claimed:
  assumes "co_ok env s0 co" "handed co c" "cl_command c = CancelUserShell shell"
    and Q: "\<And>co'. co_ok env s0 co' \<Longrightarrow> grows co co' \<Longrightarrow> holding co' = holding co \<Longrightarrow>
      (\<And>x k. x \<noteq> cl_command_id c \<Longrightarrow> x \<noteq> shell \<or> \<not> is_run_user_shell k \<Longrightarrow> agent_command k \<Longrightarrow>
         bt_get (dispatches (snapshot (co_relay co))) x = Some \<lparr>d_command = k, d_state = DInFlight\<rparr> \<Longrightarrow>
         bt_get (dispatches (snapshot (co_relay co'))) x = Some \<lparr>d_command = k, d_state = DInFlight\<rparr>) \<Longrightarrow> Q () co'"
  shows "wp (cancel_claimed_shell env (cl_command_id c) shell) Q (reached env s0) co"
proof -
  let ?cid = "cl_command_id c"
  obtain res shells where ca: "cancel_shell shell (user_shells co) = (res, shells)" by fastforce
  note keys = cancel_shell_keys [OF ca]
  let ?co = "co\<lparr>user_shells := shells\<rparr>" and ?s = "snapshot (co_relay co)"
  have ok: "co_ok env s0 ?co"
    using assms(1) keys(1,2) by (auto simp: co_ok_def reached_def shells_running_def)
  have hold: "holding ?co = holding co" "grows co ?co"
    using keys(2) by (auto simp: holding_def grows_def flying_def running_def)
  have finish: "wp (completes env ?cid OUserShellCancelled) Q (reached env s0) (?co\<lparr>co_relay := r\<rparr>)"
    if r: "co_ok env s0 (?co\<lparr>co_relay := r\<rparr>)" "held J ?s (snapshot r)" and J: "\<And>x. x \<notin> J \<Longrightarrow> x = shell"
      and run: "shell \<in> J \<or> (\<forall>d. bt_get (dispatches ?s) shell = Some d \<longrightarrow> is_run_user_shell (d_command d))" for r J
  proof (rule wp_complete_call [OF r(1)])
    show "?cid \<notin> holding (?co\<lparr>co_relay := r\<rparr>)" using assms(2) by (simp add: hold handed_def)
    fix r' assume r': "co_ok env s0 (?co\<lparr>co_relay := r, co_relay := r'\<rparr>)"
      and h: "held (- {?cid}) (snapshot (co_relay (?co\<lparr>co_relay := r\<rparr>))) (snapshot r')"
    show "Q () (?co\<lparr>co_relay := r, co_relay := r'\<rparr>)"
    proof (rule Q [OF r'])
      fix x k assume x: "x \<noteq> ?cid" "x \<noteq> shell \<or> \<not> is_run_user_shell k" "agent_command k"
        "bt_get (dispatches ?s) x = Some \<lparr>d_command = k, d_state = DInFlight\<rparr>"
      have "x \<in> J" by (rule ccontr) (use x(2,4) J [of x] run in force)
      with x(3,4) r(2) have "bt_get (dispatches (snapshot r)) x = Some \<lparr>d_command = k, d_state = DInFlight\<rparr>"
        by (auto simp: held_def)
      with h x(1,3) show "bt_get (dispatches (snapshot (co_relay (?co\<lparr>co_relay := r, co_relay := r'\<rparr>)))) x
          = Some \<lparr>d_command = k, d_state = DInFlight\<rparr>" by (auto simp: held_def)
    qed (simp_all add: hold)
  qed
  let ?active = "os_active_user_shells (operational_state (co_relay ?co))"
  have "wp (rseq (rwhen (res = NotRunning \<and> list_ex (\<lambda>x. sh_command_id x = shell) ?active)
              (rbind (on_relay (record_command_interrupted env shell ''shell command was cancelled before it started''))
                 (\<lambda>_. rret ()))) (completes env ?cid OUserShellCancelled)) Q (reached env s0) ?co"
  proof (cases "res = NotRunning \<and> list_ex (\<lambda>x. sh_command_id x = shell) ?active")
    case True
    have inv: "relay_inv ?s" using assms(1) by (simp add: co_ok_def reached_def good_def)
    have "list_ex (\<lambda>x. sh_command_id x = shell) (bt_values (active_user_shells ?s))"
      using True by (simp add: operational_state_def snapshot_operational_state_def)
    from active_shell_state [OF inv this] obtain d k where d: "bt_get (dispatches ?s) shell = Some d" "d_command d = RunUserShell k"
      "\<not> is_terminal (d_state d)" by blast
    have "shell \<notin> flying co" using flying_state [OF assms(1)] d(1,2) by (metis acp_kind.simps(6) dispatch_record.select_convs(1) option.inject)
    then have free: "shell \<notin> holding ?co" unfolding hold(1) using True keys(3) by (auto simp: holding_eq running_def)
    have "wp (on_relay (record_command_interrupted env shell ''shell command was cancelled before it started''))
       (\<lambda>_. wp (completes env ?cid OUserShellCancelled) Q (reached env s0)) (reached env s0) ?co"
      by (rule wp_interrupt_call [OF ok free]) (use d in \<open>auto intro!: finish [where J = "- {shell}"]\<close>)
    then show ?thesis using True by (simp add: wp_simps wp_rret_fun rwhen_def)
  next
    case False
    have "wp (completes env ?cid OUserShellCancelled) Q (reached env s0) (?co\<lparr>co_relay := co_relay co\<rparr>)"
      by (rule finish [where J = UNIV]) (use ok in \<open>simp_all add: held_refl\<close>)
    with False show ?thesis by (auto simp: wp_simps wp_rret_fun rwhen_def)
  qed
  then show ?thesis by (simp add: cancel_claimed_shell_def wp_simps ca)
qed

lemma wp_shell_claims:
  assumes "co_ok env s0 co" "distinct (map cl_command_id claims)" "\<forall>c \<in> set claims. handed co c" "\<forall>c \<in> set claims. shell_claim c"
    "no_target_runs claims"
    and Q: "\<And>co'. co_ok env s0 co' \<Longrightarrow> grows co co' \<Longrightarrow> Q () co'"
  shows "wp (rforeach (\<lambda>c. case cl_command c of
           RunUserShell command \<Rightarrow> run_claimed_shell env (cl_command_id c) command
         | CancelUserShell shell \<Rightarrow> cancel_claimed_shell env (cl_command_id c) shell
         | _ \<Rightarrow> rfail (Bail ''only user shell commands are claimed here'' [])) claims) Q (reached env s0) co"
  using assms
proof (induction claims arbitrary: co)
  case Nil
  then show ?case by (simp add: wp_rret grows_refl)
next
  case (Cons c claims)
  let ?f = "\<lambda>c. case cl_command c of RunUserShell command \<Rightarrow> run_claimed_shell env (cl_command_id c) command
         | CancelUserShell shell \<Rightarrow> cancel_claimed_shell env (cl_command_id c) shell
         | _ \<Rightarrow> rfail (Bail ''only user shell commands are claimed here'' [])"
  have rest: "wp (rforeach ?f claims) Q (reached env s0) co'"
    if "co_ok env s0 co'" "grows co co'" "\<forall>x \<in> set claims. handed co' x" for co'
  proof (rule Cons.IH [OF that(1)])
    show "no_target_runs claims" using Cons.prems(5) by (simp add: no_target_runs_def)
    show "Q () co''" if "co_ok env s0 co''" "grows co' co''" for co''
      using Cons.prems(6) that grows_trans [OF \<open>grows co co'\<close>] by blast
  qed (use Cons.prems(2,4) that(3) in simp_all)
  have c: "handed co c" using Cons.prems(3) by simp
  have other: "cl_command_id x \<noteq> cl_command_id c" "handed co x" "agent_command (cl_command x)" if "x \<in> set claims" for x
    using Cons.prems(2,3,4) that by (simp add: image_iff, metis, simp_all add: shell_claim_agent)
  have "wp (?f c) (\<lambda>_. wp (rforeach ?f claims) Q (reached env s0)) (reached env s0) co"
  proof (cases "cl_command c")
    case (RunUserShell k)
    have "wp (run_claimed_shell env (cl_command_id c) k) (\<lambda>_. wp (rforeach ?f claims) Q (reached env s0)) (reached env s0) co"
    proof (rule wp_run_claimed [OF Cons.prems(1) c RunUserShell], rule rest)
      fix co' assume co': "holding co' \<subseteq> insert (cl_command_id c) (holding co)"
        "held (- {cl_command_id c}) (snapshot (co_relay co)) (snapshot (co_relay co'))"
      show "\<forall>x \<in> set claims. handed co' x"
      proof
        fix x assume x: "x \<in> set claims"
        with other [OF x] co' show "handed co' x" by (auto simp: handed_def held_def)
      qed
    qed
    then show ?thesis by (simp add: RunUserShell)
  next
    case (CancelUserShell t)
    have "wp (cancel_claimed_shell env (cl_command_id c) t) (\<lambda>_. wp (rforeach ?f claims) Q (reached env s0)) (reached env s0) co"
    proof (rule wp_cancel_claimed [OF Cons.prems(1) c CancelUserShell], rule rest)
      fix co' assume hold: "holding co' = holding co" and keep: "\<And>x k. x \<noteq> cl_command_id c \<Longrightarrow> x \<noteq> t \<or> \<not> is_run_user_shell k \<Longrightarrow> agent_command k \<Longrightarrow>
         bt_get (dispatches (snapshot (co_relay co))) x = Some \<lparr>d_command = k, d_state = DInFlight\<rparr> \<Longrightarrow>
         bt_get (dispatches (snapshot (co_relay co'))) x = Some \<lparr>d_command = k, d_state = DInFlight\<rparr>"
      show "\<forall>x \<in> set claims. handed co' x"
      proof
        fix x assume x: "x \<in> set claims"
        have "cl_command_id x \<noteq> t \<or> \<not> is_run_user_shell (cl_command x)"
          using Cons.prems(5) x CancelUserShell by (auto simp: no_target_runs_def)
        with keep other [OF x] hold show "handed co' x" by (simp add: handed_def)
      qed
    qed
    then show ?thesis by (simp add: CancelUserShell)
  qed (use Cons.prems(4) in \<open>simp_all add: shell_claim_def\<close>)
  then show ?case by (simp add: wp_rseq)
qed

lemma claimed_handed:
  assumes "co_ok env s0 co" "live env UNIV (snapshot (co_relay co)) s1" "claimed_from s1 (snapshot r) claims" "c \<in> set claims"
  shows "handed (co\<lparr>co_relay := r\<rparr>) c"
proof -
  from assms(3,4) have c: "bt_get (dispatches s1) (cl_command_id c) = Some \<lparr>d_command = cl_command c, d_state = DPending\<rparr>"
    "bt_get (dispatches (snapshot r)) (cl_command_id c) = Some \<lparr>d_command = cl_command c, d_state = DInFlight\<rparr>"
    by (simp_all add: claimed_from_def)
  note h = conjunct2 [OF conjunct2 [OF live_good [OF assms(2)]]]
  have idle: "bt_get (dispatches (snapshot (co_relay co))) (cl_command_id c) \<noteq> Some \<lparr>d_command = cmd, d_state = DInFlight\<rparr>"
    if "agent_command cmd" for cmd
    using h [unfolded held_def] c(1) that by auto
  have "cl_command_id c \<notin> flying co"
  proof
    assume "cl_command_id c \<in> flying co"
    from flying_state [OF assms(1) this] idle acp_kind_agent show False by metis
  qed
  moreover have "cl_command_id c \<notin> running co"
  proof
    assume "cl_command_id c \<in> running co"
    from running_state [OF assms(1) this] idle show False by (auto simp: agent_command_def)
  qed
  ultimately show ?thesis using c(2) by (simp add: handed_def holding_eq)
qed

lemma wp_dispatch_user_shells:
  assumes "co_ok env s0 co" and Q: "\<And>co'. co_ok env s0 co' \<Longrightarrow> grows co co' \<Longrightarrow> Q () co'"
  shows "wp (dispatch_user_shells env) Q (reached env s0) co"
proof -
  let ?s = "snapshot (co_relay co)" and ?n = "available_slots (user_shells co)"
  let ?P = "\<lambda>claims r. \<exists>s1. live env UNIV ?s s1 \<and> claimed_from s1 (snapshot r) claims \<and> (\<forall>c \<in> set claims. shell_claim c) \<and> no_target_runs claims"
  have "wp (on_relay (claim_pending_user_shell_commands_up_to env ?n)) (\<lambda>claims. wp (rforeach (\<lambda>c. case cl_command c of
           RunUserShell command \<Rightarrow> run_claimed_shell env (cl_command_id c) command
         | CancelUserShell shell \<Rightarrow> cancel_claimed_shell env (cl_command_id c) shell
         | _ \<Rightarrow> rfail (Bail ''only user shell commands are claimed here'' [])) claims) Q (reached env s0)) (reached env s0) co"
  proof (rule wp_relay_post [OF assms(1), of UNIV _ ?P])
    show "wp (claim_pending_user_shell_commands_up_to env ?n) (\<lambda>x r. live env UNIV ?s (snapshot r) \<and> ?P x r)
        (\<lambda>r. live env UNIV ?s (snapshot r)) (co_relay co)" if "live env UNIV ?s ?s"
      by (rule wp_claim_shells [OF that]) blast
    fix claims r assume ok: "co_ok env s0 (co\<lparr>co_relay := r\<rparr>)" and "?P claims r"
    then obtain s1 where s1: "live env UNIV ?s s1" "claimed_from s1 (snapshot r) claims" "\<forall>c \<in> set claims. shell_claim c"
      "no_target_runs claims" by blast
    show "wp (rforeach (\<lambda>c. case cl_command c of
           RunUserShell command \<Rightarrow> run_claimed_shell env (cl_command_id c) command
         | CancelUserShell shell \<Rightarrow> cancel_claimed_shell env (cl_command_id c) shell
         | _ \<Rightarrow> rfail (Bail ''only user shell commands are claimed here'' [])) claims) Q (reached env s0) (co\<lparr>co_relay := r\<rparr>)"
    proof (rule wp_shell_claims [OF ok _ _ s1(3,4)])
      show "distinct (map cl_command_id claims)" using s1(2) by (simp add: claimed_from_def)
      show "\<forall>c \<in> set claims. handed (co\<lparr>co_relay := r\<rparr>) c" using claimed_handed [OF assms(1) s1(1,2)] by blast
      show "Q () co'" if "co_ok env s0 co'" "grows (co\<lparr>co_relay := r\<rparr>) co'" for co'
        using that by (intro Q) (simp_all add: grows_def)
    qed
  qed simp
  then show ?thesis by (simp add: dispatch_user_shells_def wp_simps)
qed

section \<open>Handing commands to the agent\<close>

fun request_id_of :: "command_request \<Rightarrow> string" where
  "request_id_of (RqPrompt rid _) = rid"
| "request_id_of (RqSetConfig rid _ _) = rid"
| "request_id_of (RqSetSessionMode rid _) = rid"
| "request_id_of (RqCompact _) = []"
| "request_id_of (RqResolveElicitation _ _) = []"
| "request_id_of (RqCancel rid _) = rid"
| "request_id_of (RqClose rid) = rid"

lemma acp_command_iff:
  "acp_command renv c \<noteq> None \<longleftrightarrow> acp_kind (cl_command c)"
  "acp_command renv c = Some request \<Longrightarrow> request_id_of request = cl_command_id c"
  by (cases "cl_command c"; auto simp: acp_command_def Let_def)+

text \<open>Requests are sent for distinct commands that the agent did not hold, and it holds them now.\<close>

definition sent_fresh :: "coordinator \<Rightarrow> coordinator \<Rightarrow> bool" where
  "sent_fresh co co' \<longleftrightarrow>
     (\<exists>requests. co_sent co' = co_sent co @ requests \<and> distinct (map request_id_of requests)
        \<and> request_id_of ` set requests \<inter> flying co = {} \<and> flying co' = flying co \<union> request_id_of ` set requests)
     \<and> running co' = running co \<and> co_events co' = co_events co \<and> co_events_open co' = co_events_open co"

lemma sent_fresh_refl: "sent_fresh co co"
  by (auto simp: sent_fresh_def)

lemma sent_fresh_relay [simp]: "sent_fresh co (co'\<lparr>co_relay := r\<rparr>) = sent_fresh co co'"
  "sent_fresh (co\<lparr>co_relay := r\<rparr>) co' = sent_fresh co co'"
  by (simp_all add: sent_fresh_def)

lemma sent_fresh_trans:
  assumes "sent_fresh co co1" "sent_fresh co1 co2"
  shows "sent_fresh co co2"
proof -
  from assms(1) obtain rs where rs: "co_sent co1 = co_sent co @ rs" "distinct (map request_id_of rs)"
    "request_id_of ` set rs \<inter> flying co = {}" "flying co1 = flying co \<union> request_id_of ` set rs" by (auto simp: sent_fresh_def)
  from assms(2) obtain rs' where rs': "co_sent co2 = co_sent co1 @ rs'" "distinct (map request_id_of rs')"
    "request_id_of ` set rs' \<inter> flying co1 = {}" "flying co2 = flying co1 \<union> request_id_of ` set rs'" by (auto simp: sent_fresh_def)
  have "co_sent co2 = co_sent co @ rs @ rs'" "distinct (map request_id_of (rs @ rs'))"
    "request_id_of ` set (rs @ rs') \<inter> flying co = {}" "flying co2 = flying co \<union> request_id_of ` set (rs @ rs')"
    using rs rs' by auto
  with assms show ?thesis unfolding sent_fresh_def by metis
qed

lemma sent_fresh_channel: "sent_fresh co co' \<Longrightarrow> channel_ok co \<Longrightarrow> channel_ok co'"
  unfolding sent_fresh_def channel_ok_def by (metis events_ok_mono order_refl sup_ge1)

text \<open>A claimed command whose turn has not come.\<close>

definition awaiting :: "coordinator \<Rightarrow> claimed_relay_command \<Rightarrow> bool" where
  "awaiting co c \<longleftrightarrow>
     cl_command_id c \<notin> holding co
     \<and> (if agent_command (cl_command c)
        then bt_get (dispatches (snapshot (co_relay co))) (cl_command_id c) = Some \<lparr>d_command = cl_command c, d_state = DInFlight\<rparr>
        else entry (snapshot (co_relay co)) (cl_command_id c) = Some (cl_command c, Started))"

lemma awaiting_handed: "handed co c \<Longrightarrow> awaiting co c"
  by (auto simp: handed_def awaiting_def entry_def)

lemma awaiting_open:
  "awaiting co c \<Longrightarrow> \<exists>d. bt_get (dispatches (snapshot (co_relay co))) (cl_command_id c) = Some d \<and> \<not> is_terminal (d_state d)"
  by (auto simp: awaiting_def entry_Some phase_of_iff not_terminal_iff split: if_splits)

lemma awaiting_kept:
  assumes "awaiting co c" "held (- {x}) (snapshot (co_relay co)) (snapshot r)" "spares (- {x}) (snapshot (co_relay co)) (snapshot r)"
    "cl_command_id c \<noteq> x"
  shows "awaiting (co\<lparr>co_relay := r\<rparr>) c"
proof (cases "agent_command (cl_command c)")
  case True
  with assms(1,2,4) show ?thesis by (auto simp: awaiting_def held_def)
next
  case False
  with assms(1) have "entry (snapshot (co_relay co)) (cl_command_id c) = Some (cl_command c, Started)" by (simp add: awaiting_def)
  with assms(3,4) have "entry (snapshot r) (cl_command_id c) = Some (cl_command c, Started)"
    by (auto intro: spares_started)
  with False assms(1) show ?thesis by (simp add: awaiting_def)
qed

lemma wp_dispatch_claimed:
  assumes "co_ok env s0 co" "awaiting co c"
    and Q: "\<And>n co'. co_ok env s0 co' \<Longrightarrow> sent_fresh co co' \<Longrightarrow>
      (\<And>x. awaiting co x \<Longrightarrow> cl_command_id x \<noteq> cl_command_id c \<Longrightarrow> awaiting co' x) \<Longrightarrow> Q n co'"
  shows "wp (dispatch_claimed env renv c permits) Q (reached env s0) co"
proof -
  let ?cid = "cl_command_id c" and ?s = "snapshot (co_relay co)"
  consider (barrier) "is_begin_checkpoint (cl_command c)" | (none) "\<not> is_begin_checkpoint (cl_command c)" "acp_command renv c = None"
    | (send) request where "\<not> is_begin_checkpoint (cl_command c)" "acp_command renv c = Some request" by fastforce
  then show ?thesis
  proof cases
    case barrier
    have "wp (on_relay (record_checkpoint_ready env ?cid)) (\<lambda>_. Q permits) (reached env s0) co"
    proof (rule wp_relay_post [OF assms(1), of UNIV _ "\<lambda>_ r. dispatches (snapshot r) = dispatches ?s"])
      show "wp (record_checkpoint_ready env ?cid) (\<lambda>_ r. live env UNIV ?s (snapshot r) \<and> dispatches (snapshot r) = dispatches ?s)
          (\<lambda>r. live env UNIV ?s (snapshot r)) (co_relay co)" if "live env UNIV ?s ?s"
        by (rule wp_record_checkpoint_ready [OF that]) simp
      show "Q permits (co\<lparr>co_relay := r\<rparr>)" if "co_ok env s0 (co\<lparr>co_relay := r\<rparr>)" "dispatches (snapshot r) = dispatches ?s" for r
        by (rule Q [OF that(1)]) (use that(2) in \<open>auto simp: sent_fresh_refl awaiting_def entry_def\<close>)
    qed simp
    with barrier show ?thesis by (simp add: dispatch_claimed_def wp_rbind wp_rret_fun)
  next
    case none
    from awaiting_open [OF assms(2)] obtain d where d: "bt_get (dispatches ?s) ?cid = Some d" "\<not> is_terminal (d_state d)" by blast
    have free: "?cid \<notin> holding co" using assms(2) by (simp add: awaiting_def)
    have "wp (on_relay (record_command_rejected env ?cid ''relay-local command was unexpectedly claimed for ACP dispatch''))
        (\<lambda>_. Q permits) (reached env s0) co"
      by (rule wp_reject_call [OF assms(1) free d], rule Q) (auto simp: sent_fresh_refl intro: awaiting_kept)
    with none show ?thesis by (simp add: dispatch_claimed_def wp_rbind wp_rret_fun)
  next
    case send
    have kind: "acp_kind (cl_command c)" using send(2) acp_command_iff(1) [of renv c] by simp
    note rid = acp_command_iff(2) [OF send(2)]
    have c: "?cid \<notin> holding co" "bt_get (dispatches ?s) ?cid = Some \<lparr>d_command = cl_command c, d_state = DInFlight\<rparr>"
      using assms(2) kind by (simp_all add: awaiting_def acp_kind_agent)
    let ?co = "co\<lparr>co_sent := co_sent co @ [request], in_flight := bt_insert ?cid (cl_command c) (in_flight co)\<rparr>"
    have fl: "flying ?co = insert ?cid (flying co)" "running ?co = running co" by (auto simp: flying_def running_def split: if_splits)
    have "co_ok env s0 ?co"
      using assms(1) c(2) kind by (auto simp: co_ok_def reached_def in_agent_hands_def split: if_splits)
    moreover have "sent_fresh co ?co"
      unfolding sent_fresh_def fl using c(1) rid by (auto simp: holding_eq)
    moreover have "awaiting ?co x" if "awaiting co x" "cl_command_id x \<noteq> ?cid" for x
      using that unfolding awaiting_def holding_eq fl by auto
    ultimately have "Q n ?co" for n by (intro Q)
    then show ?thesis
      using send co_okD [OF assms(1)] by (simp add: dispatch_claimed_def wp_simps)
  qed
qed

lemma wp_dispatch_claims:
  assumes "co_ok env s0 co" "distinct (map cl_command_id claims)" "\<forall>c \<in> set claims. awaiting co c"
    and Q: "\<And>n co'. co_ok env s0 co' \<Longrightarrow> sent_fresh co co' \<Longrightarrow> Q n co'"
  shows "wp (rfold (dispatch_claimed env renv) claims permits) Q (reached env s0) co"
  using assms
proof (induction claims arbitrary: co permits)
  case Nil
  then show ?case by (simp add: wp_rret sent_fresh_refl)
next
  case (Cons c claims)
  show ?case
    unfolding rfold.simps(2) wp_rbind
  proof (rule wp_dispatch_claimed)
    fix n co' assume co': "co_ok env s0 co'" "sent_fresh co co'"
      and keep: "\<And>x. awaiting co x \<Longrightarrow> cl_command_id x \<noteq> cl_command_id c \<Longrightarrow> awaiting co' x"
    show "wp (rfold (dispatch_claimed env renv) claims n) Q (reached env s0) co'"
    proof (rule Cons.IH [OF co'(1)])
      show "distinct (map cl_command_id claims)" using Cons.prems(2) by simp
      show "\<forall>x \<in> set claims. awaiting co' x"
      proof
        fix x assume x: "x \<in> set claims"
        show "awaiting co' x" by (rule keep) (use Cons.prems(2,3) x in \<open>auto simp: image_iff\<close>)
      qed
      show "Q m co''" if "co_ok env s0 co''" "sent_fresh co' co''" for m co''
        using Cons.prems(4) [OF that(1) sent_fresh_trans [OF co'(2) that(2)]] .
    qed
  qed (use Cons.prems in simp_all)
qed

lemma wp_rbind_fun: "wp (rbind m f) Q E = wp m (\<lambda>x. wp (f x) Q E) E"
  by (rule ext) (simp add: wp_rbind)

text \<open>What one dispatch does: shells start first, then requests go out.\<close>

definition dispatched :: "coordinator \<Rightarrow> coordinator \<Rightarrow> bool" where
  "dispatched co co' \<longleftrightarrow> (\<exists>mid. grows co mid \<and> sent_fresh mid co')"

lemma dispatched_channel: "dispatched co co' \<Longrightarrow> channel_ok co \<Longrightarrow> channel_ok co'"
  unfolding dispatched_def using grows_channel sent_fresh_channel by blast

lemma wp_dispatch_pending:
  assumes "co_ok env s0 co"
  shows "wp (dispatch_pending env renv permits) (\<lambda>_ co'. co_ok env s0 co' \<and> dispatched co co') (reached env s0) co"
  unfolding dispatch_pending_def wp_rseq
proof (rule wp_dispatch_user_shells [OF assms])
  fix co1 assume co1: "co_ok env s0 co1" "grows co co1"
  let ?s = "snapshot (co_relay co1)" and ?Q = "\<lambda>_ co'. co_ok env s0 co' \<and> dispatched co co'"
  let ?P = "\<lambda>claims r. \<exists>s1. live env UNIV ?s s1 \<and> claimed_from s1 (snapshot r) claims"
  have "wp (on_relay (claim_pending_commands_up_to env (session_configured co1) permits))
      (\<lambda>claims. wp (rfold (dispatch_claimed env renv) (sort_key cl_accepted_ordinal claims) (min permits (length claims)))
         ?Q (reached env s0)) (reached env s0) co1"
  proof (rule wp_relay_post [OF co1(1), of UNIV _ ?P])
    show "wp (claim_pending_commands_up_to env (session_configured co1) permits)
        (\<lambda>claims r. live env UNIV ?s (snapshot r) \<and> ?P claims r) (\<lambda>r. live env UNIV ?s (snapshot r)) (co_relay co1)"
      if "live env UNIV ?s ?s"
      by (rule wp_claim_pending [OF that]) blast
    fix claims :: "claimed_relay_command list" and r :: durable_relay
    assume ok: "co_ok env s0 (co1\<lparr>co_relay := r\<rparr>)" and "?P claims r"
    then obtain s1 where s1: "live env UNIV ?s s1" "claimed_from s1 (snapshot r) claims" by blast
    show "wp (rfold (dispatch_claimed env renv) (sort_key cl_accepted_ordinal claims) (min permits (length claims)))
        ?Q (reached env s0) (co1\<lparr>co_relay := r\<rparr>)"
    proof (rule wp_dispatch_claims [OF ok])
      show "distinct (map cl_command_id (sort_key cl_accepted_ordinal claims))"
        using s1(2) by (simp add: claimed_from_def distinct_map)
      show "\<forall>c \<in> set (sort_key cl_accepted_ordinal claims). awaiting (co1\<lparr>co_relay := r\<rparr>) c"
        using claimed_handed [OF co1(1) s1] awaiting_handed by simp
      show "co_ok env s0 co' \<and> dispatched co co'" if "co_ok env s0 co'" "sent_fresh (co1\<lparr>co_relay := r\<rparr>) co'" for co'
        using that co1(2) unfolding dispatched_def by auto
    qed
  qed simp
  then show "wp (rbind (rget session_configured) (\<lambda>configured.
      rbind (on_relay (claim_pending_commands_up_to env configured permits)) (\<lambda>pending.
      rbind (rfold (dispatch_claimed env renv) (sort_key cl_accepted_ordinal pending) (min permits (length pending))) (\<lambda>_.
      rret ())))) ?Q (reached env s0) co1"
    by (simp add: wp_rbind_fun wp_rget wp_rret_fun)
qed

section \<open>A turn of the loop\<close>

definition turned :: "coordinator \<Rightarrow> coordinator \<Rightarrow> bool" where
  "turned co co' \<longleftrightarrow> (\<exists>mid. co_sent mid = co_sent co \<and> dispatched mid co')"

lemma dispatched_refl: "dispatched co co"
  unfolding dispatched_def using grows_refl sent_fresh_refl by blast

lemma turned_same: "co_sent co' = co_sent co \<Longrightarrow> turned co co'"
  unfolding turned_def using dispatched_refl by metis

lemma wp_maybe_dispatch:
  assumes "co_ok env s0 co" "channel_ok co" "co_sent co = co_sent co0"
  shows "wp (if stopped then rret True else rseq (dispatch_pending env renv permits) (rret False))
    (\<lambda>_ co'. co_ok env s0 co' \<and> channel_ok co' \<and> turned co0 co') (reached env s0) co"
proof (cases stopped)
  case True
  then show ?thesis using assms by (simp add: wp_rret turned_same)
next
  case False
  have "wp (dispatch_pending env renv permits) (\<lambda>_ co'. co_ok env s0 co' \<and> channel_ok co' \<and> turned co0 co') (reached env s0) co"
    by (rule wp_mono [OF wp_dispatch_pending [OF assms(1)]])
      (use assms dispatched_channel in \<open>auto simp: turned_def\<close>)
  with False show ?thesis by (simp add: wp_rseq wp_rret_fun)
qed

lemma wp_record_batch:
  assumes "co_ok env s0 co" "events_ok (event # co_events co) (flying co) (running co)"
  shows "wp (record_runtime_event_batch env denv renv event)
    (\<lambda>_ co'. co_ok env s0 co' \<and> channel_ok co' \<and> co_sent co' = co_sent co) (reached env s0) co"
  unfolding record_runtime_event_batch_def
proof (rule wp_record_one [OF assms])
  fix stopped co1 assume co1: "co_ok env s0 co1" "channel_ok co1" "co_sent co1 = co_sent co"
  show "wp (if stopped then rret True else rbind (rget (\<lambda>co. length (co_events co))) (record_queued_runtime_events env denv renv))
      (\<lambda>_ co'. co_ok env s0 co' \<and> channel_ok co' \<and> co_sent co' = co_sent co) (reached env s0) co1"
    using wp_record_queued [OF co1(1,2), of denv renv "length (co_events co1)"] co1 by (cases stopped) (simp_all add: wp_simps)
qed

text \<open>The event channel is taken up only when it has an event or has been closed.\<close>

definition input_ready :: "coordinator_input \<Rightarrow> coordinator \<Rightarrow> bool" where
  "input_ready input co \<longleftrightarrow> input \<noteq> EventReady \<or> co_events co \<noteq> [] \<or> \<not> co_events_open co"

lemma wp_turn:
  assumes "co_ok env s0 co" "channel_ok co"
  shows "wp (coordinator_turn env denv renv input permits)
    (\<lambda>_ co'. co_ok env s0 co' \<and> channel_ok co' \<and> turned co co') (reached env s0) co"
    (is "wp _ ?Q _ _")
proof (cases input)
  case Woken
  have "wp (record_queued_runtime_events env denv renv (length (co_events co)))
      (\<lambda>stopped. wp (if stopped then rret True else rseq (dispatch_pending env renv permits) (rret False)) ?Q (reached env s0))
      (reached env s0) co"
    by (rule wp_mono [OF wp_record_queued [OF assms]]) (elim conjE, rule wp_maybe_dispatch)
  with Woken show ?thesis by (simp add: coordinator_turn_def wp_rget wp_rbind)
next
  case WakesClosed
  then show ?thesis using assms by (simp add: coordinator_turn_def wp_rret turned_same)
next
  case EventReady
  show ?thesis
  proof (cases "co_events co")
    case Nil
    have "wp (interrupt_in_flight env ''ACP runtime stopped before the command completed'') (\<lambda>_. ?Q True) (reached env s0) co"
      by (rule wp_interrupt_in_flight [OF assms(1)])
        (use Nil in \<open>auto simp: channel_ok_def emptied_def intro: turned_same\<close>)
    with EventReady Nil show ?thesis by (simp add: coordinator_turn_def wp_rget wp_rbind wp_rseq wp_rret_fun)
  next
    case (Cons event rest)
    let ?co = "co\<lparr>co_events := rest\<rparr>"
    have "co_ok env s0 ?co" "events_ok (event # co_events ?co) (flying ?co) (running ?co)"
      using assms Cons by (simp_all add: co_events_sel channel_ok_def)
    then have "wp (record_runtime_event_batch env denv renv event)
        (\<lambda>stopped. wp (if stopped then rret True else rseq (dispatch_pending env renv permits) (rret False)) ?Q (reached env s0))
        (reached env s0) ?co"
      by (rule wp_mono [OF wp_record_batch]) (elim conjE, rule wp_maybe_dispatch, simp_all)
    with EventReady Cons show ?thesis by (simp add: coordinator_turn_def wp_rget wp_rbind wp_rseq wp_rmodify)
  qed
qed

end
