(* ===== verification/Worker_Connection.thy ===== *)
theory Worker_Connection
  imports Worker_Dispatch
begin

text \<open>
  The connections of controllers to a worker (\<open>src/src/hel_worker_runtime/unix.rs\<close>,
  \<open>serve_client_with_memory\<close> and what it calls): which requests reach the durable relay, how a
  replay page is read without the lock, which checkpoint barriers a connection owns and releases
  when it ends, and how the coordinator is woken. The socket itself, the credential and skill
  files, project memory and the reviewer are not modelled: what they answer is a parameter.
\<close>

section \<open>Requests answered on the connection\<close>

datatype request_route = ToCredentials | ToProjectMemory | ToCompaction | ToReviewer | ToElicitation | ToRelay

fun route :: "relay_request \<Rightarrow> request_route" where
  "route CredentialState = ToCredentials"
| "route ReadCredentials = ToCredentials"
| "route (InstallCredentials _) = ToCredentials"
| "route SkillsState = ToCredentials"
| "route (InstallSkills _) = ToCredentials"
| "route GithubTokenState = ToCredentials"
| "route (InstallGithubToken _) = ToCredentials"
| "route RemoveGithubToken = ToCredentials"
| "route ProjectMemorySnapshot = ToProjectMemory"
| "route (InstallProjectMemorySnapshot _) = ToProjectMemory"
| "route (Compact _) = ToCompaction"
| "route (Reviewer _ _) = ToReviewer"
| "route (RespondElicitation _ _) = ToElicitation"
| "route _ = ToRelay"

definition compaction_error :: "relay_error_code \<Rightarrow> string \<Rightarrow> relay_response_body" where
  "compaction_error code message = relay_error code (Bail message []) False None"

definition answer :: "relay_request_envelope \<Rightarrow> relay_response_body \<Rightarrow> relay_response_envelope" where
  "answer envelope body =
     \<lparr>rs_request_id = rq_request_id envelope, rs_protocol_version = rq_protocol_version envelope, rs_body = body\<rparr>"

definition if_supported :: "relay_request_envelope \<Rightarrow> relay_response_body \<Rightarrow> relay_response_envelope" where
  "if_supported envelope body =
     (if \<not> supported_at (rq_request envelope) (rq_protocol_version envelope)
      then incompatible_request_protocol_response (rq_request_id envelope) (rq_protocol_version envelope)
      else answer envelope body)"

text \<open>What a request sent to the agent's runtime meets: the channel is closed, the reply is lost, or it answers.\<close>

datatype 'a runtime_reply = SendRefused | ReplyLost | Replied "string + 'a"

definition runtime_body ::
  "string \<Rightarrow> string \<Rightarrow> string \<Rightarrow> ('a \<Rightarrow> relay_response_payload) \<Rightarrow> 'a runtime_reply option \<Rightarrow> relay_response_body" where
  "runtime_body closed_text lost_text refused_text payload commands =
     (case commands of
        None \<Rightarrow> compaction_error InvalidState closed_text
      | Some SendRefused \<Rightarrow> compaction_error Internal refused_text
      | Some ReplyLost \<Rightarrow> compaction_error Internal lost_text
      | Some (Replied (Inl message)) \<Rightarrow> compaction_error InvalidState message
      | Some (Replied (Inr x)) \<Rightarrow> BodyOk (payload x))"

definition compaction_response ::
  "relay_request_envelope \<Rightarrow> string \<Rightarrow> string runtime_reply option \<Rightarrow> relay_response_envelope" where
  "compaction_response envelope prompt commands =
     if_supported envelope
       (if is_blank prompt then compaction_error InvalidRequest ''compaction prompt is empty''
        else runtime_body ''session is closed; no ACP runtime can compact''
               ''ACP runtime stopped before it compacted''
               ''ACP runtime stopped before accepting the compaction prompt'' PCompacted commands)"

definition elicitation_response ::
  "relay_request_envelope \<Rightarrow> string \<Rightarrow> unit runtime_reply option \<Rightarrow> relay_response_envelope" where
  "elicitation_response envelope elicitation_id commands =
     if_supported envelope
       (runtime_body ''session is closed; no ACP runtime can answer the elicitation''
          ''ACP runtime stopped before resolving the elicitation''
          ''ACP runtime stopped before accepting the elicitation answer'' (\<lambda>_. PElicitationResolved elicitation_id) commands)"

definition reviewer_response ::
  "relay_request_envelope \<Rightarrow> (relay_request_envelope \<Rightarrow> relay_response_envelope) option \<Rightarrow> relay_response_envelope" where
  "reviewer_response envelope reviewer =
     (if \<not> supported_at (rq_request envelope) (rq_protocol_version envelope)
      then incompatible_request_protocol_response (rq_request_id envelope) (rq_protocol_version envelope)
      else case reviewer of
        None \<Rightarrow> answer envelope (compaction_error InvalidState ''session is closed; no reviewer can run beside it'')
      | Some serve \<Rightarrow> serve envelope)"

text \<open>File work on a blocking thread: it fails, the task is lost, or it gives a payload.\<close>

datatype task_result = TaskPayload relay_response_payload | TaskError string | TaskStopped string

definition task_body :: "string \<Rightarrow> task_result \<Rightarrow> relay_response_body" where
  "task_body task result =
     (case result of
        TaskPayload payload \<Rightarrow> BodyOk payload
      | TaskError e \<Rightarrow> relay_error InvalidRequest (Bail e []) False None
      | TaskStopped e \<Rightarrow> relay_error Internal (Bail (task @ '' task stopped: '' @ e) []) True None)"

definition credential_response ::
  "relay_request_envelope \<Rightarrow> string + (relay_request \<Rightarrow> task_result) \<Rightarrow> relay_response_envelope" where
  "credential_response envelope credentials =
     if_supported envelope
       (case credentials of
          Inl message \<Rightarrow> relay_error InvalidState (Bail message []) False None
        | Inr apply_request \<Rightarrow> task_body ''credential'' (apply_request (rq_request envelope)))"

definition project_memory_response ::
  "relay_request_envelope \<Rightarrow> (relay_request \<Rightarrow> task_result) option \<Rightarrow> relay_response_envelope" where
  "project_memory_response envelope memory =
     if_supported envelope
       (case memory of
          None \<Rightarrow> relay_error InvalidState (Bail ''this session has no project memory endpoint'' []) False None
        | Some apply_request \<Rightarrow> task_body ''project memory'' (apply_request (rq_request envelope)))"

section \<open>The worker\<close>

text \<open>
  The coordinator with its wake channel, which holds one wake. \<open>wakes_received\<close> is false once the
  coordinator has dropped its end.
\<close>

record worker =
  wk_co :: coordinator
  wake_queued :: bool
  wakes_received :: bool

type_synonym 'a worker_meth = "(worker, relay_err, 'a) meth"

definition with_relay :: "'a relay_meth \<Rightarrow> 'a worker_meth" where
  "with_relay m w =
     (case m (co_relay (wk_co w)) of (res, r) \<Rightarrow> (res, w\<lparr>wk_co := (wk_co w)\<lparr>co_relay := r\<rparr>\<rparr>))"

definition wake_dispatch :: "unit worker_meth" where
  "wake_dispatch =
     rbind (rget (\<lambda>w. w)) (\<lambda>w.
       if wakes_received w then rmodify (\<lambda>w. w\<lparr>wake_queued := True\<rparr>)
       else if os_execution (operational_state (co_relay (wk_co w))) = ExClosed then rret ()
       else rfail (Bail ''relay coordinator stopped'' []))"

section \<open>Reading a replay page without the lock\<close>

datatype attach_verdict =
    Answered relay_response_envelope
  | Replan deferred_relay_attach
  | GaveUp

definition is_error :: "relay_response_body \<Rightarrow> bool" where
  "is_error body = (case body of BodyError _ \<Rightarrow> True | BodyOk _ \<Rightarrow> False)"

definition conclude_attach ::
  "relay_request_envelope \<Rightarrow> deferred_relay_attach \<Rightarrow> relay_response_envelope \<Rightarrow> attach_verdict relay_meth" where
  "conclude_attach envelope deferred response =
     rbind (rget (\<lambda>r. journal_generation r = pl_generation (da_plan deferred))) (\<lambda>unmoved.
       if \<not> is_error (rs_body response) then
         rseq (rwhen unmoved (rmodify (remember_replay_cursor response))) (rret (Answered response))
       else if unmoved then rret (Answered response)
       else rget (\<lambda>r. case take_deferred_attach envelope r of Some next_plan \<Rightarrow> Replan next_plan | None \<Rightarrow> GaveUp))"

definition REPLAN_ATTEMPTS :: usize where "REPLAN_ATTEMPTS = 3"

text \<open>
  \<open>others n\<close> is what the rest of the worker does to the relay while the page is read with \<open>n\<close> attempts
  left after this one.
\<close>

fun attach_attempts ::
  "relay_env \<Rightarrow> (usize \<Rightarrow> durable_relay \<Rightarrow> durable_relay) \<Rightarrow> relay_request_envelope \<Rightarrow> usize \<Rightarrow> deferred_relay_attach
     \<Rightarrow> relay_response_envelope relay_meth" where
  "attach_attempts env others envelope 0 deferred =
     rret (stale_journal_response (rq_request_id envelope) (rq_protocol_version envelope))"
| "attach_attempts env others envelope (Suc n) deferred =
     rseq (rmodify (others n))
     (rbind (rdisk (rtry (finish_attach env deferred) rret (\<lambda>_. rfail (Bail ''assemble relay replay page'' [])))) (\<lambda>response.
      rbind (conclude_attach envelope deferred response) (\<lambda>verdict.
        case verdict of
          Answered body \<Rightarrow> rret body
        | Replan next_plan \<Rightarrow> attach_attempts env others envelope n next_plan
        | GaveUp \<Rightarrow> rret (stale_journal_response (rq_request_id envelope) (rq_protocol_version envelope)))))"

definition serve_request ::
  "relay_env \<Rightarrow> (usize \<Rightarrow> durable_relay \<Rightarrow> durable_relay) \<Rightarrow> relay_request_envelope \<Rightarrow> relay_response_envelope relay_meth" where
  "serve_request env others envelope =
     rbind (rget (take_deferred_attach envelope)) (\<lambda>deferred.
       case deferred of
         None \<Rightarrow> handle env envelope
       | Some plan \<Rightarrow> attach_attempts env others envelope REPLAN_ATTEMPTS plan)"

section \<open>Barriers owned by a connection\<close>

datatype checkpoint_change = CkBegin string | CkEnded string

definition checkpoint_change :: "relay_request \<Rightarrow> checkpoint_change option" where
  "checkpoint_change request =
     (case request of
        Submit cid (BeginCheckpoint _) \<Rightarrow> Some (CkBegin cid)
      | Submit _ (CompleteCheckpoint barrier) \<Rightarrow> Some (CkEnded barrier)
      | Submit _ (ReleaseCheckpoint barrier) \<Rightarrow> Some (CkEnded barrier)
      | _ \<Rightarrow> None)"

definition is_accepted :: "relay_response_body \<Rightarrow> bool" where
  "is_accepted body = (case body of BodyOk (PAccepted _ _) \<Rightarrow> True | _ \<Rightarrow> False)"

definition is_submit :: "relay_request \<Rightarrow> bool" where
  "is_submit request = (case request of Submit _ _ \<Rightarrow> True | _ \<Rightarrow> False)"

definition own_barriers :: "relay_request \<Rightarrow> (string, unit) btree \<Rightarrow> (string, unit) btree" where
  "own_barriers request barriers =
     (case checkpoint_change request of
        Some (CkBegin cid) \<Rightarrow> bt_insert cid () barriers
      | Some (CkEnded cid) \<Rightarrow> bt_remove cid barriers
      | None \<Rightarrow> barriers)"

definition worker_root_was_removed :: "relay_response_body \<Rightarrow> bool \<Rightarrow> bool" where
  "worker_root_was_removed body root_is_dir =
     ((case body of BodyError e \<Rightarrow> pe_code e = Internal | _ \<Rightarrow> False) \<and> \<not> root_is_dir)"

text \<open>A request for the relay: the response, the barriers the connection owns now, and whether the daemon must stop.\<close>

definition serve_relay_request ::
  "relay_env \<Rightarrow> (usize \<Rightarrow> durable_relay \<Rightarrow> durable_relay) \<Rightarrow> relay_request_envelope \<Rightarrow> (string, unit) btree
     \<Rightarrow> (relay_response_envelope \<times> (string, unit) btree \<times> bool) worker_meth" where
  "serve_relay_request env others envelope barriers =
     rbind (with_relay (serve_request env others envelope)) (\<lambda>response.
     rbind (rget (\<lambda>w. root_present (disk (co_relay (wk_co w))))) (\<lambda>root_is_dir.
       let accepted = is_accepted (rs_body response);
           barriers' = (if accepted then own_barriers (rq_request envelope) barriers else barriers)
       in rseq (rwhen (is_submit (rq_request envelope) \<and> accepted) wake_dispatch)
               (rret (response, barriers', worker_root_was_removed (rs_body response) root_is_dir))))"

text \<open>The barriers are released in the order of the set when the connection ends.\<close>

definition release_checkpoint_barriers :: "relay_env \<Rightarrow> (string, unit) btree \<Rightarrow> unit worker_meth" where
  "release_checkpoint_barriers env barriers =
     rbind (with_relay (rfold (\<lambda>cid released.
              rbind (cancel_checkpoint_barrier_on_disconnect env cid) (\<lambda>ordinal. rret (released \<or> ordinal \<noteq> None)))
            (map fst barriers) False)) (\<lambda>released.
       rwhen released wake_dispatch)"

section \<open>Starting\<close>

definition select_resume_session :: "string option \<Rightarrow> durable_relay \<Rightarrow> string option" where
  "select_resume_session configured r =
     (case configured of Some sid \<Rightarrow> Some sid | None \<Rightarrow> os_native_session_id (operational_state r))"

text \<open>The durable part of a start: the opened relay records that its session was restarted.\<close>

definition record_restart :: "relay_env \<Rightarrow> bool \<Rightarrow> unit relay_meth" where
  "record_restart env restarting =
     rbind (rget (\<lambda>r. os_execution (operational_state r))) (\<lambda>ex.
       rwhen (restarting \<and> ex \<noteq> ExClosed) (rbind (record_observation env SessionRestarted) (\<lambda>_. rret ())))"

definition start_relay ::
  "relay_env \<Rightarrow> string option \<Rightarrow> bool \<Rightarrow> string option \<Rightarrow> bool \<Rightarrow> unit relay_meth" where
  "start_relay env configured is_claude startup_context restarting =
     rbind (rget (select_resume_session configured)) (\<lambda>resume.
     rseq (case startup_context of
             Some context \<Rightarrow> rwhen (resume = None \<and> \<not> is_claude) (install_prompt_context env context)
           | None \<Rightarrow> rret ())
          (record_restart env restarting))"

end
