(* ===== verification/Worker_Refinement.thy ===== *)
theory Worker_Refinement
  imports Worker_Connection "HOL-Library.Code_Target_Nat"
begin

text \<open>
  The worker as a whole refines the session machine. Connections, turns of the coordinator and the
  events of the agent's runtime are interleaved; a turn and a request are each one step, and what
  other connections do while a replay page is read is part of the request's step. The invariant is
  \<open>co_ok\<close> together with \<open>channel_ok\<close>; the only assumption on the runtime is that it reports the end
  of commands it holds (\<open>events_ok\<close>).
\<close>

section \<open>Requests\<close>

lemma wp_with_relay [wp_simps]:
  "wp (with_relay m) Q E w =
     wp m (\<lambda>x r. Q x (w\<lparr>wk_co := (wk_co w)\<lparr>co_relay := r\<rparr>\<rparr>)) (\<lambda>r. E (w\<lparr>wk_co := (wk_co w)\<lparr>co_relay := r\<rparr>\<rparr>)) (co_relay (wk_co w))"
  by (simp add: wp_def with_relay_def split: prod.splits outcome.splits)

lemma remember_replay_cursor_snapshot [simp]: "snapshot (remember_replay_cursor response r) = snapshot r"
  by (simp add: remember_replay_cursor_def split: relay_response_body.split relay_response_payload.split)

text \<open>What the other connections do meanwhile are moves of the machine, and they finish nothing the agent holds.\<close>

definition calm :: "relay_env \<Rightarrow> string set \<Rightarrow> (usize \<Rightarrow> durable_relay \<Rightarrow> durable_relay) \<Rightarrow> bool" where
  "calm env K others \<longleftrightarrow> (\<forall>n. refines env K (rmodify (others n) :: unit relay_meth))"

lemma calm_idle: "calm env K (\<lambda>_ r. r)"
  by (simp add: calm_def refines_def wp_rmodify)

lemma refines_conclude: "refines env K (conclude_attach envelope deferred response)"
  unfolding conclude_attach_def
  by (rule refinesI) (auto simp: wp_simps)

lemma refines_attempts:
  assumes "calm env K others"
  shows "refines env K (attach_attempts env others envelope n deferred)"
proof (induction n arbitrary: deferred)
  case 0
  show ?case by (simp add: refines_intros)
next
  case (Suc n)
  have "refines env K (case verdict of
          Answered body \<Rightarrow> rret body
        | Replan next_plan \<Rightarrow> attach_attempts env others envelope n next_plan
        | GaveUp \<Rightarrow> rret (stale_journal_response (rq_request_id envelope) (rq_protocol_version envelope)))" for verdict
    using Suc.IH by (cases verdict) (simp_all add: refines_intros)
  then show ?case
    unfolding attach_attempts.simps
    by (intro refines_intros refines_conclude) (use assms in \<open>simp_all add: calm_def\<close>)
qed

lemma refines_serve_request:
  assumes "calm env K others"
  shows "refines env K (serve_request env others envelope)"
proof -
  have "refines env K (case deferred of None \<Rightarrow> handle env envelope | Some plan \<Rightarrow> attach_attempts env others envelope REPLAN_ATTEMPTS plan)"
    for deferred using refines_attempts [OF assms] by (cases deferred) (simp_all add: refines_intros)
  then show ?thesis unfolding serve_request_def by (intro refines_intros)
qed

section \<open>The worker's invariant\<close>

definition worker_ok :: "relay_env \<Rightarrow> relay_snapshot \<Rightarrow> worker \<Rightarrow> bool" where
  "worker_ok env s0 w \<longleftrightarrow> co_ok env s0 (wk_co w) \<and> channel_ok (wk_co w)"

lemma co_ok_live:
  assumes "co_ok env s0 co" "live env UNIV (snapshot (co_relay co)) (snapshot r)"
  shows "co_ok env s0 (co\<lparr>co_relay := r\<rparr>)"
proof -
  have "held UNIV (snapshot (co_relay co)) (snapshot r)" using live_good [OF assms(2)] by blast
  from holding_held [OF assms(1) this] reached_step [OF co_okD [OF assms(1)] assms(2)] show ?thesis
    by (simp add: co_ok_def)
qed

lemma worker_ok_relay:
  assumes "worker_ok env s0 w" "live env UNIV (snapshot (co_relay (wk_co w))) (snapshot r)"
  shows "worker_ok env s0 (w\<lparr>wk_co := (wk_co w)\<lparr>co_relay := r\<rparr>\<rparr>)"
  using assms co_ok_live by (simp add: worker_ok_def channel_ok_def)

lemma worker_ok_wakes [simp]:
  "worker_ok env s0 (w\<lparr>wake_queued := b\<rparr>) = worker_ok env s0 w"
  "worker_ok env s0 (w\<lparr>wakes_received := b\<rparr>) = worker_ok env s0 w"
  by (simp_all add: worker_ok_def)

lemma worker_live:
  assumes "worker_ok env s0 w"
  shows "live env K (snapshot (co_relay (wk_co w))) (snapshot (co_relay (wk_co w)))"
  using assms by (intro live_start) (simp add: worker_ok_def co_ok_def reached_def)

lemma wp_refining_call:
  assumes "worker_ok env s0 w" "refines env UNIV m" "\<And>x w'. worker_ok env s0 w' \<Longrightarrow> Q x w'"
  shows "wp (with_relay m) Q (worker_ok env s0) w"
  unfolding wp_with_relay
  by (rule wp_mono [OF refines_wp [OF assms(2) worker_live [OF assms(1)]]])
    (auto intro: assms(3) worker_ok_relay [OF assms(1)])

lemma wp_wake: "worker_ok env s0 w \<Longrightarrow> wp wake_dispatch (\<lambda>_. worker_ok env s0) (worker_ok env s0) w"
  by (simp add: wake_dispatch_def wp_simps)

lemma wp_serve:
  assumes "worker_ok env s0 w" "calm env UNIV others"
  shows "wp (serve_relay_request env others envelope barriers) (\<lambda>_. worker_ok env s0) (worker_ok env s0) w"
  unfolding serve_relay_request_def wp_rbind
  by (rule wp_refining_call [OF assms(1) refines_serve_request [OF assms(2)]])
    (simp add: wp_simps Let_def wp_rret_fun wp_wake)

text \<open>A connection that ends releases its barriers, whatever state they are in.\<close>

lemma wp_release:
  assumes "worker_ok env s0 w"
  shows "wp (release_checkpoint_barriers env barriers)
    (\<lambda>_ w'. worker_ok env s0 w' \<and> (\<forall>cid \<in> fst ` set barriers. barrier_over (snapshot (co_relay (wk_co w'))) cid))
    (worker_ok env s0) w"
proof -
  let ?s = "snapshot (co_relay (wk_co w))"
  let ?f = "\<lambda>cid released. rbind (cancel_checkpoint_barrier_on_disconnect env cid) (\<lambda>ordinal. rret (released \<or> ordinal \<noteq> None))"
  have fold: "wp (rfold ?f cids released) (\<lambda>_ r'. live env UNIV ?s (snapshot r') \<and> (\<forall>c \<in> set cids \<union> C. barrier_over (snapshot r') c))
      (\<lambda>r'. live env UNIV ?s (snapshot r')) r"
    if "live env UNIV ?s (snapshot r)" "\<forall>c \<in> C. barrier_over (snapshot r) c" for cids C released and r :: durable_relay
    using that
  proof (induction cids arbitrary: C released r)
    case Nil
    then show ?case by (simp add: wp_rret)
  next
    case (Cons cid cids)
    show ?case
      unfolding rfold.simps(2) wp_rbind wp_rret_fun
    proof (rule wp_disconnect [OF Cons.prems(1)])
      fix n and r' :: durable_relay
      assume r': "live env UNIV ?s (snapshot r')" "spares (- {cid}) (snapshot r) (snapshot r')" "barrier_over (snapshot r') cid"
      have "\<forall>c \<in> insert cid C. barrier_over (snapshot r') c"
        using r'(3) Cons.prems(2) spares_over [OF r'(2)] by (metis ComplI insert_iff singletonD)
      from Cons.IH [OF r'(1) this] show "wp (rfold ?f cids (released \<or> n \<noteq> None))
          (\<lambda>_ r'. live env UNIV ?s (snapshot r') \<and> (\<forall>c \<in> set (cid # cids) \<union> C. barrier_over (snapshot r') c))
          (\<lambda>r'. live env UNIV ?s (snapshot r')) r'" by simp
    qed
  qed
  show ?thesis
    unfolding release_checkpoint_barriers_def wp_rbind wp_with_relay
    by (rule wp_mono [OF fold [OF worker_live [OF assms], of "{}"]])
      (auto simp: wp_simps wake_dispatch_def worker_ok_relay [OF assms] image_iff)
qed

section \<open>Interleaving\<close>

text \<open>
  The coordinator starts with one dispatch and then takes turns until one of them stops it; a step
  \<open>start\<close> is that first dispatch. The runtime sends events, controllers send requests and disconnect.
\<close>

definition fresh_worker :: "durable_relay \<Rightarrow> user_shell_registry \<Rightarrow> worker" where
  "fresh_worker r shells =
     \<lparr>wk_co = \<lparr>co_relay = r, in_flight = [], session_configured = False, user_shells = shells\<lparr>cancellations := []\<rparr>,
               co_events = [], co_events_open = True, co_sent = []\<rparr>,
      wake_queued = False, wakes_received = True\<rparr>"

inductive worker_step :: "relay_env \<Rightarrow> diff_env \<Rightarrow> runtime_env \<Rightarrow> worker \<Rightarrow> worker \<Rightarrow> bool"
  for env denv renv where
  start: "dispatch_pending env renv permits (wk_co w) = (Ok u, co') \<Longrightarrow> worker_step env denv renv w (w\<lparr>wk_co := co'\<rparr>)"
| turn: "wakes_received w \<Longrightarrow> input_ready input (wk_co w) \<Longrightarrow> (input = Woken \<longrightarrow> wake_queued w) \<Longrightarrow>
     coordinator_turn env denv renv input permits (wk_co w) = (Ok stopped, co') \<Longrightarrow>
     worker_step env denv renv w (w\<lparr>wk_co := co', wake_queued := (wake_queued w \<and> input \<noteq> Woken), wakes_received := (\<not> stopped)\<rparr>)"
| runtime: "co_events_open (wk_co w) \<Longrightarrow> events_ok (co_events (wk_co w) @ [event]) (flying (wk_co w)) (running (wk_co w)) \<Longrightarrow>
     worker_step env denv renv w (w\<lparr>wk_co := (wk_co w)\<lparr>co_events := co_events (wk_co w) @ [event]\<rparr>\<rparr>)"
| request: "calm env UNIV others \<Longrightarrow> serve_relay_request env others envelope barriers w = (res, w') \<Longrightarrow>
     worker_step env denv renv w w'"
| disconnect: "release_checkpoint_barriers env barriers w = (res', w') \<Longrightarrow> worker_step env denv renv w w'"

lemma wp_outcome: "wp m (\<lambda>_. I) I s \<Longrightarrow> m s = (res, s') \<Longrightarrow> I s'"
  by (cases res) (auto simp: wp_def)

lemma wp_ok: "wp m Q E s \<Longrightarrow> m s = (Ok x, s') \<Longrightarrow> Q x s'"
  by (simp add: wp_def)

lemma worker_step_ok: "worker_step env denv renv w w' \<Longrightarrow> worker_ok env s0 w \<Longrightarrow> worker_ok env s0 w'"
proof (induction rule: worker_step.induct)
  case (start permits w u co')
  from start.prems have "co_ok env s0 (wk_co w)" "channel_ok (wk_co w)" by (simp_all add: worker_ok_def)
  with wp_ok [OF wp_dispatch_pending start.hyps] show ?case by (auto simp: worker_ok_def dest: dispatched_channel)
next
  case (turn w input permits stopped co')
  from turn.prems have "co_ok env s0 (wk_co w)" "channel_ok (wk_co w)" by (simp_all add: worker_ok_def)
  from wp_ok [OF wp_turn [OF this] turn.hyps(4)] show ?case by (simp add: worker_ok_def)
next
  case (runtime w event)
  then show ?case by (simp add: worker_ok_def channel_ok_def co_events_sel)
next
  case (request others envelope barriers w res w')
  from wp_outcome [OF wp_serve [OF request.prems request.hyps(1)] request.hyps(2)] show ?case .
next
  case (disconnect barriers w res' w')
  have "wp (release_checkpoint_barriers env barriers) (\<lambda>_. worker_ok env s0) (worker_ok env s0) w"
    by (rule wp_mono [OF wp_release [OF disconnect.prems]]) simp_all
  from wp_outcome [OF this disconnect.hyps] show ?case .
qed

lemma worker_steps_ok: "(worker_step env denv renv)\<^sup>*\<^sup>* w w' \<Longrightarrow> worker_ok env s0 w \<Longrightarrow> worker_ok env s0 w'"
  by (induction rule: rtranclp_induct) (auto intro: worker_step_ok)

lemma fresh_worker_ok: "good env (snapshot r) \<Longrightarrow> worker_ok env (snapshot r) (fresh_worker r shells)"
  by (simp add: worker_ok_def fresh_worker_def co_ok_def reached_def in_agent_hands_def shells_running_def channel_ok_def
      bt_wf_def bt_get_def relay_steps.intros)

section \<open>Properties\<close>


text \<open>
  A worker on an empty root, to which a controller submits a prompt before it disconnects.
\<close>

definition example_relay :: "relay_snapshot \<Rightarrow> durable_relay" where
  "example_relay s =
     opened_relay ''1'' [] [] s
       \<lparr>root_present = True, state_file = None, seed_file = None, journal_dir = [], faults = [], clock_reads = 0\<rparr>"

definition example_shells :: user_shell_registry where
  "example_shells = \<lparr>cancellations = [], started = [], spawns = [], receivers = []\<rparr>"

definition example_submit :: relay_request_envelope where
  "example_submit =
     \<lparr>rq_request_id = ''1'', rq_protocol_version = RELAY_PROTOCOL_VERSION, rq_request = Submit ''prompt-1'' (Prompt [JString ''hi''])\<rparr>"

definition example_worker :: worker where
  "example_worker =
     snd (release_checkpoint_barriers (example_env [] []) []
       (snd (serve_relay_request (example_env [] []) (\<lambda>_ r. r) example_submit []
         (fresh_worker (example_relay (new_snapshot ''s'')) example_shells))))"

lemma example_worker_steps:
  "(worker_step (example_env [] []) denv renv)\<^sup>*\<^sup>* (fresh_worker (example_relay (new_snapshot ''s'')) example_shells) example_worker"
  unfolding example_worker_def
  by (rule rtranclp.intros(2) [OF rtranclp.intros(2) [OF rtranclp.intros(1)]])
    (rule worker_step.request [OF calm_idle surjective_pairing] worker_step.disconnect [OF surjective_pairing])+


text \<open>Coordinators and workers on the snapshots of \<open>example_moves\<close>.\<close>

definition example_state :: "nat \<Rightarrow> relay_snapshot" where
  "example_state n = the (example_run (take n example_moves) (new_snapshot ''s''))"

lemma example_state_good:
  assumes "example_run (take n example_moves) (new_snapshot ''s'') \<noteq> None"
  shows "good (example_env es ss) (example_state n)" "relay_steps (example_env es ss) (new_snapshot ''s'') (example_state n)"
proof -
  from assms have "example_run (take n example_moves) (new_snapshot ''s'') = Some (example_state n)" by (auto simp: example_state_def)
  from example_run_steps [OF this relay_inv_new] show steps: "relay_steps (example_env es ss) (new_snapshot ''s'') (example_state n)" .
  then have "live (example_env es ss) {} (new_snapshot ''s'') (example_state n)"
    by (simp add: live_def relay_inv_new ids_ok_new held_def)
  from live_good [OF this] show "good (example_env es ss) (example_state n)" by blast
qed

lemma example_runs:
  "example_run (take 3 example_moves) (new_snapshot ''s'') \<noteq> None" "example_run (take 11 example_moves) (new_snapshot ''s'') \<noteq> None"
  by code_simp+

definition example_runtime :: runtime_env where
  "example_runtime =
     \<lparr>decode_session_update = (\<lambda>_. Inl []), text_block = JString, terminal_content = (\<lambda>_. JNull),
      execute_tool_call = (\<lambda>_ _ _. JNull)\<rparr>"

definition example_dispatcher :: coordinator where
  "example_dispatcher = (wk_co (fresh_worker (example_relay (example_state 3)) example_shells))\<lparr>session_configured := True\<rparr>"

definition example_dispatched :: "unit relay_result \<times> coordinator" where
  "example_dispatched = dispatch_pending (example_env [] [example_state 4]) example_runtime 2 example_dispatcher"

lemma example_dispatched_ok:
  "fst example_dispatched = Ok ()" "co_sent (snd example_dispatched) = [RqPrompt ''p'' [JString ''hi'']]"
  by code_simp+

lemma example_co_ok: "good env (example_state n) \<Longrightarrow>
  co_ok env (example_state n) ((wk_co (fresh_worker (example_relay (example_state n)) example_shells))\<lparr>session_configured := b\<rparr>)"
  using fresh_worker_ok [of env "example_relay (example_state n)" example_shells]
  by (simp add: worker_ok_def co_ok_def reached_def example_relay_def opened_relay_def)

text \<open>
  C25: Dispatch hands to the agent only commands it does not hold, each of them once, and every command
  it hands over is in flight in the durable state before the coordinator returns to its loop.
\<close>

theorem dispatch_sends_fresh_commands:
  assumes "co_ok env s0 co" "dispatch_pending env renv permits co = (Ok u, co')"
  shows "\<exists>sent. co_sent co' = co_sent co @ sent \<and> distinct (map request_id_of sent)
    \<and> request_id_of ` set sent \<inter> flying co = {} \<and> flying co' = flying co \<union> request_id_of ` set sent
    \<and> in_agent_hands (snapshot (co_relay co')) (in_flight co')"
proof -
  from wp_ok [OF wp_dispatch_pending [OF assms(1)] assms(2)] have co': "co_ok env s0 co'" "dispatched co co'" by simp_all
  from co'(2) obtain mid where mid: "grows co mid" "sent_fresh mid co'" by (auto simp: dispatched_def)
  from mid(1) have same: "co_sent mid = co_sent co" "flying mid = flying co" by (simp_all add: grows_def)
  from mid(2) obtain sent where "co_sent co' = co_sent co @ sent" "distinct (map request_id_of sent)"
    "request_id_of ` set sent \<inter> flying co = {}" "flying co' = flying co \<union> request_id_of ` set sent"
    unfolding sent_fresh_def same by blast
  moreover have "in_agent_hands (snapshot (co_relay co')) (in_flight co')" using co'(1) by (simp add: co_ok_def)
  ultimately show ?thesis by blast
qed

theorem dispatch_sends_fresh_commands_witness:
  "co_sent (snd example_dispatched) = [RqPrompt ''p'' [JString ''hi'']]
   \<and> (\<exists>sent. co_sent (snd example_dispatched) = co_sent example_dispatcher @ sent \<and> distinct (map request_id_of sent)
    \<and> request_id_of ` set sent \<inter> flying example_dispatcher = {}
    \<and> flying (snd example_dispatched) = flying example_dispatcher \<union> request_id_of ` set sent
    \<and> in_agent_hands (snapshot (co_relay (snd example_dispatched))) (in_flight (snd example_dispatched)))"
proof
  show "co_sent (snd example_dispatched) = [RqPrompt ''p'' [JString ''hi'']]" by (rule example_dispatched_ok)
  have "dispatch_pending (example_env [] [example_state 4]) example_runtime 2 example_dispatcher = (Ok (), snd example_dispatched)"
    using example_dispatched_ok(1) by (metis example_dispatched_def prod.collapse)
  from dispatch_sends_fresh_commands [OF example_co_ok [OF example_state_good(1) [OF example_runs(1)], of _ _ True] this [unfolded example_dispatcher_def]]
  show "\<exists>sent. co_sent (snd example_dispatched) = co_sent example_dispatcher @ sent \<and> distinct (map request_id_of sent)
    \<and> request_id_of ` set sent \<inter> flying example_dispatcher = {}
    \<and> flying (snd example_dispatched) = flying example_dispatcher \<union> request_id_of ` set sent
    \<and> in_agent_hands (snapshot (co_relay (snd example_dispatched))) (in_flight (snd example_dispatched))"
    unfolding example_dispatcher_def .
qed

text \<open>
  C26: When the clean-up of a connection that ended succeeds, no checkpoint barrier the connection owned
  is waiting, started or active any more, so none of them can keep the prompt queue paused.
\<close>

theorem disconnect_releases_barriers:
  assumes "co_ok env s0 (wk_co w)" "channel_ok (wk_co w)"
    and "release_checkpoint_barriers env barriers w = (Ok u, w')" "cid \<in> set (map fst barriers)"
  shows "barrier_over (snapshot (co_relay (wk_co w'))) cid \<and> checkpoint_barrier (snapshot (co_relay (wk_co w'))) \<noteq> Some cid"
proof -
  have "worker_ok env s0 w" using assms(1,2) by (simp add: worker_ok_def)
  from wp_ok [OF wp_release [OF this] assms(3)]
  have w': "worker_ok env s0 w'" "barrier_over (snapshot (co_relay (wk_co w'))) cid" using assms(4) by auto
  have "barrier_ok (snapshot (co_relay (wk_co w')))"
    using w'(1) relay_invD(4) by (simp add: worker_ok_def co_ok_def reached_def good_def)
  from barrier_okD(1) [OF this] w'(2) show ?thesis by (auto simp: barrier_over_entry)
qed

definition release_event :: relay_event where
  "release_event =
     (new_event 10 0 (Some ''b'') (CommandInterrupted ''b'' KBeginCheckpoint
        ''checkpoint barrier cancelled because its controller disconnected''))\<lparr>ev_digest := replicate 64 (CHR ''a'')\<rparr>"

definition released_state :: relay_snapshot where
  "released_state =
     (case apply_relay_event (example_env [] []) release_event (example_state 11) of Ok s \<Rightarrow> s | _ \<Rightarrow> example_state 11)"

definition example_release :: "unit relay_result \<times> worker" where
  "example_release =
     release_checkpoint_barriers (example_env [release_event] [released_state]) [(''b'', ())]
       (fresh_worker (example_relay (example_state 11)) example_shells)"

lemma example_release_ok: "fst example_release = Ok ()" "checkpoint_barrier (example_state 11) = Some ''b''"
  by code_simp+

theorem disconnect_releases_barriers_witness:
  "checkpoint_barrier (example_state 11) = Some ''b''
   \<and> barrier_over (snapshot (co_relay (wk_co (snd example_release)))) ''b''
   \<and> checkpoint_barrier (snapshot (co_relay (wk_co (snd example_release)))) \<noteq> Some ''b''"
proof -
  let ?w = "fresh_worker (example_relay (example_state 11)) example_shells" and ?env = "example_env [release_event] [released_state]"
  have ok: "worker_ok ?env (example_state 11) ?w"
    using fresh_worker_ok [of ?env "example_relay (example_state 11)"] example_state_good(1) [OF example_runs(2)]
    by (simp add: example_relay_def opened_relay_def)
  have "release_checkpoint_barriers ?env [(''b'', ())] ?w = (Ok (), snd example_release)"
    using example_release_ok(1) by (metis example_release_def prod.collapse)
  from disconnect_releases_barriers [OF _ _ this, of "example_state 11" "''b''"] ok example_release_ok(2)
  show ?thesis by (simp add: worker_ok_def)
qed



end
