(* ===== verification/Hidden_Context.thy ===== *)
theory Hidden_Context
  imports Relay_Machine
begin

text \<open>
  Hidden prompt context (\<open>src/src/hel_worker.rs\<close>, \<open>strip_hidden_prompt_context\<close> and its helpers):
  the relay prepends reserved XML-like blocks to a prompt, and whatever shows a prompt to a
  person removes them again.
\<close>

section \<open>Searching a string\<close>

text \<open>\<open>str::rfind\<close>: the start of the last occurrence.\<close>

fun rfind :: "string \<Rightarrow> string \<Rightarrow> usize option" where
  "rfind pat [] = (if pat = [] then Some 0 else None)"
| "rfind pat (x # xs) =
     (case rfind pat xs of
        Some i \<Rightarrow> Some (Suc i)
      | None \<Rightarrow> if starts_with (x # xs) pat then Some 0 else None)"

section \<open>The code\<close>

definition reserved_hidden_context_prefix :: "string \<Rightarrow> bool" where
  "reserved_hidden_context_prefix text \<longleftrightarrow>
     starts_with text ''hel-'' \<or> starts_with text ''mj-'' \<or> starts_with text ''user_shell_command''"

definition reserved_hidden_context_tag :: "string \<Rightarrow> bool" where
  "reserved_hidden_context_tag tag \<longleftrightarrow>
     (starts_with tag ''hel-'' \<or> starts_with tag ''mj-'')
       \<and> list_all (\<lambda>b. is_ascii_lowercase b \<or> is_ascii_digit b \<or> b = CHR ''-'') tag
     \<or> tag = ''user_shell_command''"

definition close_tag :: "string \<Rightarrow> string" where
  "close_tag tag = ''</'' @ tag @ ''>''"

text \<open>The \<open>loop\<close>: one call per reserved block that is removed.\<close>

function strip_hidden_prompt_context :: "string \<Rightarrow> string" where
  "strip_hidden_prompt_context text0 =
     (let text = trim_start text0 in
      case text of
        [] \<Rightarrow> text
      | c # after_open \<Rightarrow>
          if c \<noteq> CHR ''<'' then text
          else (case find_byte (CHR ''>'') after_open of
                  None \<Rightarrow> if reserved_hidden_context_prefix after_open then [] else text
                | Some open_end \<Rightarrow>
                    let tag = take open_end after_open in
                    if \<not> reserved_hidden_context_tag tag then text
                    else
                      let body = drop (open_end + 1) after_open in
                      (case rfind (close_tag tag) body of
                         None \<Rightarrow> []
                       | Some close_start \<Rightarrow>
                           strip_hidden_prompt_context
                             (drop (close_start + length (close_tag tag)) body))))"
  by pat_completeness auto
termination
proof (relation "measure length")
  fix text0 t c after_open open_end tag body close_start
  assume "t = trim_start text0" and "t = c # after_open"
  then have "length (c # after_open) \<le> length text0"
    using suffix_length_le [OF trim_start_suffix, of text0] by metis
  moreover assume "body = drop (open_end + 1) after_open"
  ultimately show "(drop (close_start + length (close_tag tag)) body, text0) \<in> measure length" by simp
qed simp

declare strip_hidden_prompt_context.simps [simp del]

section \<open>Occurrences\<close>

lemma rfind_None: "rfind pat s = None \<longleftrightarrow> \<not> sublist pat s"
proof (induction s)
  case (Cons x xs)
  then show ?case by (auto simp: sublist_Cons_right starts_with_iff split: option.splits)
qed simp

lemma rfind_last:
  assumes "pat \<noteq> []" "\<not> sublist pat (tl pat @ rest)"
  shows "rfind pat (body @ pat @ rest) = Some (length body)"
proof (induction body)
  case Nil
  from assms(1) obtain p ps where pat: "pat = p # ps" by (cases pat) auto
  from assms(2) have "rfind pat (ps @ rest) = None" by (simp add: rfind_None pat)
  then show ?case by (simp add: pat starts_with_iff)
qed simp

text \<open>A closing tag overlaps itself nowhere, since \<open><\<close> is only its first byte.\<close>

lemma sublist_appendD:
  assumes "sublist (a # as) (xs @ ys)" "a \<notin> set xs"
  shows "sublist (a # as) ys"
  using assms by (induction xs) (auto simp: sublist_Cons_right)

lemma rfind_close_tag:
  assumes "CHR ''<'' \<notin> set tag" "\<not> sublist (close_tag tag) rest"
  shows "rfind (close_tag tag) (body @ close_tag tag @ rest) = Some (length body)"
proof (rule rfind_last)
  show "close_tag tag \<noteq> []" by (simp add: close_tag_def)
  show "\<not> sublist (close_tag tag) (tl (close_tag tag) @ rest)"
  proof
    assume "sublist (close_tag tag) (tl (close_tag tag) @ rest)"
    with assms(1) sublist_appendD [of "CHR ''<''" "CHR ''/'' # tag @ ''>''" "CHR ''/'' # tag @ ''>''" rest]
    have "sublist (close_tag tag) rest" by (simp add: close_tag_def)
    with assms(2) show False ..
  qed
qed

lemma reserved_tag_bytes:
  assumes "reserved_hidden_context_tag tag"
  shows "CHR ''<'' \<notin> set tag" "CHR ''>'' \<notin> set tag"
  using assms
  by (auto simp: reserved_hidden_context_tag_def list_all_iff is_ascii_lowercase_def is_ascii_digit_def)

lemma trim_start_Cons: "str_ws_len (c # s) = 0 \<Longrightarrow> trim_start (c # s) = c # s"
  by (subst trim_start.simps) simp

lemma trim_start_lt [simp]: "trim_start (CHR ''<'' # s) = CHR ''<'' # s"
  by (rule trim_start_Cons) (simp add: str_ws_len_def)

text \<open>One reserved block is removed up to the last occurrence of its closing tag.\<close>

lemma strip_block:
  assumes "reserved_hidden_context_tag tag" "\<not> sublist (close_tag tag) rest"
  shows "strip_hidden_prompt_context (''<'' @ tag @ ''>'' @ body @ close_tag tag @ rest)
           = strip_hidden_prompt_context rest"
proof -
  note bytes = reserved_tag_bytes [OF assms(1)]
  have tag: "find_byte (CHR ''>'') (tag @ CHR ''>'' # body @ close_tag tag @ rest) = Some (length tag)"
    by (rule find_byte_append [OF bytes(2)])
  show ?thesis
    by (subst strip_hidden_prompt_context.simps)
      (simp add: Let_def tag assms(1) rfind_close_tag [OF bytes(1) assms(2)])
qed

lemma strip_plain:
  assumes "\<not> starts_with (trim_start text) ''<''"
  shows "strip_hidden_prompt_context text = trim_start text"
  using assms by (subst strip_hidden_prompt_context.simps)
    (auto simp: Let_def starts_with_def split: list.splits)

section \<open>What stripping guarantees\<close>

lemma strip_result:
  defines "open_block \<equiv> \<lambda>s tag rest. reserved_hidden_context_tag tag \<and> s = ''<'' @ tag @ ''>'' @ rest"
  shows "suffix (strip_hidden_prompt_context t) t \<and> trim_start (strip_hidden_prompt_context t) = strip_hidden_prompt_context t
    \<and> \<not> (\<exists>tag rest. open_block (strip_hidden_prompt_context t) tag rest)"
proof (induction t rule: strip_hidden_prompt_context.induct)
  case (1 text0)
  let ?t = "trim_start text0"
  have empty: "trim_start [] = []" using trim_start_suffix [of "[]"] by simp
  have keep: ?case if "strip_hidden_prompt_context text0 = ?t" "\<not> (\<exists>tag rest. open_block ?t tag rest)"
    using that trim_start_suffix [of text0] by (simp add: trim_start_idem)
  have hide: ?case if "strip_hidden_prompt_context text0 = []"
    using that empty by (simp add: open_block_def)
  show ?case
  proof (cases "starts_with ?t ''<''")
    case False
    then show ?thesis by (intro keep strip_plain) (auto simp: open_block_def starts_with_def)
  next
    case True
    then obtain a where a: "?t = CHR ''<'' # a" by (cases ?t) (auto simp: starts_with_def)
    note unfold = strip_hidden_prompt_context.simps [of text0, unfolded a Let_def]
    show ?thesis
    proof (cases "find_byte (CHR ''>'') a")
      case None
      then have "CHR ''>'' \<notin> set a" by (simp add: find_byte_None)
      then have "\<not> (\<exists>tag rest. open_block ?t tag rest)" by (auto simp: open_block_def a)
      with None unfold keep hide show ?thesis by (cases "reserved_hidden_context_prefix a") (simp_all add: a)
    next
      case (Some e)
      show ?thesis
      proof (cases "reserved_hidden_context_tag (take e a)")
        case False
        have "\<not> open_block ?t tag rest" for tag rest
        proof
          assume o: "open_block ?t tag rest"
          then have "find_byte (CHR ''>'') a = Some (length tag)" "take (length tag) a = tag"
            by (auto simp: open_block_def a find_byte_append reserved_tag_bytes)
          with Some False o show False by (simp add: open_block_def)
        qed
        with False Some unfold keep show ?thesis by (simp add: a)
      next
        case tag: True
        show ?thesis
        proof (cases "rfind (close_tag (take e a)) (drop (e + 1) a)")
          case None
          with tag Some unfold hide show ?thesis by simp
        next
          case close: (Some i)
          let ?r = "drop (i + length (close_tag (take e a))) (drop (e + 1) a)"
          from close tag Some unfold have "strip_hidden_prompt_context text0 = strip_hidden_prompt_context ?r" by simp
          moreover have "suffix ?r ?t" unfolding a by (intro suffix_ConsI suffix_order.trans [OF suffix_drop suffix_drop])
          then have "suffix ?r text0" using trim_start_suffix suffix_order.trans by blast
          moreover note "1.IH" [OF refl a _ Some refl _ refl close]
          ultimately show ?thesis using tag suffix_order.trans by simp blast
        qed
      qed
    qed
  qed
qed

lemma prompt_context_block:
  "\<exists>b. prompt_context r = ''<'' @ ''user_shell_command'' @ ''>'' @ b @ close_tag ''user_shell_command''"
  by (rule exI [of _ "newline @ ''<command>'' @ escaped (us_command r) @ ''</command>'' @ newline @ ''<result>''
        @ prompt_context_result r @ ''</result>'' @ newline"])
    (simp add: prompt_context_def close_tag_def)

lemma join_contexts_block:
  "rs \<noteq> [] \<Longrightarrow> \<exists>b. join_blank_line (map prompt_context rs)
     = ''<'' @ ''user_shell_command'' @ ''>'' @ b @ close_tag ''user_shell_command''"
proof (induction rs rule: induct_list012)
  case (2 r)
  show ?case using prompt_context_block [of r] by simp
next
  case (3 r r' rs)
  obtain b where b: "prompt_context r = ''<'' @ ''user_shell_command'' @ ''>'' @ b @ close_tag ''user_shell_command''"
    using prompt_context_block by blast
  from "3.IH"(2) obtain b' where "join_blank_line (map prompt_context (r' # rs))
      = ''<'' @ ''user_shell_command'' @ ''>'' @ b' @ close_tag ''user_shell_command''" by auto
  then show ?case
    by (intro exI [of _ "b @ close_tag ''user_shell_command'' @ newline @ newline
          @ ''<'' @ ''user_shell_command'' @ ''>'' @ b'"]) (simp add: b)
qed simp

lemma trim_start_newline: "trim_start (CHR 0x0A # s) = trim_start s"
  by (subst trim_start.simps) (simp add: str_ws_len_def)



definition example_shell :: user_shell_result where
  "example_shell = \<lparr>us_command = ''ls'', us_stdout = ''a<b'', us_stderr = [], us_stdout_truncated = False,
     us_stderr_truncated = False, us_exit_code = Some 0, us_signal = None, us_duration_ms = 12,
     us_status = ShExited, us_error = None\<rparr>"


end
