(* ===== verification/Relay_Durability.thy ===== *)
theory Relay_Durability
  imports Relay_Refinement "HOL-Library.Code_Target_Nat"
begin

text \<open>
  A worker root survives a crash: whatever was appended to the journal before, opening the root again
  gives the snapshot the relay had in memory. This is shown for a session whose history is still in
  the active segment (it has been neither sealed nor collected), with no I/O fault while the root is
  opened.
\<close>

section \<open>Chains of events\<close>

fun chained :: "relay_env \<Rightarrow> u64 \<Rightarrow> string \<Rightarrow> relay_event list \<Rightarrow> bool" where
  "chained env n digest [] = True"
| "chained env n digest (e # es) \<longleftrightarrow>
     validate_relay_event env n digest e = Ok () \<and> chained env (ev_ordinal e) (ev_digest e) es"

fun replay :: "relay_env \<Rightarrow> relay_event list \<Rightarrow> relay_snapshot \<Rightarrow> relay_snapshot relay_result" where
  "replay env [] s = Ok s"
| "replay env (e # es) s = obind (apply_relay_event env e s) (replay env es)"

definition end_digest :: "string \<Rightarrow> relay_event list \<Rightarrow> string" where
  "end_digest digest es = (if es = [] then digest else ev_digest (last es))"

lemma chained_append:
  "chained env n digest (es @ es') \<longleftrightarrow> chained env n digest es \<and> chained env (n + length es) (end_digest digest es) es'"
  by (induction es arbitrary: n digest) (auto simp: end_digest_def validate_relay_event_Ok)

lemma chained_ordinal: "chained env n digest es \<Longrightarrow> i < length es \<Longrightarrow> ev_ordinal (es ! i) = n + 1 + i"
  by (induction es arbitrary: n digest i) (auto simp: validate_relay_event_Ok nth_Cons split: nat.split)

lemma chained_last: "chained env n digest es \<Longrightarrow> es \<noteq> [] \<Longrightarrow> ev_ordinal (last es) = n + length es"
  using chained_ordinal [of env n digest es "length es - 1"] by (simp add: last_conv_nth)

lemma chained_self: "chained env n digest es \<Longrightarrow> e \<in> set es \<Longrightarrow> validate_relay_event_self env e = Ok ()"
  by (induction es arbitrary: n digest) (auto simp: validate_relay_event_Ok)

lemma replay_append: "replay env es s = Ok s1 \<Longrightarrow> replay env (es @ es') s = replay env es' s1"
  by (induction es arbitrary: s) auto

lemma replay_chained:
  assumes "replay env es s = Ok s'"
  shows "chained env (latest_ordinal s) (latest_digest s) es" "latest_ordinal s' = latest_ordinal s + length es"
    "latest_digest s' = end_digest (latest_digest s) es"
proof -
  have "chained env (latest_ordinal s) (latest_digest s) es \<and> latest_ordinal s' = latest_ordinal s + length es
    \<and> latest_digest s' = end_digest (latest_digest s) es"
    using assms
  proof (induction es arbitrary: s)
    case (Cons e es)
    from Cons.prems obtain s1 where s1: "apply_relay_event env e s = Ok s1" "replay env es s1 = Ok s'"
      by auto
    from Cons.IH [OF s1(2)] s1(1) apply_relay_event_frontier [OF s1(1)] show ?case by (auto simp: end_digest_def apply_relay_event_Ok)
  qed (simp add: end_digest_def)
  then show "chained env (latest_ordinal s) (latest_digest s) es" "latest_ordinal s' = latest_ordinal s + length es"
    "latest_digest s' = end_digest (latest_digest s) es" by simp_all
qed

section \<open>Visiting a segment that holds events\<close>

fun feed :: "relay_env \<Rightarrow> 's visitor \<Rightarrow> relay_event list \<Rightarrow> ('s, relay_err, unit) meth" where
  "feed env visitor [] s = (Ok (), s)"
| "feed env visitor (e # es) s =
     (case visitor e (length (event_json env e)) s of
        (Ok stop, s') \<Rightarrow> if stop then (Ok (), s') else feed env visitor es s'
      | (Err err, s') \<Rightarrow> (Err err, s')
      | (Diverges, s') \<Rightarrow> (Diverges, s'))"

definition journal_of :: "relay_env \<Rightarrow> relay_event list \<Rightarrow> string" where
  "journal_of env es = journal_bytes (map (event_json env) es) []"

definition log_fits :: "relay_env \<Rightarrow> relay_event list \<Rightarrow> bool" where
  "log_fits env es \<longleftrightarrow>
     (\<forall>e \<in> set es. length (event_json env e) \<le> RELAY_EVENT_BYTE_BUDGET) \<and> length (journal_of env es) \<le> u64_max"

lemma visit_lines_feed:
  assumes "env_ok env" "mode \<noteq> Recover"
  shows "visit_lines env mode visitor at gaps (map (event_json env) es) [] s =
     (case feed env visitor es s of
        (Ok _, s') \<Rightarrow> (Ok \<lparr>truncate_to = None, scan_gaps = gaps\<rparr>, s')
      | (Err e, s') \<Rightarrow> (Err e, s') | (Diverges, s') \<Rightarrow> (Diverges, s'))"
proof (induction es arbitrary: at s)
  case (Cons e es)
  obtain res s' where v: "visitor e (length (event_json env e)) s = (res, s')" by fastforce
  show ?case
    using assms(2) by (cases res) (simp_all add: env_okD [OF assms(1)] v Let_def Cons.IH)
qed simp

lemma active_not_gz: "\<not> has_gz_extension RELAY_ACTIVE_SEGMENT"
  by (simp add: has_gz_extension_def RELAY_ACTIVE_SEGMENT_def suffix_to_prefix)

lemma visit_active:
  assumes "env_ok env" "mode \<noteq> Recover" "log_fits env es" "faults d = []"
    and "bt_get (journal_dir d) RELAY_ACTIVE_SEGMENT = Some (journal_of env es)"
    and "feed env visitor es (d, l) = (Ok (), s')"
  shows "visit_relay_journal_file env RELAY_ACTIVE_SEGMENT mode visitor (d, l) = (Ok [], s')"
proof -
  have pop: "pop_fault d = d" using assms(4) by (simp add: pop_fault_def)
  have "visit_relay_journal_reader env mode visitor 0 [] [Data (journal_of env es)] (d, l) =
      visit_lines env mode visitor 0 [] (map (event_json env) es) [] (d, l)"
    using assms(3) events_fit [OF assms(1)]
    by (intro visit_reader_lines) (simp_all add: journal_of_def log_fits_def fits_line_def)
  also have "\<dots> = (Ok \<lparr>truncate_to = None, scan_gaps = []\<rparr>, s')"
    by (simp add: visit_lines_feed [OF assms(1,2)] assms(6))
  finally show ?thesis
    using assms(4) by (simp add: visit_relay_journal_file_def assms(5) active_not_gz
        rbind_def rget_def rret_def rseq_def on_fst_def open_reader_def next_fault_def pop repair_tail_def)
qed

text \<open>The visitors that only change their locals.\<close>

lemma feed_inspect_rest:
  assumes "chained env (ev_ordinal p) (ev_digest p) es" "\<forall>e \<in> set es. length (event_json env e) \<le> RELAY_EVENT_BYTE_BUDGET"
  shows "feed env (inspect_visitor env) es (d, first, Some p) = (Ok (), d, first, Some (last (p # es)))"
  using assms
proof (induction es arbitrary: p)
  case (Cons e es)
  then show ?case
    by (simp add: inspect_visitor_def rbind_def rseq_def rget_def rlift_def rmodify_def rret_def ensure_byte_budget_def)
qed simp

lemma feed_inspect:
  assumes "chained env n digest es" "\<forall>e \<in> set es. length (event_json env e) \<le> RELAY_EVENT_BYTE_BUDGET" "es \<noteq> []"
  shows "feed env (inspect_visitor env) es (d, None, None) = (Ok (), d, Some (hd es), Some (last es))"
proof (cases es)
  case (Cons e rest)
  have "validate_relay_event_self env e = Ok ()" using chained_self [OF assms(1)] Cons by simp
  with feed_inspect_rest [of env e rest d "Some e"] assms show ?thesis
    by (simp add: Cons inspect_visitor_def rbind_def rseq_def rget_def rlift_def rmodify_def rret_def ensure_byte_budget_def)
qed (use assms(3) in simp)

lemma feed_recover_old:
  assumes "\<forall>e \<in> set es. ev_ordinal e < boundary"
  shows "feed env (recover_visitor env span boundary) (es @ es') (d, t) = feed env (recover_visitor env span boundary) es' (d, t)"
  using assms
  by (induction es) (simp_all add: recover_visitor_def recover_event_def rbind_def rseq_def rget_def rlift_def rmodify_def rret_def)

lemma feed_recover_new:
  assumes "replay env es s = Ok s'" "boundary \<le> latest_ordinal s"
  shows "\<exists>hot. feed env (recover_visitor env span boundary) es
      (d, \<lparr>tr_ordinal = latest_ordinal s, tr_digest = latest_digest s, tr_snapshot = s, tr_hot = h, tr_boundary_verified = True\<rparr>) =
    (Ok (), d, \<lparr>tr_ordinal = latest_ordinal s', tr_digest = latest_digest s', tr_snapshot = s', tr_hot = hot, tr_boundary_verified = True\<rparr>)
    \<and> (es \<noteq> [] \<longrightarrow> hot \<noteq> [] \<and> last hot = last es) \<and> (es = [] \<longrightarrow> hot = h)"
  using assms
proof (induction es arbitrary: s h)
  case (Cons e es)
  from Cons.prems(1) obtain s1 where s1: "apply_relay_event env e s = Ok s1" "replay env es s1 = Ok s'" by auto
  note fr = apply_relay_event_frontier [OF s1(1)]
  have "validate_relay_event env (latest_ordinal s) (latest_digest s) e = Ok ()" using s1(1) by (simp add: apply_relay_event_Ok)
  with s1(1) fr Cons.prems(2) have "recover_visitor env span boundary e k
      (d, \<lparr>tr_ordinal = latest_ordinal s, tr_digest = latest_digest s, tr_snapshot = s, tr_hot = h, tr_boundary_verified = True\<rparr>)
    = (Ok False, d, \<lparr>tr_ordinal = latest_ordinal s1, tr_digest = latest_digest s1, tr_snapshot = s1, tr_hot = push_hot h e, tr_boundary_verified = True\<rparr>)" for k
    by (simp add: recover_visitor_def recover_event_def rbind_def rseq_def rget_def rlift_def rmodify_def rret_def)
  moreover have "boundary \<le> latest_ordinal s1" using Cons.prems(2) fr by simp
  ultimately show ?case
    using Cons.IH [OF s1(2), of "push_hot h e"] by (cases "es = []") (auto simp: push_hot_def)
qed simp

lemma feed_recent_rest:
  assumes "chained env (ev_ordinal p) (ev_digest p) es"
  shows "feed env (recent_visitor env span latest) es (d, Some p, evs) =
    (Ok (), d, Some (last (p # es)), evs @ filter (\<lambda>e. ev_ordinal e > after_ordinal span \<and> ev_ordinal e \<le> latest) es)"
  using assms
proof (induction es arbitrary: p evs)
  case (Cons e es)
  then show ?case
    by (simp add: recent_visitor_def rbind_def rseq_def rget_def rlift_def rmodify_def rret_def)
qed simp

lemma feed_recent:
  assumes "chained env n digest es" "es \<noteq> []"
  shows "feed env (recent_visitor env span latest) es (d, None, []) =
    (Ok (), d, Some (last es), filter (\<lambda>e. ev_ordinal e > after_ordinal span \<and> ev_ordinal e \<le> latest) es)"
proof (cases es)
  case (Cons e rest)
  have "validate_relay_event_self env e = Ok ()" using chained_self [OF assms(1)] Cons by simp
  with feed_recent_rest [of env e rest span latest d] assms show ?thesis
    by (simp add: Cons recent_visitor_def rbind_def rseq_def rget_def rlift_def rmodify_def rret_def)
qed (use assms(2) in simp)

lemma fill_recent_keeps: "recent \<noteq> [] \<Longrightarrow> fill_recent xs recent \<noteq> [] \<and> last (fill_recent xs recent) = last recent"
  by (induction xs arbitrary: recent) auto

lemma fill_recent_last: "xs \<noteq> [] \<Longrightarrow> fill_recent (rev xs) [] \<noteq> [] \<and> last (fill_recent (rev xs) []) = last xs"
  by (cases xs rule: rev_cases) (use fill_recent_keeps in \<open>auto simp: RELAY_HOT_EVENT_CAPACITY_def\<close>)

section \<open>What a root holds\<close>

definition frontiers_agree :: "relay_snapshot \<Rightarrow> bool" where
  "frontiers_agree s \<longleftrightarrow>
     (acknowledged_through s = recovery_floor_ordinal s \<longrightarrow> acknowledged_digest s = recovery_floor_digest s)
     \<and> (acknowledged_through s = latest_ordinal s \<longrightarrow> acknowledged_digest s = latest_digest s)
     \<and> (recovery_floor_ordinal s = latest_ordinal s \<longrightarrow> recovery_floor_digest s = latest_digest s)"

definition storable :: "relay_env \<Rightarrow> string \<Rightarrow> relay_snapshot \<Rightarrow> bool" where
  "storable env sid s \<longleftrightarrow>
     format_version s = RELAY_STATE_VERSION \<and> session_id s = sid \<and> validate_relay_snapshot_frontiers s = Ok ()
     \<and> frontiers_agree s \<and> length (snapshot_json env s) \<le> RELAY_SNAPSHOT_BYTE_BUDGET"

definition active_dir :: "relay_env \<Rightarrow> relay_event list \<Rightarrow> (string, string) btree" where
  "active_dir env es = (if es = [] then [] else [(RELAY_ACTIVE_SEGMENT, journal_of env es)])"

text \<open>
  The root holds \<open>s\<close>: the stored snapshot covers the events \<open>old\<close>, and replaying \<open>new\<close> on it gives \<open>s\<close>.
\<close>

definition holds :: "relay_env \<Rightarrow> string \<Rightarrow> relay_disk \<Rightarrow> relay_snapshot \<Rightarrow> relay_event list \<Rightarrow> relay_event list \<Rightarrow> relay_snapshot \<Rightarrow> bool" where
  "holds env sid d sp old new s \<longleftrightarrow>
     root_present d \<and> seed_file d = None \<and> journal_dir d = active_dir env (old @ new)
     \<and> (state_file d = None \<and> sp = new_snapshot sid \<or> state_file d = Some (snapshot_json env sp))
     \<and> storable env sid sp \<and> chained env 0 RELAY_EVENT_GENESIS_DIGEST old
     \<and> latest_ordinal sp = length old \<and> latest_digest sp = end_digest RELAY_EVENT_GENESIS_DIGEST old
     \<and> replay env new sp = Ok s \<and> log_fits env (old @ new)"

lemma holds_chained:
  assumes "holds env sid d sp old new s"
  shows "chained env 0 RELAY_EVENT_GENESIS_DIGEST (old @ new)" "latest_ordinal s = length (old @ new)"
  using assms replay_chained [of env new sp s] by (simp_all add: holds_def chained_append)

section \<open>Opening\<close>

lemma rbind_Ok: "m s = (Ok x, s') \<Longrightarrow> rbind m f s = f x s'"
  by (simp add: rbind_def)

lemma rseq_Ok: "m s = (Ok x, s') \<Longrightarrow> rseq m m' s = m' s'"
  by (simp add: rseq_def rbind_def)

lemma rlift_Ok: "res = Ok x \<Longrightarrow> rlift res s = (Ok x, s)"
  by (simp add: rlift_def)

lemma io_call_fine: "faults d = [] \<Longrightarrow> io_call d = (Ok (), d)"
  by (simp add: io_call_def io_op_def next_fault_def pop_fault_def)

definition active_file :: "relay_event list \<Rightarrow> relay_journal_span" where
  "active_file es =
     \<lparr>span_path = RELAY_ACTIVE_SEGMENT, file_first_ordinal = ev_ordinal (hd es),
      file_first_previous_digest = nonempty_digest (ev_previous_digest (hd es)),
      file_last_ordinal = ev_ordinal (last es), file_last_digest = Some (ev_digest (last es)), after_ordinal = 0\<rparr>"

lemma journal_files_active:
  assumes "env_ok env" "faults d = []" "root_present d" "journal_dir d = active_dir env es" "log_fits env es" "chained env n digest es"
  shows "journal_files env d = (Ok (if es = [] then [] else [active_file es]), d)"
proof (cases "es = []")
  case True
  then show ?thesis
    using assms by (simp add: journal_files_def rbind_def rseq_def rget_def rwhen_def rret_def io_call_fine segment_names_def active_dir_def)
next
  case False
  have "visit_relay_journal_file env RELAY_ACTIVE_SEGMENT RepairTail (inspect_visitor env) (d, None, None)
      = (Ok [], d, Some (hd es), Some (last es))"
    using assms False feed_inspect [of env n digest es d]
    by (intro visit_active) (auto simp: active_dir_def log_fits_def bt_get_def)
  then have "inspect_relay_journal_file env RELAY_ACTIVE_SEGMENT True d = (Ok (Some (active_file es)), d)"
    by (simp add: inspect_relay_journal_file_def with_local_def rbind_def rret_def active_file_def zip_option_def)
  then show ?thesis
    using assms(2-4) False
    by (simp add: journal_files_def rbind_def rseq_def rget_def rwhen_def rret_def io_call_fine segment_names_def active_dir_def
        segment_metadata_def)
qed

lemma frontiers_below:
  "storable env sid s \<Longrightarrow> acknowledged_through s \<le> latest_ordinal s \<and> recovery_floor_ordinal s \<le> latest_ordinal s"
  by (auto simp: storable_def validate_relay_snapshot_frontiers_def split: if_splits)

lemma retained_checks:
  assumes "storable env sid s" "latest_ordinal s \<le> journal_latest"
  shows "check_retained_digest (retained_through s) (retained_digest s) (original_frontiers s) = Ok ()"
    and "check_frontiers_retained (retained_through s) journal_latest (original_frontiers s) = Ok ()"
  using assms frontiers_below [OF assms(1)]
  by (auto simp: storable_def frontiers_agree_def check_retained_digest_def check_frontiers_retained_def original_frontiers_def
      retained_through_def retained_digest_def min_def split: if_splits)

lemma assemble_active:
  assumes "chained env 0 digest es" "es \<noteq> []" "retained \<le> length es" "length es \<le> u64_max"
  shows "assemble_spans [active_file es] (length es) retained =
    Ok (if retained < length es then [(active_file es)\<lparr>after_ordinal := retained\<rparr>] else [])"
proof -
  have ends: "file_first_ordinal (active_file es) = 1" "file_last_ordinal (active_file es) = length es"
    using chained_ordinal [OF assms(1), of 0] chained_last [OF assms(1,2)] assms(2) by (simp_all add: active_file_def hd_conv_nth)
  have stop: "assemble_spans [active_file es] (length es) (length es) = Ok []" by (subst assemble_spans.simps) simp
  show ?thesis
    using assms(3,4) ends
    by (subst assemble_spans.simps) (auto simp: span_candidate_def stop checked_add_u64_def)
qed

lemma recover_active:
  assumes "env_ok env" "faults d = []" "holds env sid d sp old new s" "old @ new \<noteq> []" "new \<noteq> []" "span_path span = RELAY_ACTIVE_SEGMENT"
    and "file_first_ordinal span = 1" "file_last_ordinal span = length (old @ new)"
  shows "\<exists>hot. recover_span env span \<lparr>tr_ordinal = latest_ordinal sp, tr_digest = latest_digest sp, tr_snapshot = sp, tr_hot = [],
      tr_boundary_verified = False\<rparr> d =
    (Ok \<lparr>tr_ordinal = latest_ordinal s, tr_digest = latest_digest s, tr_snapshot = s, tr_hot = hot, tr_boundary_verified = True\<rparr>, d)
    \<and> hot \<noteq> [] \<and> last hot = last new"
proof -
  note h = assms(3) [unfolded holds_def]
  let ?b = "latest_ordinal sp"
  let ?t = "\<lambda>v. \<lparr>tr_ordinal = ?b, tr_digest = latest_digest sp, tr_snapshot = sp, tr_hot = [], tr_boundary_verified = v\<rparr>"
  from h feed_recover_new [of env new sp s ?b span d "[]"] assms(5) obtain hot where
    new: "feed env (recover_visitor env span ?b) new (d, ?t True) =
      (Ok (), d, \<lparr>tr_ordinal = latest_ordinal s, tr_digest = latest_digest s, tr_snapshot = s, tr_hot = hot, tr_boundary_verified = True\<rparr>)"
    and hot: "hot \<noteq> []" "last hot = last new" by blast
  have "feed env (recover_visitor env span ?b) (old @ new) (d, ?t (?b = 0)) = feed env (recover_visitor env span ?b) new (d, ?t True)"
  proof (cases old rule: rev_cases)
    case Nil
    then show ?thesis using h by simp
  next
    case (snoc before e)
    have ord: "ev_ordinal e = ?b" "ev_digest e = latest_digest sp"
      using h chained_last [of env 0 RELAY_EVENT_GENESIS_DIGEST old] by (simp_all add: snoc end_digest_def)
    have "\<forall>x \<in> set before. ev_ordinal x < ?b"
    proof
      fix x assume "x \<in> set before"
      then obtain i where "i < length before" "before ! i = x" by (auto simp: in_set_conv_nth)
      with h chained_ordinal [of env 0 RELAY_EVENT_GENESIS_DIGEST old i] show "ev_ordinal x < ?b" by (simp add: snoc nth_append)
    qed
    from feed_recover_old [OF this, of env span "e # new" d] show ?thesis
      using ord by (simp add: snoc recover_visitor_def recover_event_def rbind_def rseq_def rget_def rlift_def rmodify_def rret_def)
  qed
  then have "visit_relay_journal_file env RELAY_ACTIVE_SEGMENT Strict (recover_visitor env span ?b) (d, ?t (?b = 0)) =
      (Ok [], d, \<lparr>tr_ordinal = latest_ordinal s, tr_digest = latest_digest s, tr_snapshot = s, tr_hot = hot, tr_boundary_verified = True\<rparr>)"
    using h assms(1,2,4) new by (intro visit_active) (auto simp: active_dir_def bt_get_def)
  moreover have "length (old @ new) = latest_ordinal s" "?b < latest_ordinal s" "(1 = saturating_add_u64 ?b 1) = (?b = 0)"
    using h holds_chained(2) [OF assms(3)] assms(5) by (auto simp: saturating_add_u64_def u64_max_def min_def split: if_splits)
  ultimately show ?thesis
    using hot assms(6-8) by (simp add: recover_span_def Let_def with_local_def rbind_def rret_def)
qed

lemma recent_active:
  assumes "env_ok env" "faults d = []" "holds env sid d sp old new s" "old @ new \<noteq> []" "span_path span = RELAY_ACTIVE_SEGMENT"
    and "after_ordinal span < length (old @ new)"
  shows "\<exists>hot. read_recent env (latest_ordinal s) [span] [] d = (Ok hot, d) \<and> hot \<noteq> [] \<and> last hot = last (old @ new)"
proof -
  note h = assms(3) [unfolded holds_def] and ch = holds_chained [OF assms(3)]
  let ?es = "old @ new" and ?P = "\<lambda>e. ev_ordinal e > after_ordinal span \<and> ev_ordinal e \<le> latest_ordinal s"
  have "visit_relay_journal_file env RELAY_ACTIVE_SEGMENT Strict (recent_visitor env span (latest_ordinal s)) (d, None, []) =
      (Ok [], d, Some (last ?es), filter ?P ?es)"
    using h assms(1,2,4) feed_recent [OF ch(1) assms(4), of span "latest_ordinal s" d]
    by (intro visit_active) (auto simp: active_dir_def bt_get_def)
  moreover have "?P (last ?es)" using chained_last [OF ch(1) assms(4)] ch(2) assms(6) by simp
  then have "filter ?P ?es \<noteq> []" "last (filter ?P ?es) = last ?es"
    by (metis (no_types, lifting) assms(4) filter_empty_conv last_in_set)
      (metis (no_types, lifting) \<open>?P (last ?es)\<close> append_butlast_last_id assms(4) filter.simps filter_append last_snoc)
  ultimately show ?thesis
    using fill_recent_last [of "filter ?P ?es"] assms(5)
    by (simp add: with_local_def rbind_def rret_def Let_def del: filter_append)
qed

lemma open_active:
  assumes "env_ok env" "faults d = []" "holds env sid d sp old new s" "length (old @ new) \<le> u64_max"
  shows "\<exists>spans hot. open_relay_journal env (retained_through sp) (retained_digest sp) (latest_ordinal sp) sp d = (Ok (spans, hot, s), d)"
proof -
  note h = assms(3) [unfolded holds_def] and ch = holds_chained [OF assms(3)]
  let ?es = "old @ new" and ?r = "retained_through sp"
  have sp: "storable env sid sp" "latest_ordinal sp = length old" using h by simp_all
  have ret: "?r \<le> length old" using frontiers_below [OF sp(1)] sp(2) by (auto simp: retained_through_def min_def)
  have files: "journal_files env d = (Ok (if ?es = [] then [] else [active_file ?es]), d)"
    using h ch(1) by (intro journal_files_active [OF assms(1,2)]) auto
  show ?thesis
  proof (cases "?es = []")
    case True
    then have "sp = s" "?r = 0" "latest_ordinal s = 0" using h ret by auto
    then show ?thesis
      using True files retained_checks [OF sp(1), of 0] sp(2)
      by (simp add: open_relay_journal_def rbind_def rseq_def rlift_def rret_def Let_def latest_of_files_def assemble_spans.simps
          check_frontier_event_def keep_active_span_def RELAY_HOT_EVENT_CAPACITY_def)
  next
    case False
    let ?f = "active_file ?es" and ?n = "length ?es"
    have ends: "file_first_ordinal ?f = 1" "file_last_ordinal ?f = ?n" "span_path ?f = RELAY_ACTIVE_SEGMENT"
      using chained_ordinal [OF ch(1), of 0] chained_last [OF ch(1) False] False by (simp_all add: active_file_def hd_conv_nth)
    have latest: "latest_of_files ?r [?f] = ?n" by (simp add: latest_of_files_def ends)
    note spans = assemble_active [OF ch(1) False, of ?r] and checks = retained_checks [OF sp(1), of ?n]
    have digest: "latest_digest s = ev_digest (last ?es)"
      using h replay_chained(3) [of env new sp s] False by (auto simp: end_digest_def)
    have front: "check_frontier_event ?r s hot = Ok ()" if "hot \<noteq> []" "last hot = last ?es" for hot
      using that digest chained_last [OF ch(1) False] ch(2) by (simp add: check_frontier_event_def)
    let ?span = "?f\<lparr>after_ordinal := ?r\<rparr>"
    let ?t = "\<lparr>tr_ordinal = latest_ordinal sp, tr_digest = latest_digest sp, tr_snapshot = sp, tr_hot = [], tr_boundary_verified = False\<rparr>"
    have steps: "open_relay_journal env ?r (retained_digest sp) (latest_ordinal sp) sp d =
      rbind (rfold (recover_span env) spans ?t) (\<lambda>t.
         rbind (if length (tr_hot t) < RELAY_HOT_EVENT_CAPACITY
                then read_recent env (latest_ordinal (tr_snapshot t)) (rev spans) [] else rret (tr_hot t)) (\<lambda>hot.
         rseq (rlift (check_frontier_event ?r (tr_snapshot t) hot))
         (rbind (keep_active_span [?f] (if spans = [] then ?r else file_last_ordinal (last spans)) spans) (\<lambda>spans'.
          rret (spans', hot, tr_snapshot t))))) d"
      if "assemble_spans [?f] ?n ?r = Ok spans" for spans
    proof -
      have n: "\<not> ?n < latest_ordinal sp" using sp(2) by simp
      have checks: "check_retained_digest ?r (retained_digest sp) (original_frontiers sp) = Ok ()"
        "check_frontiers_retained ?r ?n (original_frontiers sp) = Ok ()" using checks n by simp_all
      show ?thesis
        unfolding open_relay_journal_def rbind_Ok [of "journal_files env" d, OF files [unfolded if_not_P [OF False]]] Let_def latest
          rseq_Ok [of "rlift _", OF rlift_Ok [OF checks(1)]] rbind_Ok [of "rlift _", OF rlift_Ok [OF that]] if_not_P [OF n]
          rseq_Ok [of "rlift _", OF rlift_Ok [OF checks(2)]] ..
    qed
    show ?thesis
    proof (cases "?r < ?n")
      case True
      note steps = steps [OF spans [OF _ assms(4), unfolded if_P [OF True]]]
      obtain hot where recent: "read_recent env (latest_ordinal s) [?span] [] d = (Ok hot, d)" "hot \<noteq> []" "last hot = last ?es"
        using recent_active [OF assms(1-3) False, of ?span] True ends(3) by auto
      obtain h where rec: "recover_span env ?span ?t d =
          (Ok \<lparr>tr_ordinal = latest_ordinal s, tr_digest = latest_digest s, tr_snapshot = s, tr_hot = h, tr_boundary_verified = (new \<noteq> [])\<rparr>, d)"
        "h \<noteq> [] \<Longrightarrow> last h = last ?es"
      proof (cases "new = []")
        case True
        with h sp(2) ends show ?thesis by (intro that [of "[]"]) (simp_all add: recover_span_def rret_def)
      next
        case new: False
        from recover_active [OF assms(1-3) False this, of ?span] ends show ?thesis by (auto intro!: that simp: new)
      qed
      show ?thesis
      proof (cases "length h < RELAY_HOT_EVENT_CAPACITY")
        case True
        with steps ret rec recent front [OF recent(2,3)] ends show ?thesis
          by (simp add: rbind_def rseq_def rlift_def rret_def keep_active_span_def del: read_recent.simps)
      next
        case False
        then have "h \<noteq> []" by (auto simp: RELAY_HOT_EVENT_CAPACITY_def)
        with steps ret False rec front [of h] ends show ?thesis
          by (simp add: rbind_def rseq_def rlift_def rret_def keep_active_span_def del: read_recent.simps)
      qed
    next
      case False
      then have "length new = 0" "?r = ?n" using ret unfolding length_append by linarith+
      moreover from this(1) h have "new = []" "sp = s" by simp_all
      ultimately show ?thesis using steps [OF spans] assms(4) ch(2) ends
        by (simp add: rbind_def rseq_def rlift_def rret_def keep_active_span_def check_frontier_event_def RELAY_HOT_EVENT_CAPACITY_def)
    qed
  qed
qed

lemma load_snapshot_holds:
  assumes "env_ok env" "faults d = []" "holds env sid d sp old new s"
  shows "load_snapshot env sid d = (Ok sp, d)"
proof -
  have sp: "format_version sp = RELAY_STATE_VERSION" "session_id sp = sid" "length (snapshot_json env sp) \<le> RELAY_SNAPSHOT_BYTE_BUDGET"
    and d: "seed_file d = None" "state_file d = None \<and> sp = new_snapshot sid \<or> state_file d = Some (snapshot_json env sp)"
    using assms(3) by (simp_all add: holds_def storable_def)
  have "check_stored_snapshot sid sp = Ok sp" using sp by (simp add: check_stored_snapshot_def)
  with sp(3) d show ?thesis
    by (auto simp: load_snapshot_def read_restored_relay_seed_def rbind_def rget_def rseq_def rlift_def rret_def
        io_call_fine [OF assms(2)] ensure_byte_budget_def env_okD [OF assms(1)])
qed

text \<open>Opening a root reads back the snapshot it holds.\<close>

lemma load_holds:
  assumes "env_ok env" "faults d = []" "holds env sid d sp old new s" "validate_identifier sid ''session ID'' = Ok ()"
    and "length (old @ new) \<le> u64_max" "state_size env (snapshot_operational_state s) \<le> RELAY_STATE_BYTE_BUDGET"
  shows "\<exists>spans hot. load_relay env sid d = (Ok (latest_ordinal sp, spans, hot, s), d)"
proof -
  obtain spans hot where op: "open_relay_journal env (retained_through sp) (retained_digest sp) (latest_ordinal sp) sp d = (Ok (spans, hot, s), d)"
    using open_active [OF assms(1-3,5)] by blast
  have root: "io_op (\<lambda>d. d\<lparr>root_present := True\<rparr>) d = (Ok (), d)"
    using assms(2,3) by (simp add: io_op_def next_fault_def pop_fault_def holds_def)
  have "validate_relay_snapshot_frontiers sp = Ok ()" using assms(3) by (simp add: holds_def storable_def)
  with op root assms(4,6) load_snapshot_holds [OF assms(1-3)] show ?thesis
    by (simp add: load_relay_def rbind_def rseq_def rlift_def rret_def ensure_serialized_budget_def ensure_byte_budget_def)
qed

section \<open>Appending\<close>

definition contents :: "relay_disk \<Rightarrow> bool \<times> string option \<times> string option \<times> (string, string) btree" where
  "contents d = (root_present d, state_file d, seed_file d, journal_dir d)"

lemma wp_io_op_contents:
  assumes "\<And>d'. contents d' = contents (f (pop_fault d)) \<Longrightarrow> Q () d'"
  shows "wp (io_op f) Q (\<lambda>_. True) d"
  using assms by (simp add: wp_def io_op_def)

lemma wp_io_call_contents:
  assumes "\<And>d'. contents d' = contents d \<Longrightarrow> Q () d'"
  shows "wp io_call Q (\<lambda>_. True) d"
  unfolding io_call_def by (rule wp_io_op_contents) (use assms in \<open>simp add: contents_def pop_fault_def\<close>)

lemma wp_write_all_contents:
  assumes "\<And>d'. contents d' = contents (append_bytes name bytes d) \<Longrightarrow> Q () d'"
  shows "wp (write_all name bytes) Q (\<lambda>_. True) d"
  using assms by (auto simp: wp_def write_all_def contents_def append_bytes_def pop_fault_def split: io_fault.split)

lemma active_dir_append:
  "bt_modify RELAY_ACTIVE_SEGMENT (\<lambda>b. b @ event_json env ev @ [CHR 0x0A])
     (if es = [] then bt_insert RELAY_ACTIVE_SEGMENT [] [] else active_dir env es) = active_dir env (es @ [ev])"
  by (simp add: active_dir_def bt_modify_def journal_of_def journal_bytes_def)

lemma wp_append_line:
  assumes "contents d = (True, st, seed, active_dir env es)"
    and Q: "\<And>d'. contents d' = (True, st, seed, active_dir env (es @ [ev])) \<Longrightarrow> Q () d'"
  shows "wp (append_line (event_json env ev @ [CHR 0x0A])) Q (\<lambda>_. True) d"
proof -
  have sync: "wp (rseq io_call (rwhen b io_call)) Q (\<lambda>_. True) d'" if "contents d' = (True, st, seed, active_dir env (es @ [ev]))" for d' b
    unfolding wp_rseq by (rule wp_io_call_contents) (use that in \<open>auto simp: wp_rwhen intro!: wp_io_call_contents Q\<close>)
  let ?dir = "if es = [] then bt_insert RELAY_ACTIVE_SEGMENT [] [] else active_dir env es"
  have body: "wp (rseq (write_all RELAY_ACTIVE_SEGMENT (event_json env ev @ [CHR 0x0A])) (rseq io_call (rwhen b io_call))) Q (\<lambda>_. True) d'"
    if "contents d' = (True, st, seed, ?dir)" for d' b
    unfolding wp_rseq [of "write_all _ _"]
    by (rule wp_write_all_contents, rule sync) (use that active_dir_append [of env ev es] in \<open>simp add: contents_def append_bytes_def\<close>)
  show ?thesis
    unfolding append_line_def open_append_def wp_rbind wp_rget wp_rseq [of "rbind _ _"]
    using assms(1) unfolding contents_def
    by (auto simp: active_dir_def file_exists_def bt_contains_def bt_get_def set_file_def pop_fault_def contents_def
        intro!: wp_io_op_contents body)
qed

lemma wp_seal_below:
  assumes "contents (disk r) = (True, st, seed, active_dir env es)" "length (journal_of env es) < relay_segment_byte_limit"
    and "\<And>d. contents d = contents (disk r) \<Longrightarrow> Q () (r\<lparr>disk := d\<rparr>)" "Q () r"
  shows "wp (seal_active_segment_if_needed env) Q (\<lambda>_. True) r"
proof (cases "es = []")
  case True
  with assms(1,4) show ?thesis by (simp add: seal_active_segment_if_needed_def wp_simps contents_def active_dir_def bt_get_def)
next
  case False
  with assms(1) have "bt_get (journal_dir (disk r)) RELAY_ACTIVE_SEGMENT = Some (journal_of env es)"
    by (simp add: contents_def active_dir_def bt_get_def)
  with assms(2,3) show ?thesis
    unfolding seal_active_segment_if_needed_def wp_rbind wp_rget by (auto simp: wp_simps intro!: wp_io_call_contents)
qed

lemma wp_persist_contents:
  assumes "contents (disk r) = (True, st, seed, dir)"
    and "\<And>d r'. contents d = (True, Some (snapshot_json env (snapshot r)), seed, dir) \<Longrightarrow> disk r' = d \<Longrightarrow> snapshot r' = snapshot r \<Longrightarrow> Q () r'"
  shows "wp (persist_snapshot env) Q (\<lambda>_. True) r"
proof -
  let ?body = "snapshot_json env (snapshot r)"
  have "wp (atomic_write_existing ?body) P (\<lambda>_. True) d"
    if "contents d = (True, st, seed, dir)" "\<And>d'. contents d' = (True, Some ?body, seed, dir) \<Longrightarrow> P () d'" for P d
    using that(1) unfolding atomic_write_existing_def wp_rbind wp_rget
    by (auto simp: wp_rseq contents_def pop_fault_def intro!: wp_io_call_contents wp_io_op_contents that(2))
  then show ?thesis
    using assms by (simp add: persist_snapshot_def persist_relay_snapshot_def Let_def wp_simps split: outcome.split)
qed

text \<open>What a successful append leaves: one more line, the event's, and the snapshot it leads to.\<close>

definition logged :: "relay_env \<Rightarrow> relay_event list \<Rightarrow> durable_relay \<Rightarrow> durable_relay \<Rightarrow> bool" where
  "logged env es r r' \<longleftrightarrow> (\<exists>ev.
     apply_relay_event env ev (snapshot r) = Ok (snapshot r') \<and> length (event_json env ev) \<le> RELAY_EVENT_BYTE_BUDGET
     \<and> root_present (disk r') \<and> seed_file (disk r') = seed_file (disk r) \<and> journal_dir (disk r') = active_dir env (es @ [ev])
     \<and> (state_file (disk r') = state_file (disk r) \<or> state_file (disk r') = Some (snapshot_json env (snapshot r'))))"

lemma wp_publish_contents:
  assumes "stage_event env ev (snapshot r) = Ok staged"
    and "\<And>r'. apply_relay_event env ev (snapshot r) = Ok (snapshot r') \<Longrightarrow> disk r' = disk r \<Longrightarrow> Q () r'"
  shows "wp (publish_event env ev staged) Q (\<lambda>_. True) r"
  using assms by (cases staged)
    (auto simp: publish_event_def wp_simps push_hot_event_def record_journal_append_def dest: stage_event_Ok split: outcome.splits)

lemma wp_append_logged:
  assumes "contents (disk r) = (True, st, seed, active_dir env es)" "length (journal_of env es) < relay_segment_byte_limit"
  shows "wp (append_relay_event env cid obs) (\<lambda>_. logged env es r) (\<lambda>_. True) r"
proof -
  let ?s = "snapshot r" and ?Q = "\<lambda>_::u64. logged env es r" and ?E = "\<lambda>_::durable_relay. True"
  have tail: "wp (rseq (rmodify (\<lambda>r. r\<lparr>unpersisted_journal_bytes := saturating_add_u64 (unpersisted_journal_bytes r) k\<rparr>))
      (rbind (rget unpersisted_journal_bytes) (\<lambda>lag.
        rseq (rwhen (b \<or> lag \<ge> RELAY_SNAPSHOT_LAG_BYTE_LIMIT) (persist_snapshot env)) (rret n)))) ?Q ?E r'"
    if "contents (disk r') = (True, st, seed, active_dir env (es @ [ev]))" "apply_relay_event env ev ?s = Ok (snapshot r')"
      "length (event_json env ev) \<le> RELAY_EVENT_BYTE_BUDGET" for r' ev k b n
    using that assms(1) unfolding wp_rseq wp_rbind wp_rmodify wp_rget wp_rwhen wp_rret
    by (auto simp: logged_def contents_def intro!: wp_persist_contents exI [of _ ev])
  have publish: "wp (rseq (publish_event env ev staged) rest) ?Q ?E r'"
    if "stage_event env ev ?s = Ok staged" "snapshot r' = ?s" "contents (disk r') = (True, st, seed, active_dir env (es @ [ev]))"
      and "\<And>r'. contents (disk r') = (True, st, seed, active_dir env (es @ [ev])) \<Longrightarrow> apply_relay_event env ev ?s = Ok (snapshot r')
        \<Longrightarrow> wp rest ?Q ?E r'" for ev staged r' rest
    unfolding wp_rseq by (rule wp_publish_contents) (use that in simp_all)
  have body: "wp (rseq (seal_active_segment_if_needed env)
      (rseq (rdisk (append_line (event_json env ev @ [CHR 0x0A]))) (rseq (publish_event env ev staged) rest))) ?Q ?E r'"
    if "stage_event env ev ?s = Ok staged" "snapshot r' = ?s" "contents (disk r') = (True, st, seed, active_dir env es)"
      and "\<And>r'. contents (disk r') = (True, st, seed, active_dir env (es @ [ev])) \<Longrightarrow> apply_relay_event env ev ?s = Ok (snapshot r')
        \<Longrightarrow> wp rest ?Q ?E r'" for ev staged r' rest
    unfolding wp_rseq [of "seal_active_segment_if_needed env"] wp_rseq [of "rdisk _"] wp_rdisk
    by (rule wp_seal_below [OF that(3) assms(2)]; rule wp_append_line [where st = st and seed = seed]; (rule publish [OF that(1)])?) (use that in simp_all)
  show ?thesis
    unfolding append_relay_event_def Let_def
  proof (intro wp_bind_get wp_bind_lift wp_seq_lift, goal_cases)
    case (1 ordinal obs')
    show ?case
      unfolding wp_rbind [of "rdisk _"] wp_rdisk
    proof (simp add: wp_def [of "read_clock env"] read_clock_def, intro wp_bind_lift wp_seq_lift TrueI, goal_cases)
      case (1 digest u staged)
      then show ?case
        using assms(1) by (intro body tail) (auto simp: contents_def ensure_byte_budget_def split: if_splits)
    qed
  qed simp_all
qed

section \<open>Surviving a crash\<close>

definition durable :: "relay_env \<Rightarrow> string \<Rightarrow> durable_relay \<Rightarrow> bool" where
  "durable env sid r \<longleftrightarrow> (\<exists>sp old new. holds env sid (disk r) sp old new (snapshot r))"

definition segment_open :: "relay_disk \<Rightarrow> bool" where
  "segment_open d \<longleftrightarrow>
     (case bt_get (journal_dir d) RELAY_ACTIVE_SEGMENT of None \<Rightarrow> True | Some bytes \<Rightarrow> length bytes < relay_segment_byte_limit)"

lemma log_fits_append:
  assumes "log_fits env es" "length (journal_of env es) < relay_segment_byte_limit" "length (event_json env ev) \<le> RELAY_EVENT_BYTE_BUDGET"
  shows "log_fits env (es @ [ev])"
  using assms
  by (auto simp: log_fits_def journal_of_def journal_bytes_def relay_segment_byte_limit_def RELAY_SEGMENT_BYTE_LIMIT_def
      RELAY_EVENT_BYTE_BUDGET_def u64_max_def)

lemma holds_logged:
  assumes "holds env sid (disk r) sp old new (snapshot r)" "logged env (old @ new) r r'" "storable env sid (snapshot r')"
    and "length (journal_of env (old @ new)) < relay_segment_byte_limit"
  shows "\<exists>sp old new. holds env sid (disk r') sp old new (snapshot r')"
proof -
  note h = assms(1) [unfolded holds_def] and ch = holds_chained [OF assms(1)]
  obtain ev where ev: "apply_relay_event env ev (snapshot r) = Ok (snapshot r')" "length (event_json env ev) \<le> RELAY_EVENT_BYTE_BUDGET"
    "root_present (disk r')" "seed_file (disk r') = seed_file (disk r)" "journal_dir (disk r') = active_dir env ((old @ new) @ [ev])"
    "state_file (disk r') = state_file (disk r) \<or> state_file (disk r') = Some (snapshot_json env (snapshot r'))"
    using assms(2) by (auto simp: logged_def)
  have fits: "log_fits env ((old @ new) @ [ev])" using log_fits_append [OF _ assms(4) ev(2)] h by simp
  have replay: "replay env (new @ [ev]) sp = Ok (snapshot r')" using h ev(1) by (simp add: replay_append)
  from ev(6) show ?thesis
  proof
    assume "state_file (disk r') = state_file (disk r)"
    with h ev fits replay have "holds env sid (disk r') sp old (new @ [ev]) (snapshot r')" by (simp add: holds_def)
    then show ?thesis by blast
  next
    assume "state_file (disk r') = Some (snapshot_json env (snapshot r'))"
    moreover have "chained env 0 RELAY_EVENT_GENESIS_DIGEST (old @ new @ [ev])" "latest_ordinal (snapshot r') = length (old @ new @ [ev])"
      "latest_digest (snapshot r') = end_digest RELAY_EVENT_GENESIS_DIGEST (old @ new @ [ev])"
      using h replay_chained [OF replay] apply_relay_event_frontier [OF ev(1)] by (simp_all add: chained_append end_digest_def)
    ultimately have "holds env sid (disk r') (snapshot r') (old @ new @ [ev]) [] (snapshot r')"
      using h ev fits assms(3) by (simp add: holds_def)
    then show ?thesis by blast
  qed
qed

lemma append_durable:
  assumes "durable env sid r" "segment_open (disk r)" "append_relay_event env cid obs r = (Ok n, r')" "storable env sid (snapshot r')"
  shows "durable env sid r'"
proof -
  obtain sp old new where h: "holds env sid (disk r) sp old new (snapshot r)" using assms(1) by (auto simp: durable_def)
  let ?es = "old @ new"
  have "contents (disk r) = (True, state_file (disk r), seed_file (disk r), active_dir env ?es)"
    using h by (simp add: contents_def holds_def)
  moreover have below: "length (journal_of env ?es) < relay_segment_byte_limit"
    using assms(2) h by (auto simp: segment_open_def holds_def active_dir_def bt_get_def journal_of_def journal_bytes_def
        relay_segment_byte_limit_def RELAY_SEGMENT_BYTE_LIMIT_def split: if_splits)
  ultimately have "logged env ?es r r'" using wp_append_logged [of r _ _ env ?es cid obs] assms(3) by (simp add: wp_def)
  from holds_logged [OF h this assms(4) below] show ?thesis by (simp add: durable_def)
qed

lemma durable_load:
  assumes "env_ok env" "durable env sid r" "validate_identifier sid ''session ID'' = Ok ()" "latest_ordinal (snapshot r) \<le> u64_max"
    and "state_size env (snapshot_operational_state (snapshot r)) \<le> RELAY_STATE_BYTE_BUDGET"
  shows "\<exists>k spans hot d. load_relay env sid ((disk r)\<lparr>faults := []\<rparr>) = (Ok (k, spans, hot, snapshot r), d)"
proof -
  obtain sp old new where h: "holds env sid (disk r) sp old new (snapshot r)" using assms(2) by (auto simp: durable_def)
  then have "holds env sid ((disk r)\<lparr>faults := []\<rparr>) sp old new (snapshot r)" by (simp add: holds_def)
  from load_holds [OF assms(1) _ this assms(3) _ assms(5)] show ?thesis using holds_chained(2) [OF h] assms(4) by auto
qed


text \<open>A new session that records a warning: the event is only in the journal, the snapshot is not stored.\<close>

definition fresh_disk :: "io_fault list \<Rightarrow> relay_disk" where
  "fresh_disk fs = \<lparr>root_present = True, state_file = None, seed_file = None, journal_dir = [], faults = fs, clock_reads = 0\<rparr>"

definition fresh_relay :: "io_fault list \<Rightarrow> durable_relay" where
  "fresh_relay fs = opened_relay ''1'' [] [] (new_snapshot ''session1'') (fresh_disk fs)"

definition warning_event :: "i64 \<Rightarrow> relay_event" where
  "warning_event now = (new_event 1 now None (Warning ''x''))\<lparr>ev_digest := replicate 64 (CHR ''a'')\<rparr>"

definition warning_env :: relay_env where
  "warning_env = example_env [warning_event 0, warning_event 1]
     [new_snapshot ''session1'', (new_snapshot ''session1'')\<lparr>latest_ordinal := 1, latest_digest := replicate 64 (CHR ''a'')\<rparr>]"

definition warned :: "io_fault list \<Rightarrow> (relay_err, u64) outcome \<times> durable_relay" where
  "warned fs = append_relay_event warning_env None (Warning ''x'') (fresh_relay fs)"

lemma fresh_durable: "durable warning_env ''session1'' (fresh_relay [])"
proof -
  have "storable warning_env ''session1'' (new_snapshot ''session1'')" by code_simp
  then have "holds warning_env ''session1'' (fresh_disk []) (new_snapshot ''session1'') [] [] (new_snapshot ''session1'')"
    by (simp add: holds_def fresh_disk_def active_dir_def new_snapshot_def end_digest_def log_fits_def journal_of_def journal_bytes_def)
  then show ?thesis by (auto simp: durable_def fresh_relay_def opened_relay_def)
qed

lemma warned_ok:
  "fst (warned []) = Ok 1" "storable warning_env ''session1'' (snapshot (snd (warned [])))"
  "latest_ordinal (snapshot (snd (warned []))) \<le> u64_max"
  "state_size warning_env (snapshot_operational_state (snapshot (snd (warned [])))) \<le> RELAY_STATE_BYTE_BUDGET"
  "segment_open (disk (fresh_relay []))" "validate_identifier ''session1'' ''session ID'' = Ok ()"
  by code_simp+


end
