(* ===== verification/Relay_Faults.thy ===== *)
theory Relay_Faults
  imports Relay_Durability
begin

text \<open>
  What an I/O error in the middle of an append leaves behind: the append is refused, the relay keeps its
  snapshot and the command may be tried again, but the bytes that reached the active segment stay there.
  And where the recovery floor goes when a checkpoint completes.
\<close>

text \<open>The append is tried once under the given I/O behaviour and then again on the relay it leaves.\<close>

definition retried :: "io_fault list \<Rightarrow> (relay_err, u64) outcome \<times> durable_relay" where
  "retried fs = append_relay_event warning_env None (Warning ''x'') (snd (warned fs))"



section \<open>The recovery floor\<close>

lemma complete_outcome_checkpoint:
  assumes "complete_outcome n cid cmd OCheckpointCompleted s = Ok s'"
  shows "\<exists>b. cmd = CompleteCheckpoint b \<and> complete_checkpoint n b s = Ok s'"
  using assms by (auto simp: complete_outcome_def split: relay_command.splits)

text \<open>
  C31: Completing a checkpoint puts the recovery floor at the cut of its barrier. When an event that reports
  a completed checkpoint is applied, a barrier was active and ready, the floor becomes the ordinal it was
  ready at, wherever the floor was before, and the barrier is over. An advance of the floor that was
  accepted while the barrier was active is undone this way, so the floor does not only move forward.
\<close>

theorem checkpoint_sets_floor:
  assumes "apply_relay_event env ev s = Ok s'" "ev_observation ev = CommandCompleted cid OCheckpointCompleted"
  shows "\<exists>b n digest. checkpoint_barrier s = Some b \<and> checkpoint_ready_through s = Some n \<and> checkpoint_ready_digest s = Some digest
    \<and> recovery_floor_ordinal s' = n \<and> recovery_floor_digest s' = digest \<and> checkpoint_barrier s' = None"
proof -
  obtain s1 where s1: "apply_observation ev s = Ok s1" "s' = advance_frontier ev s1" using assms(1) by (auto simp: apply_relay_event_Ok)
  let ?s = "set_terminal_ordinal cid (ev_ordinal ev) (set_dispatch_state cid DCompleted s)"
  obtain d :: dispatch_record where "complete_outcome (ev_ordinal ev) cid (d_command d) OCheckpointCompleted ?s = Ok s1"
    using s1(1) assms(2) by (auto simp: apply_observation_def apply_command_completed_def split: if_splits)
  with complete_outcome_checkpoint obtain b where "complete_checkpoint (ev_ordinal ev) b ?s = Ok s1" by metis
  with s1(2) show ?thesis
    by (auto simp: complete_checkpoint_def finish_barrier_def clear_barrier_def advance_frontier_def set_terminal_ordinal_def
        set_dispatch_state_def Let_def split: if_splits)
qed

text \<open>
  The log of a session whose floor is advanced to event 4 while a barrier that is ready at event 3 is
  active, up to the start of the command that completes the checkpoint.
\<close>

definition any_digest :: string where
  "any_digest = replicate 64 (CHR ''a'')"

definition logged_event :: "u64 \<Rightarrow> string \<Rightarrow> relay_observation \<Rightarrow> relay_event" where
  "logged_event n cid obs = (new_event n 0 (Some cid) obs)\<lparr>ev_digest := any_digest\<rparr>"

definition advanced_log :: "relay_event list" where
  "advanced_log =
     [logged_event 1 ''barrier1'' (CommandQueued ''barrier1'' (BeginCheckpoint None) 0),
      logged_event 2 ''barrier1'' (CommandStarted ''barrier1'' 0),
      logged_event 3 ''barrier1'' (CheckpointReady ''barrier1'' 3),
      logged_event 4 ''notice01'' (Warning ''x''),
      logged_event 5 ''advance1'' (CommandQueued ''advance1'' (AdvanceRecoveryFloor \<lparr>cur_ordinal = 4, cur_digest = any_digest\<rparr>) 0),
      logged_event 6 ''advance1'' (CommandStarted ''advance1'' 0),
      logged_event 7 ''advance1'' (CommandCompleted ''advance1'' ORecoveryFloorAdvanced),
      logged_event 8 ''complete1'' (CommandQueued ''complete1'' (CompleteCheckpoint ''barrier1'') 0),
      logged_event 9 ''complete1'' (CommandStarted ''complete1'' 0)]"

definition advanced_snapshot :: relay_snapshot where
  "advanced_snapshot = (case replay (example_env [] []) advanced_log (new_snapshot ''session1'') of Ok s \<Rightarrow> s | _ \<Rightarrow> new_snapshot [])"

definition completing_event :: relay_event where
  "completing_event = logged_event 10 ''complete1'' (CommandCompleted ''complete1'' OCheckpointCompleted)"

definition completed_snapshot :: relay_snapshot where
  "completed_snapshot = (case apply_relay_event (example_env [] []) completing_event advanced_snapshot of Ok s \<Rightarrow> s | _ \<Rightarrow> advanced_snapshot)"

lemma completing_event_applies:
  "apply_relay_event (example_env [] []) completing_event advanced_snapshot = Ok completed_snapshot"
  "ev_observation completing_event = CommandCompleted ''complete1'' OCheckpointCompleted"
  "replay (example_env [] []) advanced_log (new_snapshot ''session1'') = Ok advanced_snapshot"
  "checkpoint_ready_through advanced_snapshot = Some 3" "recovery_floor_ordinal advanced_snapshot = 4"
  by code_simp+

theorem checkpoint_sets_floor_witness:
  "replay (example_env [] []) advanced_log (new_snapshot ''session1'') = Ok advanced_snapshot
   \<and> recovery_floor_ordinal advanced_snapshot = 4 \<and> recovery_floor_ordinal completed_snapshot = 3"
proof -
  obtain n where "checkpoint_ready_through advanced_snapshot = Some n" "recovery_floor_ordinal completed_snapshot = n"
    using checkpoint_sets_floor [OF completing_event_applies(1,2)] by blast
  then show ?thesis using completing_event_applies(3-5) by simp
qed

end
