(* ===== verification/Utf8_Text.thy ===== *)
theory Utf8_Text
  imports Prelude "HOL-Library.Monad_Syntax"
begin

text \<open>
  Rust's \<open>String\<close> as the list of its characters, for the components that edit text. Positions are byte
  offsets as in the source; an offset that is not on a character boundary makes a slice panic, which is
  the value \<open>None\<close>.
\<close>

type_synonym uchar = u32
type_synonym ustring = "uchar list"

definition len_utf8 :: "uchar \<Rightarrow> usize" where
  "len_utf8 c = (if c < 0x80 then 1 else if c < 0x800 then 2 else if c < 0x10000 then 3 else 4)"

definition byte_len :: "ustring \<Rightarrow> usize" where
  "byte_len s = sum_list (map len_utf8 s)"

fun split_bytes :: "usize \<Rightarrow> ustring \<Rightarrow> (ustring \<times> ustring) option" where
  "split_bytes n [] = (if n = 0 then Some ([], []) else None)"
| "split_bytes n (c # s) =
     (if n = 0 then Some ([], c # s)
      else if len_utf8 c \<le> n then map_option (\<lambda>(a, b). (c # a, b)) (split_bytes (n - len_utf8 c) s)
      else None)"

definition ustr_boundary :: "ustring \<Rightarrow> usize \<Rightarrow> bool" where
  "ustr_boundary s n \<longleftrightarrow> split_bytes n s \<noteq> None"

fun char_indices :: "usize \<Rightarrow> ustring \<Rightarrow> (usize \<times> uchar) list" where
  "char_indices at [] = []"
| "char_indices at (c # s) = (at, c) # char_indices (at + len_utf8 c) s"

text \<open>\<open>char::is_control\<close> and \<open>char::is_whitespace\<close>.\<close>

definition is_control :: "uchar \<Rightarrow> bool" where
  "is_control c \<longleftrightarrow> c \<le> 0x1F \<or> 0x7F \<le> c \<and> c \<le> 0x9F"

definition is_whitespace :: "uchar \<Rightarrow> bool" where
  "is_whitespace c \<longleftrightarrow>
     9 \<le> c \<and> c \<le> 13 \<or> c \<in> {0x20, 0x85, 0xA0, 0x1680, 0x2028, 0x2029, 0x202F, 0x205F, 0x3000}
     \<or> 0x2000 \<le> c \<and> c \<le> 0x200A"

definition is_ascii_uppercase_char :: "uchar \<Rightarrow> bool" where
  "is_ascii_uppercase_char c \<longleftrightarrow> 65 \<le> c \<and> c \<le> 90"

definition is_ascii_alphabetic :: "uchar \<Rightarrow> bool" where
  "is_ascii_alphabetic c \<longleftrightarrow> is_ascii_uppercase_char c \<or> 97 \<le> c \<and> c \<le> 122"

definition to_ascii_uppercase :: "uchar \<Rightarrow> uchar" where
  "to_ascii_uppercase c = (if 97 \<le> c \<and> c \<le> 122 then c - 32 else c)"

definition to_ascii_lowercase :: "uchar \<Rightarrow> uchar" where
  "to_ascii_lowercase c = (if is_ascii_uppercase_char c then c + 32 else c)"

definition ustr :: "string \<Rightarrow> ustring" where
  "ustr s = map of_char s"

text \<open>
  The bytes of a string up to the last character boundary that is not past \<open>n\<close>, and the rest: what
  \<open>while !text.is_char_boundary(n) { n -= 1 }\<close> followed by \<open>text.split_at(n)\<close> gives.
\<close>

fun take_bytes :: "usize \<Rightarrow> ustring \<Rightarrow> ustring" where
  "take_bytes n [] = []"
| "take_bytes n (c # s) = (if len_utf8 c \<le> n then c # take_bytes (n - len_utf8 c) s else [])"

definition drop_bytes :: "usize \<Rightarrow> ustring \<Rightarrow> ustring" where
  "drop_bytes n s = drop (length (take_bytes n s)) s"

fun floor_boundary :: "ustring \<Rightarrow> usize \<Rightarrow> usize" where
  "floor_boundary s 0 = 0"
| "floor_boundary s (Suc n) = (if ustr_boundary s (Suc n) then Suc n else floor_boundary s n)"

definition utrim_start :: "ustring \<Rightarrow> ustring" where
  "utrim_start s = dropWhile is_whitespace s"

definition utrim :: "ustring \<Rightarrow> ustring" where
  "utrim s = rev (dropWhile is_whitespace (rev (utrim_start s)))"

definition ustarts_with :: "ustring \<Rightarrow> ustring \<Rightarrow> bool" where
  "ustarts_with s pat \<longleftrightarrow> take (length pat) s = pat"

section \<open>Offsets\<close>

lemma len_utf8_pos [simp]: "0 < len_utf8 c" "len_utf8 c \<noteq> 0"
  by (simp_all add: len_utf8_def)

lemma len_utf8_le: "len_utf8 c \<le> 4"
  by (simp add: len_utf8_def)

lemma byte_len_simps [simp]:
  "byte_len [] = 0" "byte_len (c # s) = len_utf8 c + byte_len s" "byte_len (s @ t) = byte_len s + byte_len t"
  by (simp_all add: byte_len_def)

lemma byte_len_0 [simp]: "byte_len s = 0 \<longleftrightarrow> s = []"
  by (cases s) simp_all

lemma byte_len_rev [simp]: "byte_len (rev s) = byte_len s"
  by (induction s) simp_all

lemma split_bytes_at [simp]: "split_bytes (byte_len a) (a @ b) = Some (a, b)"
  by (induction a) (simp, cases b, simp_all)

lemma split_bytes_Some: "split_bytes n s = Some (a, b) \<longleftrightarrow> s = a @ b \<and> n = byte_len a"
proof
  show "split_bytes n s = Some (a, b) \<Longrightarrow> s = a @ b \<and> n = byte_len a"
  proof (induction s arbitrary: n a b)
    case (Cons c s)
    show ?case
    proof (cases "n = 0")
      case False
      with Cons.prems obtain a' where le: "len_utf8 c \<le> n" and a': "split_bytes (n - len_utf8 c) s = Some (a', b)" "a = c # a'"
        by (auto split: if_splits)
      from Cons.IH [OF a'(1)] le have "s = a' @ b" "n = len_utf8 c + byte_len a'" by linarith+
      with a'(2) show ?thesis by simp
    qed (use Cons.prems in simp)
  qed (simp split: if_splits)
qed simp

lemma split_bytes_0 [simp]: "split_bytes 0 s = Some ([], s)"
  by (simp add: split_bytes_Some)

lemma split_bytes_end [simp]: "split_bytes (byte_len s) s = Some (s, [])"
  by (simp add: split_bytes_Some)

lemma ustr_boundary_iff: "ustr_boundary s n \<longleftrightarrow> (\<exists>a b. s = a @ b \<and> n = byte_len a)"
proof -
  have "split_bytes n s \<noteq> None \<longleftrightarrow> (\<exists>a b. split_bytes n s = Some (a, b))" by auto
  then show ?thesis by (simp add: ustr_boundary_def split_bytes_Some)
qed

lemma append_byte_len_eq: "a @ b = a' @ b' \<Longrightarrow> byte_len a = byte_len a' \<Longrightarrow> a = a' \<and> b = b'"
  by (metis Pair_inject option.inject split_bytes_at)

lemma char_indices_shift: "char_indices (n + k) s = map (\<lambda>(i, c). (n + i, c)) (char_indices k s)"
  by (induction s arbitrary: k) (simp_all add: add.assoc)

lemma char_indices_append: "char_indices n (s @ t) = char_indices n s @ char_indices (n + byte_len s) t"
  by (induction s arbitrary: n) (simp_all add: add.assoc)

lemma map_snd_char_indices [simp]: "map snd (char_indices n s) = s"
  by (induction s arbitrary: n) simp_all

lemma char_indices_mem: "(i, c) \<in> set (char_indices n s) \<Longrightarrow> \<exists>a b. s = a @ c # b \<and> i = n + byte_len a"
proof (induction s arbitrary: n)
  case (Cons x s)
  show ?case
  proof (cases "(i, c) = (n, x)")
    case True
    then show ?thesis by (intro exI [of _ "[]"] exI [of _ s]) simp
  next
    case False
    with Cons.prems have "(i, c) \<in> set (char_indices (n + len_utf8 x) s)" by auto
    from Cons.IH [OF this] obtain a b where "s = a @ c # b" "i = n + len_utf8 x + byte_len a" by blast
    then show ?thesis by (intro exI [of _ "x # a"] exI [of _ b]) simp
  qed
qed simp

section \<open>Cutting at a boundary\<close>

lemma take_drop_bytes [simp]: "take_bytes n s @ drop_bytes n s = s"
proof -
  have "take (length (take_bytes n s)) s = take_bytes n s" by (induction n s rule: take_bytes.induct) auto
  then show ?thesis unfolding drop_bytes_def by (metis append_take_drop_id)
qed

lemma take_bytes_le: "byte_len (take_bytes n s) \<le> n"
  by (induction n s rule: take_bytes.induct) auto

lemma take_bytes_all: "byte_len s \<le> n \<Longrightarrow> take_bytes n s = s"
  by (induction n s rule: take_bytes.induct) auto

lemma take_bytes_close: "n \<le> byte_len s \<Longrightarrow> n < byte_len (take_bytes n s) + 4"
proof (induction n s rule: take_bytes.induct)
  case (2 n c s)
  show ?case
  proof (cases "len_utf8 c \<le> n")
    case True
    with 2 have "n - len_utf8 c < byte_len (take_bytes (n - len_utf8 c) s) + 4" by simp
    with True show ?thesis unfolding take_bytes.simps if_P [OF True] byte_len_simps by linarith
  qed (use len_utf8_le [of c] in simp)
qed simp

lemma byte_len_split: "byte_len (take_bytes n s) + byte_len (drop_bytes n s) = byte_len s"
  by (metis byte_len_simps(3) take_drop_bytes)

lemma byte_len_ascii: "\<forall>c \<in> set s. (of_char c :: nat) < 128 \<Longrightarrow> byte_len (ustr s) = length s"
  by (induction s) (simp_all add: ustr_def len_utf8_def)

lemma show_nat_ascii: "\<forall>c \<in> set (show_nat n). (of_char c :: nat) < 128"
proof (induction n rule: show_nat.induct)
  case (1 n)
  have "(of_char (char_of (48 + d) :: char) :: nat) = 48 + d" if "d < 10" for d :: nat
    using that by (simp add: of_char_of)
  with 1 show ?case by (subst show_nat.simps) auto
qed

lemma byte_len_show_nat [simp]: "byte_len (ustr (show_nat n)) = length (show_nat n)"
  by (rule byte_len_ascii [OF show_nat_ascii])

text \<open>The loop of the source stops at the end of \<open>take_bytes\<close>.\<close>

lemma floor_boundary_take:
  assumes "n \<le> byte_len s"
  shows "floor_boundary s n = byte_len (take_bytes n s)"
proof -
  have bound: "\<not> ustr_boundary s m" if "byte_len (take_bytes n s) < m" "m \<le> n" for m
  proof
    assume "ustr_boundary s m"
    then obtain a b where ab: "s = a @ b" "m = byte_len a" by (auto simp: ustr_boundary_iff)
    have "take_bytes k (x @ y) = x @ take_bytes (k - byte_len x) y" if "byte_len x \<le> k" for k x y
      using that by (induction x arbitrary: k) auto
    from this [of a n b] ab that(2) have "take_bytes n s = a @ take_bytes (n - m) b" by simp
    with that(1) ab(2) show False by simp
  qed
  have at: "ustr_boundary s (byte_len (take_bytes n s))" unfolding ustr_boundary_iff by (metis take_drop_bytes)
  have "floor_boundary s m = byte_len (take_bytes n s)" if "byte_len (take_bytes n s) \<le> m" "m \<le> n" for m
    using that
  proof (induction m)
    case (Suc m)
    show ?case
    proof (cases "byte_len (take_bytes n s) = Suc m")
      case True
      with at show ?thesis by simp
    next
      case False
      with Suc bound [of "Suc m"] show ?thesis by simp
    qed
  qed simp
  with take_bytes_le show ?thesis by blast
qed

end
