(* ===== verification/Text_Input.thy ===== *)
theory Text_Input
  imports Utf8_Text
begin

text \<open>
  The readline-style text field of the terminal interfaces (\<open>hel_text_input.rs\<close>): its editing
  operations, the keys bound to them, the kill buffer and the input history. The segmentation into
  grapheme clusters (the crate \<open>unicode-segmentation\<close>) is the parameter \<open>g\<close>, the list of the clusters of a
  string. A method that panics has the value \<open>None\<close>; arithmetic that would underflow panics too.
\<close>

datatype edit_outcome = Unhandled | Handled | Changed

datatype input_filter = Any | AsciiAlphabeticUppercase

record input_history =
  ih_entries :: "ustring list"
  ih_index :: "usize option"
  ih_draft :: ustring

record text_input =
  ti_value :: ustring
  ti_cursor :: usize
  kill_buffer :: ustring
  chain_kill :: bool
  max_chars :: "usize option"
  ti_filter :: input_filter
  ti_history :: "input_history option"

text \<open>The keys and modifiers of \<open>crossterm\<close> that the field tells apart.\<close>

datatype key_code =
  KChar uchar | KBackspace | KDelete | KLeft | KRight | KUp | KDown | KHome | KEnd | KOther nat

record key_modifiers =
  mod_shift :: bool
  mod_control :: bool
  mod_alt :: bool
  mod_super :: bool
  mod_other :: bool

section \<open>Insertion\<close>

definition new_input :: text_input where
  "new_input =
     \<lparr>ti_value = [], ti_cursor = 0, kill_buffer = [], chain_kill = False, max_chars = None, ti_filter = Any, ti_history = None\<rparr>"

definition leave_history :: "text_input \<Rightarrow> text_input" where
  "leave_history ti =
     (case ti_history ti of None \<Rightarrow> ti | Some h \<Rightarrow> ti\<lparr>ti_history := Some (h\<lparr>ih_index := None\<rparr>)\<rparr>)"

definition filtered_char :: "input_filter \<Rightarrow> uchar \<Rightarrow> uchar option" where
  "filtered_char f c =
     (if c = 13 \<or> c = 10 \<or> is_control c then None
      else case f of
        Any \<Rightarrow> Some c
      | AsciiAlphabeticUppercase \<Rightarrow> if \<not> is_ascii_alphabetic c then None else Some (to_ascii_uppercase c))"

definition insert_char :: "uchar \<Rightarrow> text_input \<Rightarrow> text_input option" where
  "insert_char c ti = do {
     (before, after) \<leftarrow> split_bytes (ti_cursor ti) (ti_value ti);
     Some (ti\<lparr>ti_value := before @ c # after, ti_cursor := ti_cursor ti + len_utf8 c\<rparr>) }"

fun insert_filtered :: "ustring \<Rightarrow> text_input \<Rightarrow> text_input option" where
  "insert_filtered [] ti = Some ti"
| "insert_filtered (c # text) ti =
     (case filtered_char (ti_filter ti) c of
        None \<Rightarrow> insert_filtered text ti
      | Some c' \<Rightarrow>
          if (case max_chars ti of None \<Rightarrow> False | Some m \<Rightarrow> length (ti_value ti) \<ge> m) then Some ti
          else do { ti' \<leftarrow> insert_char c' ti; insert_filtered text ti' })"

definition set_value :: "ustring \<Rightarrow> text_input \<Rightarrow> text_input option" where
  "set_value value ti = do {
     ti' \<leftarrow> insert_filtered value (ti\<lparr>ti_value := [], ti_cursor := 0\<rparr>);
     Some (leave_history (ti'\<lparr>ti_cursor := byte_len (ti_value ti')\<rparr>)) }"

definition from_value :: "ustring \<Rightarrow> text_input option" where
  "from_value value = set_value value new_input"

definition clear_input :: "text_input \<Rightarrow> text_input" where
  "clear_input ti = leave_history (ti\<lparr>ti_value := [], ti_cursor := 0\<rparr>)"

definition insert_str :: "ustring \<Rightarrow> text_input \<Rightarrow> (bool \<times> text_input) option" where
  "insert_str text ti = do {
     ti' \<leftarrow> insert_filtered text ti;
     Some (ti_value ti' \<noteq> ti_value ti, leave_history ti') }"

definition push_char :: "uchar \<Rightarrow> text_input \<Rightarrow> text_input option" where
  "push_char c ti = map_option snd (insert_str [c] ti)"

fun extend_input :: "ustring \<Rightarrow> text_input \<Rightarrow> text_input option" where
  "extend_input [] ti = Some ti"
| "extend_input (c # s) ti = do { ti' \<leftarrow> push_char c ti; extend_input s ti' }"

definition pop_char :: "text_input \<Rightarrow> uchar option \<times> text_input" where
  "pop_char ti =
     (if ti_cursor ti \<noteq> byte_len (ti_value ti) \<or> ti_value ti = [] then (None, ti)
      else let value = butlast (ti_value ti) in
        (Some (last (ti_value ti)), ti\<lparr>ti_value := value, ti_cursor := byte_len value\<rparr>))"

text \<open>\<open>char_indices().nth(max)\<close> is the start of the first character past the limit.\<close>

definition enforce_limit :: "text_input \<Rightarrow> text_input" where
  "enforce_limit ti =
     (case max_chars ti of
        None \<Rightarrow> ti
      | Some m \<Rightarrow>
          let value = (if m < length (ti_value ti) then take m (ti_value ti) else ti_value ti)
          in ti\<lparr>ti_value := value, ti_cursor := min (ti_cursor ti) (byte_len value)\<rparr>)"

definition with_max_chars :: "usize \<Rightarrow> text_input \<Rightarrow> text_input" where
  "with_max_chars m ti = enforce_limit (ti\<lparr>max_chars := Some m\<rparr>)"

definition with_filter :: "input_filter \<Rightarrow> text_input \<Rightarrow> text_input option" where
  "with_filter f ti = set_value (ti_value ti) (ti\<lparr>ti_filter := f, ti_value := []\<rparr>)"

definition set_history :: "ustring list \<Rightarrow> text_input \<Rightarrow> text_input" where
  "set_history history ti =
     ti\<lparr>ti_history := (if history \<noteq> [] then Some \<lparr>ih_entries = history, ih_index = None, ih_draft = []\<rparr> else None)\<rparr>"

definition with_cursor_marker :: "ustring \<Rightarrow> text_input \<Rightarrow> ustring option" where
  "with_cursor_marker marker ti =
     map_option (\<lambda>(before, after). before @ marker @ after) (split_bytes (ti_cursor ti) (ti_value ti))"

section \<open>Movement\<close>

fun grapheme_indices :: "usize \<Rightarrow> ustring list \<Rightarrow> usize list" where
  "grapheme_indices at [] = []"
| "grapheme_indices at (x # xs) = at # grapheme_indices (at + byte_len x) xs"

definition previous_grapheme :: "(ustring \<Rightarrow> ustring list) \<Rightarrow> ustring \<Rightarrow> usize \<Rightarrow> usize option" where
  "previous_grapheme g input cursor = do {
     (before, _) \<leftarrow> split_bytes cursor input;
     let indices = grapheme_indices 0 (g before);
     Some (if indices = [] then 0 else last indices) }"

definition next_grapheme :: "(ustring \<Rightarrow> ustring list) \<Rightarrow> ustring \<Rightarrow> usize \<Rightarrow> usize option" where
  "next_grapheme g input cursor = do {
     (_, after) \<leftarrow> split_bytes cursor input;
     let indices = grapheme_indices 0 (g after);
     Some (if 1 < length indices then cursor + indices ! 1 else byte_len input) }"

text \<open>The characters of the string as code points.\<close>

definition SEPARATORS :: ustring where
  "SEPARATORS =
     [96, 126, 33, 64, 35, 36, 37, 94, 38, 42, 40, 41, 45, 61, 43, 91, 123, 93, 125, 92, 124, 59, 58, 39, 34, 44, 46, 60,
      62, 47, 63]"

definition word_class :: "uchar \<Rightarrow> bool" where
  "word_class c \<longleftrightarrow> c \<in> set SEPARATORS"

text \<open>The loop of \<open>previous_word_start\<close> over the reversed characters of the run.\<close>

fun word_back :: "usize \<Rightarrow> bool option \<Rightarrow> usize \<Rightarrow> (usize \<times> uchar) list \<Rightarrow> usize" where
  "word_back run_start class start [] = start"
| "word_back run_start class start ((index, c) # rest) =
     (if (case class of None \<Rightarrow> False | Some k \<Rightarrow> k \<noteq> word_class c) then start
      else word_back run_start (Some (word_class c)) (run_start + index) rest)"

definition previous_word_start :: "text_input \<Rightarrow> usize option" where
  "previous_word_start ti = do {
     (prefix, _) \<leftarrow> split_bytes (ti_cursor ti) (ti_value ti);
     let trimmed = rev (dropWhile is_whitespace (rev prefix));
     if trimmed = [] then Some 0
     else do {
       let run_start = (case find (\<lambda>(_, c). is_whitespace c) (rev (char_indices 0 trimmed)) of
                          None \<Rightarrow> 0 | Some (i, c) \<Rightarrow> i + len_utf8 c);
       (_, run) \<leftarrow> split_bytes run_start trimmed;
       Some (word_back run_start None (run_start + byte_len run) (rev (char_indices 0 run))) } }"

fun word_forward :: "bool option \<Rightarrow> usize \<Rightarrow> (usize \<times> uchar) list \<Rightarrow> usize" where
  "word_forward class at [] = at"
| "word_forward class at ((index, c) # rest) =
     (if is_whitespace c then at
      else if (case class of None \<Rightarrow> False | Some k \<Rightarrow> k \<noteq> word_class c) then at
      else word_forward (Some (word_class c)) (index + len_utf8 c) rest)"

definition next_word_end :: "text_input \<Rightarrow> usize option" where
  "next_word_end ti = do {
     (_, suffix) \<leftarrow> split_bytes (ti_cursor ti) (ti_value ti);
     case find (\<lambda>(_, c). \<not> is_whitespace c) (char_indices 0 suffix) of
       None \<Rightarrow> Some (byte_len (ti_value ti))
     | Some (non_space, _) \<Rightarrow> do {
         (_, run) \<leftarrow> split_bytes non_space suffix;
         Some (ti_cursor ti + non_space + word_forward None 0 (char_indices 0 run)) } }"

definition move_to :: "usize \<Rightarrow> text_input \<Rightarrow> edit_outcome \<times> text_input" where
  "move_to cursor ti = (Handled, ti\<lparr>ti_cursor := cursor\<rparr>)"

section \<open>Deletion\<close>

text \<open>\<open>replace_range(a..b, "")\<close> together with the text it removes; a range whose start is past its end panics.\<close>

definition remove_range :: "usize \<Rightarrow> usize \<Rightarrow> ustring \<Rightarrow> (ustring \<times> ustring) option" where
  "remove_range a b s =
     (if a \<le> b then do {
        (before, rest) \<leftarrow> split_bytes a s;
        (removed, after) \<leftarrow> split_bytes (b - a) rest;
        Some (removed, before @ after) }
      else None)"

definition backspace :: "(ustring \<Rightarrow> ustring list) \<Rightarrow> text_input \<Rightarrow> (bool \<times> text_input) option" where
  "backspace g ti =
     (if ti_cursor ti = 0 then Some (False, ti)
      else do {
        start \<leftarrow> previous_grapheme g (ti_value ti) (ti_cursor ti);
        (_, value) \<leftarrow> remove_range start (ti_cursor ti) (ti_value ti);
        Some (True, leave_history (ti\<lparr>ti_value := value, ti_cursor := start\<rparr>)) })"

definition delete :: "(ustring \<Rightarrow> ustring list) \<Rightarrow> text_input \<Rightarrow> (bool \<times> text_input) option" where
  "delete g ti =
     (if ti_cursor ti = byte_len (ti_value ti) then Some (False, ti)
      else do {
        end_at \<leftarrow> next_grapheme g (ti_value ti) (ti_cursor ti);
        (_, value) \<leftarrow> remove_range (ti_cursor ti) end_at (ti_value ti);
        Some (True, leave_history (ti\<lparr>ti_value := value\<rparr>)) })"

definition kill :: "usize \<Rightarrow> usize \<Rightarrow> bool \<Rightarrow> text_input \<Rightarrow> (bool \<times> text_input) option" where
  "kill a b append_kill ti =
     (if \<not> a < b then Some (False, ti)
      else do {
        (killed, value) \<leftarrow> remove_range a b (ti_value ti);
        Some (True, leave_history (ti\<lparr>kill_buffer := (if append_kill then kill_buffer ti @ killed else killed),
                                     ti_value := value, ti_cursor := a\<rparr>)) })"

definition yank :: "text_input \<Rightarrow> (bool \<times> text_input) option" where
  "yank ti = (if kill_buffer ti = [] then Some (False, ti) else insert_str (kill_buffer ti) ti)"

section \<open>History\<close>

definition history_index :: "bool \<Rightarrow> input_history \<Rightarrow> usize option option" where
  "history_index back h =
     (case ih_index h of
        None \<Rightarrow> if back then (if ih_entries h = [] then None else Some (Some (length (ih_entries h) - 1))) else Some None
      | Some i \<Rightarrow>
          if back then Some (Some (i - 1))
          else if i + 1 < length (ih_entries h) then Some (Some (i + 1)) else Some None)"

definition move_history :: "bool \<Rightarrow> text_input \<Rightarrow> (edit_outcome \<times> text_input) option" where
  "move_history back ti =
     (case ti_history ti of
        None \<Rightarrow> Some (Unhandled, ti)
      | Some h \<Rightarrow> do {
          next_index \<leftarrow> history_index back h;
          let h' = (if ih_index h = None \<and> back then h\<lparr>ih_draft := ti_value ti\<rparr> else h);
          let value = (case next_index of
                         Some i \<Rightarrow> if i < length (ih_entries h') then ih_entries h' ! i else ih_draft h'
                       | None \<Rightarrow> ih_draft h');
          ti' \<leftarrow> set_value value (ti\<lparr>ti_history := Some h'\<rparr>);
          h'' \<leftarrow> ti_history ti';
          Some (Changed, ti'\<lparr>ti_history := Some (h''\<lparr>ih_index := next_index\<rparr>)\<rparr>) })"

section \<open>Keys\<close>

definition normalize_key :: "key_code \<Rightarrow> key_modifiers \<Rightarrow> key_code \<times> key_modifiers" where
  "normalize_key code m =
     (case code of
        KChar c \<Rightarrow>
          if \<not> (mod_shift m \<or> mod_control m \<or> mod_alt m \<or> mod_super m \<or> mod_other m) \<and> 1 \<le> c \<and> c \<le> 26
          then (KChar (c - 1 + 97), m\<lparr>mod_control := True\<rparr>)
          else if is_ascii_uppercase_char c then
            let m' = m\<lparr>mod_shift := True\<rparr>
            in (if mod_control m \<or> mod_alt m \<or> mod_super m then KChar (to_ascii_lowercase c) else code, m')
          else (code, m)
      | _ \<Rightarrow> (code, m))"

definition changed_outcome :: "bool \<times> text_input \<Rightarrow> edit_outcome \<times> text_input" where
  "changed_outcome = (\<lambda>(changed, ti). (if changed then Changed else Handled, ti))"

definition kill_word_back :: "text_input \<Rightarrow> (bool \<times> text_input) option" where
  "kill_word_back ti = do { start \<leftarrow> previous_word_start ti; kill start (ti_cursor ti) False ti }"

definition kill_word_forward :: "text_input \<Rightarrow> (bool \<times> text_input) option" where
  "kill_word_forward ti = do { end_at \<leftarrow> next_word_end ti; kill (ti_cursor ti) end_at False ti }"

text \<open>\<open>Ctrl-K\<close>: a kill that follows another one is appended to it.\<close>

definition kill_line :: "bool \<Rightarrow> text_input \<Rightarrow> (bool \<times> text_input) option" where
  "kill_line chained ti =
     map_option (\<lambda>(changed, ti'). (changed, ti'\<lparr>chain_kill := True\<rparr>)) (kill (ti_cursor ti) (byte_len (ti_value ti)) chained ti)"

definition move_where :: "usize option \<Rightarrow> text_input \<Rightarrow> (edit_outcome \<times> text_input) option" where
  "move_where target ti = map_option (\<lambda>cursor. move_to cursor ti) target"

text \<open>The characters are \<open>a e b f h d u k w y p n\<close>.\<close>

definition control_key :: "(ustring \<Rightarrow> ustring list) \<Rightarrow> bool \<Rightarrow> key_code \<Rightarrow> text_input \<Rightarrow> (edit_outcome \<times> text_input) option" where
  "control_key g chained code ti =
     (if code = KChar 97 then Some (move_to 0 ti)
      else if code = KChar 101 then Some (move_to (byte_len (ti_value ti)) ti)
      else if code = KChar 98 then move_where (previous_grapheme g (ti_value ti) (ti_cursor ti)) ti
      else if code = KChar 102 then move_where (next_grapheme g (ti_value ti) (ti_cursor ti)) ti
      else if code = KChar 104 then map_option changed_outcome (backspace g ti)
      else if code = KChar 100 then map_option changed_outcome (delete g ti)
      else if code = KChar 117 then map_option changed_outcome (kill 0 (ti_cursor ti) False ti)
      else if code = KChar 107 then map_option changed_outcome (kill_line chained ti)
      else if code = KChar 119 \<or> code = KBackspace then map_option changed_outcome (kill_word_back ti)
      else if code = KChar 121 then map_option changed_outcome (yank ti)
      else if code = KLeft then move_where (previous_word_start ti) ti
      else if code = KRight then move_where (next_word_end ti) ti
      else if code = KDelete then map_option changed_outcome (kill_word_forward ti)
      else if code = KChar 112 \<or> code = KUp then move_history True ti
      else if code = KChar 110 \<or> code = KDown then move_history False ti
      else Some (Unhandled, ti))"

definition alt_key :: "key_code \<Rightarrow> text_input \<Rightarrow> (edit_outcome \<times> text_input) option" where
  "alt_key code ti =
     (if code = KChar 98 \<or> code = KLeft then move_where (previous_word_start ti) ti
      else if code = KChar 102 \<or> code = KRight then move_where (next_word_end ti) ti
      else if code = KChar 100 \<or> code = KDelete then map_option changed_outcome (kill_word_forward ti)
      else if code = KBackspace then map_option changed_outcome (kill_word_back ti)
      else Some (Unhandled, ti))"

definition plain_key :: "(ustring \<Rightarrow> ustring list) \<Rightarrow> key_modifiers \<Rightarrow> key_code \<Rightarrow> text_input \<Rightarrow> (edit_outcome \<times> text_input) option" where
  "plain_key g m code ti =
     (case code of
        KLeft \<Rightarrow> move_where (previous_grapheme g (ti_value ti) (ti_cursor ti)) ti
      | KRight \<Rightarrow> move_where (next_grapheme g (ti_value ti) (ti_cursor ti)) ti
      | KHome \<Rightarrow> Some (move_to 0 ti)
      | KEnd \<Rightarrow> Some (move_to (byte_len (ti_value ti)) ti)
      | KBackspace \<Rightarrow> map_option changed_outcome (backspace g ti)
      | KDelete \<Rightarrow> map_option changed_outcome (delete g ti)
      | KUp \<Rightarrow> move_history True ti
      | KDown \<Rightarrow> move_history False ti
      | KChar c \<Rightarrow>
          if \<not> mod_super m \<and> \<not> is_control c then map_option changed_outcome (insert_str [c] ti) else Some (Unhandled, ti)
      | KOther _ \<Rightarrow> Some (Unhandled, ti))"

definition handle_key :: "(ustring \<Rightarrow> ustring list) \<Rightarrow> key_code \<Rightarrow> key_modifiers \<Rightarrow> text_input \<Rightarrow> (edit_outcome \<times> text_input) option" where
  "handle_key g code m ti =
     (let (code, m) = normalize_key code m;
          chained = chain_kill ti;
          ti = ti\<lparr>chain_kill := False\<rparr>
      in if mod_control m then control_key g chained code ti
         else if mod_alt m then alt_key code ti
         else plain_key g m code ti)"

section \<open>Well-formed fields\<close>

definition admissible :: "input_filter \<Rightarrow> uchar \<Rightarrow> bool" where
  "admissible f c \<longleftrightarrow> filtered_char f c = Some c"

definition history_wf :: "input_history \<Rightarrow> bool" where
  "history_wf h \<longleftrightarrow>
     ih_entries h \<noteq> [] \<and> (case ih_index h of None \<Rightarrow> True | Some i \<Rightarrow> i < length (ih_entries h))"

definition input_wf :: "text_input \<Rightarrow> bool" where
  "input_wf ti \<longleftrightarrow>
     ustr_boundary (ti_value ti) (ti_cursor ti)
     \<and> (\<forall>c \<in> set (ti_value ti). admissible (ti_filter ti) c)
     \<and> (case max_chars ti of None \<Rightarrow> True | Some m \<Rightarrow> length (ti_value ti) \<le> m)
     \<and> (case ti_history ti of None \<Rightarrow> True | Some h \<Rightarrow> history_wf h)"

text \<open>The clusters of a string are its parts, none of them empty.\<close>

definition graphemes_ok :: "(ustring \<Rightarrow> ustring list) \<Rightarrow> bool" where
  "graphemes_ok g \<longleftrightarrow> (\<forall>s. concat (g s) = s \<and> [] \<notin> set (g s))"

section \<open>What insertion does\<close>

definition admitted :: "text_input \<Rightarrow> ustring \<Rightarrow> ustring" where
  "admitted ti text = List.map_filter (filtered_char (ti_filter ti)) text"

definition inserted :: "text_input \<Rightarrow> ustring \<Rightarrow> ustring" where
  "inserted ti text =
     (case max_chars ti of None \<Rightarrow> admitted ti text | Some m \<Rightarrow> take (m - length (ti_value ti)) (admitted ti text))"

lemma admitted_simps [simp]:
  "admitted ti [] = []"
  "admitted ti (c # s) = (case filtered_char (ti_filter ti) c of None \<Rightarrow> admitted ti s | Some c' \<Rightarrow> c' # admitted ti s)"
  by (simp_all add: admitted_def map_filter_simps split: option.split)

lemma filtered_char_idem: "filtered_char f c = Some c' \<Longrightarrow> admissible f c'"
  by (auto simp: admissible_def filtered_char_def is_control_def is_ascii_alphabetic_def is_ascii_uppercase_char_def
      to_ascii_uppercase_def split: if_splits input_filter.splits)

lemma admitted_admissible: "c \<in> set (admitted ti text) \<Longrightarrow> admissible (ti_filter ti) c"
  by (induction "text") (auto intro: filtered_char_idem split: option.splits)

lemma inserted_admissible: "c \<in> set (inserted ti text) \<Longrightarrow> admissible (ti_filter ti) c"
  by (auto simp: inserted_def intro: admitted_admissible dest: in_set_takeD split: option.splits)

lemma admitted_id: "\<forall>c \<in> set text. admissible (ti_filter ti) c \<Longrightarrow> admitted ti text = text"
  by (induction "text") (auto simp: admissible_def)

lemma insert_filtered_spec:
  assumes "ti_value ti = a @ b" "ti_cursor ti = byte_len a"
  shows "insert_filtered text ti =
    Some (ti\<lparr>ti_value := a @ inserted ti text @ b, ti_cursor := byte_len (a @ inserted ti text)\<rparr>)"
  using assms
proof (induction "text" arbitrary: ti a)
  case Nil
  then show ?case by (simp add: inserted_def split: option.split)
next
  case (Cons c rest)
  show ?case
  proof (cases "filtered_char (ti_filter ti) c")
    case None
    with Cons.IH [OF Cons.prems] show ?thesis by (simp add: inserted_def split: option.split)
  next
    case (Some c')
    let ?full = "case max_chars ti of None \<Rightarrow> False | Some m \<Rightarrow> length (ti_value ti) \<ge> m"
    show ?thesis
    proof (cases ?full)
      case True
      then have "inserted ti (c # rest) = []" by (auto simp: inserted_def split: option.splits)
      with True Some Cons.prems show ?thesis by simp
    next
      case False
      let ?ti = "ti\<lparr>ti_value := (a @ [c']) @ b, ti_cursor := byte_len (a @ [c'])\<rparr>"
      have ins: "insert_char c' ti = Some ?ti" using Cons.prems by (simp add: insert_char_def)
      have "inserted ti (c # rest) = c' # inserted ?ti rest"
        using False Some Cons.prems by (auto simp: inserted_def admitted_def take_Cons' not_le split: option.splits)
      with Cons.IH [of ?ti "a @ [c']"] False Some ins show ?thesis by simp
    qed
  qed
qed

lemma leave_history_simps [simp]:
  "ti_value (leave_history ti) = ti_value ti" "ti_cursor (leave_history ti) = ti_cursor ti"
  "kill_buffer (leave_history ti) = kill_buffer ti" "max_chars (leave_history ti) = max_chars ti"
  "ti_filter (leave_history ti) = ti_filter ti" "chain_kill (leave_history ti) = chain_kill ti"
  "ti_history (leave_history ti) = map_option (\<lambda>h. h\<lparr>ih_index := None\<rparr>) (ti_history ti)"
  by (simp_all add: leave_history_def split: option.split)

lemma input_wf_split:
  assumes "input_wf ti"
  obtains a b where "ti_value ti = a @ b" "ti_cursor ti = byte_len a"
  using assms by (auto simp: input_wf_def ustr_boundary_iff)

lemma input_wf_edit:
  assumes "input_wf ti" "ustr_boundary v n" "\<forall>c \<in> set v. admissible (ti_filter ti) c"
    and "case max_chars ti of None \<Rightarrow> True | Some m \<Rightarrow> length v \<le> m"
  shows "input_wf (leave_history (ti\<lparr>ti_value := v, ti_cursor := n, kill_buffer := k\<rparr>))"
    "input_wf (leave_history (ti\<lparr>ti_value := v, ti_cursor := n\<rparr>))"
  using assms by (auto simp: input_wf_def history_wf_def split: option.splits)

lemma set_value_spec:
  fixes v :: ustring
  defines "v' \<equiv> \<lambda>ti. inserted (ti\<lparr>ti_value := []\<rparr>) v"
  shows "set_value v ti = Some (leave_history (ti\<lparr>ti_value := v' ti, ti_cursor := byte_len (v' ti)\<rparr>))"
proof -
  have "inserted (ti\<lparr>ti_value := [], ti_cursor := 0\<rparr>) v = v' ti" by (simp add: v'_def inserted_def admitted_def split: option.split)
  then show ?thesis
    using insert_filtered_spec [of "ti\<lparr>ti_value := [], ti_cursor := 0\<rparr>" "[]" "[]" v] by (simp add: set_value_def)
qed

lemma insert_str_spec:
  assumes "ti_value ti = a @ b" "ti_cursor ti = byte_len a"
  shows "insert_str t ti = Some (inserted ti t \<noteq> [],
    leave_history (ti\<lparr>ti_value := a @ inserted ti t @ b, ti_cursor := byte_len (a @ inserted ti t)\<rparr>))"
  using insert_filtered_spec [OF assms] assms(1) by (simp add: insert_str_def)

section \<open>Where movement goes\<close>

lemma grapheme_indices_snoc: "grapheme_indices n (xs @ [x]) = grapheme_indices n xs @ [n + byte_len (concat xs)]"
  by (induction xs arbitrary: n) (simp_all add: add.assoc)

lemma length_grapheme_indices [simp]: "length (grapheme_indices n xs) = length xs"
  by (induction xs arbitrary: n) simp_all

lemma previous_grapheme_at:
  assumes "graphemes_ok g"
  shows "\<exists>p q. previous_grapheme g (a @ b) (byte_len a) = Some (byte_len p) \<and> a = p @ q \<and> (a \<noteq> [] \<longrightarrow> q \<noteq> [])"
proof (cases "g a" rule: rev_cases)
  case Nil
  then have "a = []" using assms by (metis concat.simps(1) graphemes_ok_def)
  with Nil show ?thesis by (intro exI [of _ "[]"]) (simp add: previous_grapheme_def)
next
  case (snoc xs x)
  then have "a = concat xs @ x" "x \<noteq> []" using assms by (metis concat_append concat.simps append_Nil2 graphemes_ok_def,
      metis graphemes_ok_def in_set_conv_decomp)
  moreover from snoc have "previous_grapheme g (a @ b) (byte_len a) = Some (byte_len (concat xs))"
    by (simp add: previous_grapheme_def grapheme_indices_snoc)
  ultimately show ?thesis by blast
qed

lemma next_grapheme_at:
  assumes "graphemes_ok g"
  shows "\<exists>p q. next_grapheme g (a @ b) (byte_len a) = Some (byte_len (a @ p)) \<and> b = p @ q \<and> (b \<noteq> [] \<longrightarrow> p \<noteq> [])"
proof (cases "g b")
  case Nil
  then have "b = []" using assms by (metis concat.simps(1) graphemes_ok_def)
  with Nil show ?thesis by (intro exI [of _ "[]"]) (simp add: next_grapheme_def)
next
  case (Cons x xs)
  then have b: "b = x @ concat xs" "x \<noteq> []" using assms by (metis concat.simps(2) graphemes_ok_def,
      metis graphemes_ok_def list.set_intros(1))
  show ?thesis
  proof (cases xs)
    case Nil
    with Cons b have "next_grapheme g (a @ b) (byte_len a) = Some (byte_len (a @ x))" by (simp add: next_grapheme_def)
    with b show ?thesis by blast
  next
    case (Cons y ys)
    with \<open>g b = x # xs\<close> have "next_grapheme g (a @ b) (byte_len a) = Some (byte_len (a @ x))" by (simp add: next_grapheme_def)
    with b show ?thesis by blast
  qed
qed

lemma word_back_cases:
  "word_back r k start xs = start \<or> (\<exists>i c. (i, c) \<in> set xs \<and> word_back r k start xs = r + i)"
  by (induction r k start xs rule: word_back.induct) auto

lemma word_forward_cases:
  "word_forward k at xs = at \<or> (\<exists>i c. (i, c) \<in> set xs \<and> word_forward k at xs = i + len_utf8 c)"
  by (induction k at xs rule: word_forward.induct) auto

lemma find_index:
  assumes "find P (rev (char_indices 0 s)) = Some (i, c) \<or> find P (char_indices 0 s) = Some (i, c)"
  shows "\<exists>x y. s = x @ c # y \<and> i = byte_len x"
proof -
  have "(i, c) \<in> set (char_indices 0 s)" using assms by (auto simp: find_Some_iff) (metis nth_mem set_rev length_rev)
  from char_indices_mem [OF this] show ?thesis by simp
qed

lemma word_back_at:
  "\<exists>p q. word_back (byte_len x) None (byte_len x + byte_len run) (rev (char_indices 0 run)) = byte_len p \<and> x @ run = p @ q"
    (is "\<exists>p q. ?w = _ \<and> _")
proof -
  consider "?w = byte_len (x @ run)" | i c where "(i, c) \<in> set (char_indices 0 run)" "?w = byte_len x + i"
    using word_back_cases [of "byte_len x" None "byte_len x + byte_len run" "rev (char_indices 0 run)"] by auto
  then show ?thesis
  proof cases
    case 1
    then show ?thesis by blast
  next
    case 2
    from char_indices_mem [OF 2(1)] obtain u v where "run = u @ c # v" "i = byte_len u" by auto
    with 2(2) have "?w = byte_len (x @ u)" "x @ run = (x @ u) @ c # v" by simp_all
    then show ?thesis by blast
  qed
qed

lemma previous_word_start_at:
  assumes "ti_value ti = a @ b" "ti_cursor ti = byte_len a"
  shows "\<exists>p q. previous_word_start ti = Some (byte_len p) \<and> a = p @ q"
proof -
  define t where "t = rev (dropWhile is_whitespace (rev a))"
  have a: "a = t @ rev (takeWhile is_whitespace (rev a))" unfolding t_def by (metis rev_append rev_rev_ident takeWhile_dropWhile_id)
  define r where "r = (case find (\<lambda>(_, c). is_whitespace c) (rev (char_indices 0 t)) of None \<Rightarrow> 0 | Some (i, c) \<Rightarrow> i + len_utf8 c)"
  obtain x y where t: "t = x @ y" "r = byte_len x"
  proof (cases "find (\<lambda>(_, c). is_whitespace c) (rev (char_indices 0 t))")
    case None
    then show ?thesis by (intro that [of "[]" t]) (simp_all add: r_def)
  next
    case (Some ic)
    then obtain i c where ic: "find (\<lambda>(_, c). is_whitespace c) (rev (char_indices 0 t)) = Some (i, c)" by (cases ic) simp
    with find_index [of _ t i c] obtain u v where "t = u @ c # v" "i = byte_len u" by blast
    with ic show ?thesis by (intro that [of "u @ [c]" v]) (simp_all add: r_def)
  qed
  have split: "split_bytes (ti_cursor ti) (ti_value ti) = Some (a, b)" "split_bytes r t = Some (x, y)" using assms t by simp_all
  have "previous_word_start ti = (if t = [] then Some 0 else Some (word_back r None (r + byte_len y) (rev (char_indices 0 y))))"
    by (simp add: previous_word_start_def split(1) Let_def t_def [symmetric] r_def [symmetric] split(2)
        del: rev_is_Nil_conv dropWhile_eq_Nil_conv)
  moreover obtain p q where "word_back r None (r + byte_len y) (rev (char_indices 0 y)) = byte_len p" "t = p @ q"
    using word_back_at [of x y] t by blast
  ultimately show ?thesis using a by (cases "t = []") (auto intro: exI [of _ "[]"])
qed

lemma word_forward_at: "\<exists>p q. word_forward None 0 (char_indices 0 run) = byte_len p \<and> run = p @ q"
proof -
  consider "word_forward None 0 (char_indices 0 run) = 0"
    | i c where "(i, c) \<in> set (char_indices 0 run)" "word_forward None 0 (char_indices 0 run) = i + len_utf8 c"
    using word_forward_cases [of None 0 "char_indices 0 run"] by metis
  then show ?thesis
  proof cases
    case 1
    then have "word_forward None 0 (char_indices 0 run) = byte_len []" "run = [] @ run" by simp_all
    then show ?thesis by blast
  next
    case 2
    from char_indices_mem [OF 2(1)] obtain u v where "run = (u @ [c]) @ v" "i = byte_len u" by auto
    with 2(2) have "word_forward None 0 (char_indices 0 run) = byte_len (u @ [c])" by simp
    with \<open>run = (u @ [c]) @ v\<close> show ?thesis by blast
  qed
qed

lemma next_word_end_at:
  assumes "ti_value ti = a @ b" "ti_cursor ti = byte_len a"
  shows "\<exists>p q. next_word_end ti = Some (byte_len (a @ p)) \<and> b = p @ q"
proof (cases "find (\<lambda>(_, c). \<not> is_whitespace c) (char_indices 0 b)")
  case None
  then have "next_word_end ti = Some (byte_len (a @ b))" using assms by (simp add: next_word_end_def)
  then show ?thesis by blast
next
  case (Some ic)
  then obtain i c where ic: "find (\<lambda>(_, c). \<not> is_whitespace c) (char_indices 0 b) = Some (i, c)" by (cases ic) simp
  with find_index [of _ b i c] obtain x y where b: "b = x @ c # y" "i = byte_len x" by blast
  obtain p q where pq: "word_forward None 0 (char_indices 0 (c # y)) = byte_len p" "c # y = p @ q" using word_forward_at by blast
  have "split_bytes i b = Some (x, c # y)" by (simp add: b)
  with ic assms pq(1) have "next_word_end ti = Some (byte_len (a @ x @ p))" by (simp add: next_word_end_def b(2))
  moreover have "b = (x @ p) @ q" using b(1) pq(2) by simp
  ultimately show ?thesis by blast
qed

section \<open>Every key keeps the field well formed\<close>

definition stays_wf :: "('a \<times> text_input) option \<Rightarrow> bool" where
  "stays_wf m \<longleftrightarrow> (case m of None \<Rightarrow> False | Some (_, ti) \<Rightarrow> input_wf ti)"

lemma stays_wf_Some [simp]: "stays_wf (Some (x, ti)) \<longleftrightarrow> input_wf ti" "\<not> stays_wf None"
  by (simp_all add: stays_wf_def)

lemma stays_wf_outcome [simp]: "stays_wf (map_option changed_outcome m) \<longleftrightarrow> stays_wf m"
  by (auto simp: stays_wf_def changed_outcome_def split: option.split)

lemma remove_range_at: "remove_range (byte_len x) (byte_len (x @ y)) (x @ y @ z) = Some (y, x @ z)"
  by (simp add: remove_range_def)

lemma input_wf_remove:
  assumes "input_wf ti" "ti_value ti = x @ y @ z"
  shows "input_wf (leave_history (ti\<lparr>ti_value := x @ z, ti_cursor := byte_len x, kill_buffer := k\<rparr>))"
    "input_wf (leave_history (ti\<lparr>ti_value := x @ z, ti_cursor := byte_len x\<rparr>))"
  using assms by (auto simp: ustr_boundary_iff input_wf_def history_wf_def split: option.splits)

lemma kill_at:
  assumes "ti_value ti = x @ y @ z"
  shows "kill (byte_len x) (byte_len (x @ y)) ap ti =
    Some (y \<noteq> [], if y = [] then ti
      else leave_history (ti\<lparr>ti_value := x @ z, ti_cursor := byte_len x, kill_buffer := (if ap then kill_buffer ti @ y else y)\<rparr>))"
proof -
  have "remove_range (byte_len x) (byte_len (x @ y)) (ti_value ti) = Some (y, x @ z)" unfolding assms by (rule remove_range_at)
  moreover have "byte_len x < byte_len (x @ y) \<longleftrightarrow> y \<noteq> []" by (cases y) simp_all
  ultimately show ?thesis by (simp add: kill_def)
qed

lemma input_wf_move: "input_wf ti \<Longrightarrow> ti_value ti = p @ q \<Longrightarrow> input_wf (ti\<lparr>ti_cursor := byte_len p\<rparr>)"
  by (auto simp: input_wf_def ustr_boundary_iff split: option.splits)

lemma input_wf_flag [simp]: "input_wf (ti\<lparr>chain_kill := x\<rparr>) = input_wf ti"
  by (simp add: input_wf_def split: option.split)

lemma insert_str_wf:
  assumes "input_wf ti"
  shows "stays_wf (insert_str t ti)"
proof -
  obtain a b where ab: "ti_value ti = a @ b" "ti_cursor ti = byte_len a" using input_wf_split [OF assms] .
  have fit: "length (inserted ti t) \<le> m - length (ti_value ti)" "length (ti_value ti) \<le> m" if "max_chars ti = Some m" for m
    using assms that by (simp_all add: inserted_def input_wf_def)
  have "ustr_boundary ((a @ inserted ti t) @ b) (byte_len (a @ inserted ti t))" unfolding ustr_boundary_iff by blast
  moreover have "\<forall>c \<in> set (a @ inserted ti t @ b). admissible (ti_filter ti) c"
    using assms ab(1) by (auto simp: input_wf_def intro: inserted_admissible)
  ultimately show ?thesis
    using fit ab(1) unfolding insert_str_spec [OF ab] stays_wf_Some
    by (intro input_wf_edit(2) [OF assms]) (auto split: option.split)
qed

lemma yank_wf: "input_wf ti \<Longrightarrow> stays_wf (yank ti)"
  by (simp add: yank_def insert_str_wf)

lemma backspace_wf:
  assumes "graphemes_ok g" "input_wf ti"
  shows "stays_wf (backspace g ti)"
proof -
  obtain a b where ab: "ti_value ti = a @ b" "ti_cursor ti = byte_len a" using input_wf_split [OF assms(2)] .
  obtain p q where pq: "previous_grapheme g (a @ b) (byte_len a) = Some (byte_len p)" "a = p @ q"
    using previous_grapheme_at [OF assms(1), of a b] by blast
  have "remove_range (byte_len p) (byte_len a) (a @ b) = Some (q, p @ b)" using remove_range_at [of p q b] by (simp add: pq(2))
  with ab pq(1) input_wf_remove(2) [OF assms(2), of p q b] assms(2) show ?thesis by (simp add: backspace_def pq(2))
qed

lemma delete_wf:
  assumes "graphemes_ok g" "input_wf ti"
  shows "stays_wf (delete g ti)"
proof -
  obtain a b where ab: "ti_value ti = a @ b" "ti_cursor ti = byte_len a" using input_wf_split [OF assms(2)] .
  obtain p q where pq: "next_grapheme g (a @ b) (byte_len a) = Some (byte_len (a @ p))" "b = p @ q"
    using next_grapheme_at [OF assms(1), of a b] by blast
  have "input_wf (leave_history (ti\<lparr>ti_value := a @ q\<rparr>))"
    using input_wf_remove(2) [OF assms(2), of a p q] ab pq(2) by (cases ti) simp
  moreover have "remove_range (byte_len a) (byte_len (a @ p)) (a @ b) = Some (p, a @ q)" using remove_range_at [of a p q] by (simp add: pq(2))
  ultimately show ?thesis
    using ab pq(1) assms(2) by (simp add: delete_def pq(2))
qed

lemma kill_wf:
  assumes "input_wf ti" "ti_value ti = x @ y @ z"
  shows "stays_wf (kill (byte_len x) (byte_len (x @ y)) ap ti)"
  using input_wf_remove(1) [OF assms] assms(1) by (simp add: kill_at [OF assms(2)] del: byte_len_simps)

lemma kill_word_wf:
  assumes "input_wf ti"
  shows "stays_wf (kill_word_back ti)" "stays_wf (kill_word_forward ti)" "stays_wf (kill 0 (ti_cursor ti) False ti)"
    "stays_wf (kill_line chained ti)"
proof -
  obtain a b where ab: "ti_value ti = a @ b" "ti_cursor ti = byte_len a" using input_wf_split [OF assms] .
  obtain p q where pq: "previous_word_start ti = Some (byte_len p)" "a = p @ q" using previous_word_start_at [OF ab] by blast
  obtain p' q' where pq': "next_word_end ti = Some (byte_len (a @ p'))" "b = p' @ q'" using next_word_end_at [OF ab] by blast
  show "stays_wf (kill_word_back ti)"
    using kill_wf [OF assms, of p q b] ab pq by (simp add: kill_word_back_def)
  show "stays_wf (kill_word_forward ti)"
    using kill_wf [OF assms, of a p' q'] ab pq' by (simp add: kill_word_forward_def)
  show "stays_wf (kill 0 (ti_cursor ti) False ti)"
    using kill_wf [OF assms, of "[]" a b] ab by simp
  have "stays_wf (kill (ti_cursor ti) (byte_len (ti_value ti)) chained ti)"
    using kill_wf [OF assms, of a b "[]"] ab by simp
  then show "stays_wf (kill_line chained ti)"
    by (auto simp: kill_line_def stays_wf_def split: option.splits)
qed

lemma set_value_wf:
  assumes "case ti_history ti of None \<Rightarrow> True | Some h \<Rightarrow> history_wf h"
  shows "\<exists>ti'. set_value v ti = Some ti' \<and> input_wf ti' \<and> ti_history ti' = map_option (\<lambda>h. h\<lparr>ih_index := None\<rparr>) (ti_history ti)
    \<and> ti_filter ti' = ti_filter ti \<and> max_chars ti' = max_chars ti"
proof -
  let ?v = "inserted (ti\<lparr>ti_value := []\<rparr>) v"
  have "\<forall>c \<in> set ?v. admissible (ti_filter ti) c" using inserted_admissible [of _ "ti\<lparr>ti_value := []\<rparr>" v] by simp
  moreover have "case max_chars ti of None \<Rightarrow> True | Some m \<Rightarrow> length ?v \<le> m" by (simp add: inserted_def split: option.split)
  moreover have "ustr_boundary ?v (byte_len ?v)" by (simp add: ustr_boundary_def)
  ultimately have "input_wf (leave_history (ti\<lparr>ti_value := ?v, ti_cursor := byte_len ?v\<rparr>))"
    using assms by (auto simp: input_wf_def history_wf_def split: option.splits)
  then show ?thesis unfolding set_value_spec by simp
qed

lemma history_index_wf:
  assumes "history_wf h"
  shows "\<exists>i. history_index back h = Some i \<and> (case i of None \<Rightarrow> True | Some k \<Rightarrow> k < length (ih_entries h))"
  using assms by (auto simp: history_wf_def history_index_def split: option.splits)

lemma move_history_wf:
  assumes "input_wf ti"
  shows "stays_wf (move_history back ti)"
proof (cases "ti_history ti")
  case None
  with assms show ?thesis by (simp add: move_history_def)
next
  case (Some h)
  with assms have h: "history_wf h" by (simp add: input_wf_def)
  obtain i where i: "history_index back h = Some i" "case i of None \<Rightarrow> True | Some k \<Rightarrow> k < length (ih_entries h)"
    using history_index_wf [OF h] by blast
  define h' where "h' = (if ih_index h = None \<and> back then h\<lparr>ih_draft := ti_value ti\<rparr> else h)"
  define v where "v = (case i of Some k \<Rightarrow> if k < length (ih_entries h') then ih_entries h' ! k else ih_draft h' | None \<Rightarrow> ih_draft h')"
  have h': "history_wf h'" "ih_entries h' = ih_entries h" using h by (simp_all add: h'_def history_wf_def)
  with set_value_wf [of "ti\<lparr>ti_history := Some h'\<rparr>" v]
  obtain ti' where ti': "set_value v (ti\<lparr>ti_history := Some h'\<rparr>) = Some ti'" "input_wf ti'" "ti_history ti' = Some (h'\<lparr>ih_index := None\<rparr>)"
    by auto
  then have "move_history back ti = Some (Changed, ti'\<lparr>ti_history := Some (h'\<lparr>ih_index := i\<rparr>)\<rparr>)"
    by (simp add: move_history_def Some i(1) h'_def [symmetric] v_def [symmetric] Let_def)
  moreover have "history_wf (h'\<lparr>ih_index := i\<rparr>)" using h' h i(2) by (simp add: history_wf_def split: option.splits)
  ultimately show ?thesis using ti'(2) by (auto simp: input_wf_def split: option.splits)
qed

lemma move_where_wf:
  assumes "graphemes_ok g" "input_wf ti"
  shows "stays_wf (move_where (previous_grapheme g (ti_value ti) (ti_cursor ti)) ti)"
    "stays_wf (move_where (next_grapheme g (ti_value ti) (ti_cursor ti)) ti)"
    "stays_wf (move_where (previous_word_start ti) ti)" "stays_wf (move_where (next_word_end ti) ti)"
    "stays_wf (Some (move_to 0 ti))" "stays_wf (Some (move_to (byte_len (ti_value ti)) ti))"
proof -
  obtain a b where ab: "ti_value ti = a @ b" "ti_cursor ti = byte_len a" using input_wf_split [OF assms(2)] .
  have to: "stays_wf (move_where target ti)" if "target = Some (byte_len p)" "ti_value ti = p @ q" for target p q
    using input_wf_move [OF assms(2) that(2)] that(1) by (simp add: move_where_def move_to_def)
  obtain p1 q1 where "previous_grapheme g (a @ b) (byte_len a) = Some (byte_len p1)" "a = p1 @ q1"
    using previous_grapheme_at [OF assms(1), of a b] by blast
  then show "stays_wf (move_where (previous_grapheme g (ti_value ti) (ti_cursor ti)) ti)" using to [of _ p1 "q1 @ b"] ab by simp
  obtain p2 q2 where "next_grapheme g (a @ b) (byte_len a) = Some (byte_len (a @ p2))" "b = p2 @ q2"
    using next_grapheme_at [OF assms(1), of a b] by blast
  then show "stays_wf (move_where (next_grapheme g (ti_value ti) (ti_cursor ti)) ti)" using to [of _ "a @ p2" q2] ab by simp
  obtain p3 q3 where "previous_word_start ti = Some (byte_len p3)" "a = p3 @ q3" using previous_word_start_at [OF ab] by blast
  then show "stays_wf (move_where (previous_word_start ti) ti)" using to [of _ p3 "q3 @ b"] ab by simp
  obtain p4 q4 where "next_word_end ti = Some (byte_len (a @ p4))" "b = p4 @ q4" using next_word_end_at [OF ab] by blast
  then show "stays_wf (move_where (next_word_end ti) ti)" using to [of _ "a @ p4" q4] ab by simp
  show "stays_wf (Some (move_to 0 ti))" "stays_wf (Some (move_to (byte_len (ti_value ti)) ti))"
    using input_wf_move [OF assms(2), of "[]" "ti_value ti"] input_wf_move [OF assms(2), of "ti_value ti" "[]"] by (simp_all add: move_to_def)
qed

lemma handle_key_wf:
  assumes "graphemes_ok g" "input_wf ti"
  shows "stays_wf (handle_key g code m ti)"
proof -
  let ?ti = "ti\<lparr>chain_kill := False\<rparr>"
  have wf: "input_wf ?ti" using assms(2) by simp
  note ops = move_where_wf [OF assms(1) wf] kill_word_wf [OF wf] backspace_wf [OF assms(1) wf] delete_wf [OF assms(1) wf]
    yank_wf [OF wf] insert_str_wf [OF wf] move_history_wf [OF wf]
  have "stays_wf (control_key g chained k ?ti)" for k chained unfolding control_key_def using ops wf by auto
  moreover have "stays_wf (alt_key k ?ti)" for k unfolding alt_key_def using ops wf by auto
  moreover have "stays_wf (plain_key g m' k ?ti)" for m' k unfolding plain_key_def using ops wf by (auto split: key_code.split)
  ultimately show ?thesis by (auto simp: handle_key_def Let_def split: prod.split)
qed

section \<open>Properties\<close>

text \<open>A field that was made by \<open>new\<close> and changed by its methods only.\<close>

inductive edited :: "(ustring \<Rightarrow> ustring list) \<Rightarrow> text_input \<Rightarrow> bool" for g where
  new: "edited g new_input"
| key: "edited g ti \<Longrightarrow> handle_key g code m ti = Some (out, ti') \<Longrightarrow> edited g ti'"
| inserted: "edited g ti \<Longrightarrow> insert_str s ti = Some (changed, ti') \<Longrightarrow> edited g ti'"
| assigned: "edited g ti \<Longrightarrow> set_value v ti = Some ti' \<Longrightarrow> edited g ti'"
| cleared: "edited g ti \<Longrightarrow> edited g (clear_input ti)"
| popped: "edited g ti \<Longrightarrow> pop_char ti = (c, ti') \<Longrightarrow> edited g ti'"
| limited: "edited g ti \<Longrightarrow> edited g (with_max_chars n ti)"
| filtered: "edited g ti \<Longrightarrow> with_filter f ti = Some ti' \<Longrightarrow> edited g ti'"
| history: "edited g ti \<Longrightarrow> edited g (set_history entries ti)"

lemma stays_wfD: "stays_wf m \<Longrightarrow> m = Some (x, ti) \<Longrightarrow> input_wf ti"
  by simp

lemma clear_input_wf: "input_wf ti \<Longrightarrow> input_wf (clear_input ti)"
  unfolding clear_input_def by (rule input_wf_edit(2)) (auto simp: ustr_boundary_def split: option.split)

lemma pop_char_wf: "input_wf ti \<Longrightarrow> pop_char ti = (c, ti') \<Longrightarrow> input_wf ti'"
  using in_set_butlastD [of _ "ti_value ti"]
  by (auto simp: pop_char_def Let_def input_wf_def ustr_boundary_def split: if_splits option.splits)

lemma with_max_chars_wf:
  assumes "input_wf ti"
  shows "input_wf (with_max_chars n ti)"
proof -
  obtain a b where ab: "ti_value ti = a @ b" "ti_cursor ti = byte_len a" using input_wf_split [OF assms] .
  have "ustr_boundary (take n (a @ b)) (min (byte_len a) (byte_len (take n (a @ b))))"
  proof (cases "n \<le> length a")
    case True
    then have "byte_len (take n a) \<le> byte_len a" by (metis append_take_drop_id byte_len_simps(3) le_add1)
    with True show ?thesis by (simp add: ustr_boundary_def min_def)
  next
    case False
    then have "take n (a @ b) = a @ take (n - length a) b" by simp
    then show ?thesis unfolding ustr_boundary_iff by (metis byte_len_simps(3) le_add1 min.absorb1)
  qed
  moreover have "\<forall>c \<in> set (take n (a @ b)). admissible (ti_filter ti) c" using assms ab(1) by (auto simp: input_wf_def dest: in_set_takeD)
  moreover have "length (take n (a @ b)) \<le> n" by simp
  moreover have "with_max_chars n ti =
      ti\<lparr>max_chars := Some n, ti_value := take n (a @ b), ti_cursor := min (byte_len a) (byte_len (take n (a @ b)))\<rparr>"
    using ab by (simp add: with_max_chars_def enforce_limit_def Let_def)
  ultimately show ?thesis using assms by (simp add: input_wf_def del: take_append split: option.splits)
qed

lemma edited_wf:
  assumes "graphemes_ok g" "edited g ti"
  shows "input_wf ti"
  using assms(2)
proof induction
  case new
  then show ?case by (simp add: input_wf_def new_input_def ustr_boundary_def)
next
  case (key ti code m out ti')
  with handle_key_wf [OF assms(1)] show ?case by (metis stays_wfD)
next
  case (inserted ti s changed ti')
  with insert_str_wf show ?case by (metis stays_wfD)
next
  case (assigned ti v ti')
  with set_value_wf [of ti v] show ?case by (auto simp: input_wf_def)
next
  case (filtered ti f ti')
  with set_value_wf [of "ti\<lparr>ti_filter := f, ti_value := []\<rparr>" "ti_value ti"] show ?case by (auto simp: with_filter_def input_wf_def)
next
  case (history ti entries)
  then show ?case by (auto simp: set_history_def input_wf_def history_wf_def split: option.splits)
qed (blast intro: clear_input_wf pop_char_wf with_max_chars_wf)+

text \<open>
  C7: A text field never panics and stays well formed. Whatever methods and keys changed it since it was
  made, its cursor is on a character boundary of its value, every character passed the filter, the limit
  on characters holds and the history index is in range; every key, with any modifiers, is handled
  without a panic, and the field can be drawn with its cursor.
\<close>

theorem text_field_never_panics:
  assumes "graphemes_ok g" "edited g ti"
  shows "input_wf ti \<and> (\<exists>out ti'. handle_key g code m ti = Some (out, ti')) \<and> (\<exists>s. with_cursor_marker mark ti = Some s)"
proof -
  have wf: "input_wf ti" using edited_wf [OF assms] .
  with handle_key_wf [OF assms(1) wf, of code m] show ?thesis
    by (auto simp: stays_wf_def with_cursor_marker_def input_wf_def ustr_boundary_def split: option.splits)
qed

definition by_chars :: "ustring \<Rightarrow> ustring list" where
  "by_chars s = map (\<lambda>c. [c]) s"

definition no_modifiers :: key_modifiers where
  "no_modifiers = \<lparr>mod_shift = False, mod_control = False, mod_alt = False, mod_super = False, mod_other = False\<rparr>"

lemma graphemes_by_chars: "graphemes_ok by_chars"
  by (auto simp: graphemes_ok_def by_chars_def)

definition typed_field :: text_input where
  "typed_field = snd (the (handle_key by_chars (KChar 0xE9) no_modifiers new_input))"

lemma typed_field_edited: "edited by_chars typed_field" "ti_value typed_field = [0xE9]" "ti_cursor typed_field = 2"
proof -
  have "handle_key by_chars (KChar 0xE9) no_modifiers new_input = Some (Changed, typed_field)" by code_simp
  from edited.key [OF edited.new this] show "edited by_chars typed_field" .
qed code_simp+

theorem text_field_never_panics_witness:
  "input_wf typed_field \<and> (\<exists>out ti'. handle_key by_chars KBackspace no_modifiers typed_field = Some (out, ti'))
   \<and> (\<exists>s. with_cursor_marker [124] typed_field = Some s)"
  using text_field_never_panics [OF graphemes_by_chars typed_field_edited(1)] by blast

text \<open>
  C37: Inserting text splices it at the cursor. The value is cut at the cursor; what goes in between is
  the text without line breaks and control characters, filtered, and as much of it as the limit leaves
  room for; the cursor ends behind it, and the call reports a change exactly if something went in.
\<close>

theorem insert_splices:
  assumes "input_wf ti"
  shows "\<exists>a b. ti_value ti = a @ b \<and> ti_cursor ti = byte_len a \<and>
    insert_str t ti = Some (inserted ti t \<noteq> [],
      leave_history (ti\<lparr>ti_value := a @ inserted ti t @ b, ti_cursor := byte_len (a @ inserted ti t)\<rparr>))"
  using input_wf_split [OF assms] insert_str_spec [of ti _ _ t] by metis

theorem insert_splices_witness:
  "\<exists>a b. ti_value typed_field = a @ b \<and> ti_cursor typed_field = byte_len a \<and>
    insert_str [10, 120] typed_field = Some (inserted typed_field [10, 120] \<noteq> [],
      leave_history (typed_field\<lparr>ti_value := a @ inserted typed_field [10, 120] @ b,
        ti_cursor := byte_len (a @ inserted typed_field [10, 120])\<rparr>))"
  using insert_splices [OF edited_wf [OF graphemes_by_chars typed_field_edited(1)]] by blast

text \<open>
  C36: Yanking what was just killed restores the field. After a kill of any range, the yank puts the text
  back in its place and leaves the cursor at the end of it: neither the filter nor the limit on
  characters gets in the way.
\<close>

theorem yank_undoes_kill:
  assumes "input_wf ti" "kill i j False ti = Some (True, ti')"
  shows "\<exists>ti''. yank ti' = Some (True, ti'') \<and> ti_value ti'' = ti_value ti \<and> ti_cursor ti'' = j"
proof -
  obtain x y z where v: "ti_value ti = x @ y @ z" "i = byte_len x" "j = byte_len (x @ y)"
    using assms(2) by (auto simp: kill_def remove_range_def split_bytes_Some split: if_splits bind_splits)
  then have ti': "y \<noteq> []" "ti' = leave_history (ti\<lparr>ti_value := x @ z, ti_cursor := byte_len x, kill_buffer := y\<rparr>)"
    using assms(2) kill_at [OF v(1), of False] by (auto split: if_splits)
  have "\<forall>c \<in> set y. admissible (ti_filter ti) c" using assms(1) v(1) by (auto simp: input_wf_def)
  then have "inserted ti' y = y"
    using assms(1) v(1) admitted_id [of y ti'] by (auto simp: ti'(2) inserted_def input_wf_def split: option.splits)
  with insert_str_spec [of ti' x z y] ti' v show ?thesis by (simp add: yank_def)
qed

theorem yank_undoes_kill_witness:
  "\<exists>ti''. yank (snd (the (kill 0 2 False typed_field))) = Some (True, ti'') \<and> ti_value ti'' = ti_value typed_field \<and> ti_cursor ti'' = 2"
proof -
  have "kill 0 2 False typed_field = Some (True, snd (the (kill 0 2 False typed_field)))" by code_simp
  from yank_undoes_kill [OF edited_wf [OF graphemes_by_chars typed_field_edited(1)] this] show ?thesis .
qed

text \<open>Repeated steps through the history.\<close>

fun walk_history :: "bool \<Rightarrow> nat \<Rightarrow> text_input \<Rightarrow> text_input option" where
  "walk_history back 0 ti = Some ti"
| "walk_history back (Suc k) ti = do { (_, ti') \<leftarrow> move_history back ti; walk_history back k ti' }"

text \<open>A field that shows entry \<open>i\<close> of the history, or none, and keeps the draft \<open>d\<close>.\<close>

definition shows_entry :: "text_input \<Rightarrow> ustring list \<Rightarrow> ustring \<Rightarrow> usize option \<Rightarrow> text_input \<Rightarrow> bool" where
  "shows_entry ti0 es d i ti \<longleftrightarrow>
     ti_history ti = Some \<lparr>ih_entries = es, ih_index = i, ih_draft = d\<rparr> \<and> ti_filter ti = ti_filter ti0 \<and> max_chars ti = max_chars ti0"

lemma move_history_shows:
  assumes "shows_entry ti0 es d i ti" "i \<noteq> None \<or> \<not> back" "history_index back \<lparr>ih_entries = es, ih_index = i, ih_draft = d\<rparr> = Some j"
  shows "\<exists>ti'. move_history back ti = Some (Changed, ti') \<and> shows_entry ti0 es d j ti' \<and>
    (j = None \<longrightarrow> ti_value ti' = inserted (ti0\<lparr>ti_value := []\<rparr>) d)"
  using assms by (auto simp: move_history_def shows_entry_def Let_def set_value_spec inserted_def admitted_def split: option.splits)

lemma walk_back:
  assumes "shows_entry ti0 es d (Some i) ti" "k \<le> i" "i < length es"
  shows "\<exists>ti'. walk_history True k ti = Some ti' \<and> shows_entry ti0 es d (Some (i - k)) ti'"
  using assms
proof (induction k arbitrary: i ti)
  case (Suc k)
  from move_history_shows [OF Suc.prems(1), of True "Some (i - 1)"] obtain ti1 where
    "move_history True ti = Some (Changed, ti1)" "shows_entry ti0 es d (Some (i - 1)) ti1" by (auto simp: history_index_def)
  with Suc.IH [of "i - 1" ti1] Suc.prems(2,3) show ?case by auto
qed auto

lemma walk_forward:
  assumes "shows_entry ti0 es d (Some i) ti" "i < length es"
  shows "\<exists>ti'. walk_history False (length es - i) ti = Some ti' \<and> shows_entry ti0 es d None ti' \<and>
    ti_value ti' = inserted (ti0\<lparr>ti_value := []\<rparr>) d"
  using assms
proof (induction "length es - i" arbitrary: i ti)
  case (Suc k)
  let ?h = "\<lparr>ih_entries = es, ih_index = Some i, ih_draft = d\<rparr>"
  show ?case
  proof (cases "i + 1 < length es")
    case True
    with move_history_shows [OF Suc.prems(1), of False "Some (i + 1)"] obtain ti1 where
      ti1: "move_history False ti = Some (Changed, ti1)" "shows_entry ti0 es d (Some (i + 1)) ti1" by (auto simp: history_index_def)
    have "length es - i = Suc (length es - (i + 1))" using True by simp
    with Suc.hyps(1) [OF _ ti1(2)] Suc.hyps(2) ti1(1) True show ?thesis by simp
  next
    case False
    with Suc.prems(2) have "length es - i = Suc 0" by simp
    with move_history_shows [OF Suc.prems(1), of False None] False show ?thesis by (auto simp: history_index_def)
  qed
qed simp


definition recalling_field :: text_input where
  "recalling_field = set_history [[97], [98]] typed_field"


text \<open>
  C39: A step forward in a field that is not showing a history entry throws the edited text away: its
  value becomes the draft that was saved by the last step back, which is empty when there was none.
\<close>

theorem history_forward_discards_text:
  assumes "ti_history ti = Some h" "ih_index h = None"
  shows "\<exists>ti'. move_history False ti = Some (Changed, ti') \<and> ti_value ti' = inserted (ti\<lparr>ti_value := []\<rparr>) (ih_draft h)"
  using assms by (simp add: move_history_def history_index_def Let_def set_value_spec inserted_def admitted_def split: option.splits)

theorem history_forward_discards_text_witness:
  "ti_value recalling_field = [0xE9] \<and> (\<exists>ti'. move_history False recalling_field = Some (Changed, ti') \<and> ti_value ti' = [])"
proof -
  have "ti_history recalling_field = Some \<lparr>ih_entries = [[97], [98]], ih_index = None, ih_draft = []\<rparr>"
    "ti_value recalling_field = [0xE9]" by code_simp+
  with history_forward_discards_text [of recalling_field] show ?thesis by (auto simp: inserted_def split: option.splits)
qed

end
