(* ===== verification/Terminal_Text.thy ===== *)
theory Terminal_Text
  imports Utf8_Text
begin

text \<open>
  Untrusted text on its way to the terminal (\<open>sanitize_terminal_text\<close> in \<open>hel_chat/rendering.rs\<close>): escape
  sequences and control characters are removed. The iterator over the characters is the list of those
  that are left.
\<close>

fun consume_string_body :: "ustring \<Rightarrow> bool \<times> ustring" where
  "consume_string_body [] = (False, [])"
| "consume_string_body (c # s) =
     (if c \<in> {10, 13, 0x18, 0x1A} then (False, c # s)
      else if c = 7 then (False, s)
      else if c = 0x1B then (True, s)
      else consume_string_body s)"

text \<open>The characters are \<open>[\<close>, then \<open>] P X ^ _\<close>, then \<open>( ) * + - . / # % space\<close>.\<close>

definition consume_escape_body :: "ustring \<Rightarrow> bool \<times> ustring" where
  "consume_escape_body s =
     (case s of
        [] \<Rightarrow> (False, [])
      | c # rest \<Rightarrow>
          if c = 91 then (False, drop 1 (dropWhile (\<lambda>ch. \<not> (64 \<le> ch \<and> ch \<le> 126)) rest))
          else if c \<in> {93, 80, 88, 94, 95} then consume_string_body rest
          else if c \<in> {40, 41, 42, 43, 45, 46, 47, 35, 37, 32} then (False, drop 1 rest)
          else (False, rest))"

lemma consume_string_body_length: "length (snd (consume_string_body s)) \<le> length s"
  by (induction s rule: consume_string_body.induct) auto

lemma consume_escape_body_length: "length (snd (consume_escape_body s)) \<le> length s"
proof (cases s)
  case (Cons c rest)
  have "length (drop 1 (dropWhile P rest)) \<le> length rest" for P :: "uchar \<Rightarrow> bool"
    using length_dropWhile_le [of P rest] by simp
  with Cons consume_string_body_length [of rest] show ?thesis by (auto simp: consume_escape_body_def intro: le_SucI)
qed (simp add: consume_escape_body_def)

lemma consume_escape_body_again: "consume_escape_body s = (True, r) \<Longrightarrow> length r < length s"
  using consume_string_body_length [of "tl s"]
  by (auto simp: consume_escape_body_def split: list.splits if_splits)

function skip_escapes :: "ustring \<Rightarrow> ustring" where
  "skip_escapes s = (case consume_escape_body s of (again, rest) \<Rightarrow> if again then skip_escapes rest else rest)"
  by pat_completeness auto
termination
  by (relation "measure length") (auto dest: consume_escape_body_again [OF sym])

declare skip_escapes.simps [simp del]

lemma skip_escapes_length: "length (skip_escapes s) \<le> length s"
proof (induction s rule: skip_escapes.induct)
  case (1 s)
  obtain again rest where r: "consume_escape_body s = (again, rest)" by fastforce
  with consume_escape_body_length [of s] 1 [OF r [symmetric]] show ?case by (subst skip_escapes.simps) (auto simp: r)
qed

function sanitize_terminal_text :: "ustring \<Rightarrow> ustring" where
  "sanitize_terminal_text [] = []"
| "sanitize_terminal_text (c # s) =
     (if c = 0x1B then sanitize_terminal_text (skip_escapes s)
      else if c = 13 then (if take 1 s = [10] then [] else [10]) @ sanitize_terminal_text s
      else if c = 10 \<or> c = 9 \<or> \<not> is_control c then c # sanitize_terminal_text s
      else sanitize_terminal_text s)"
  by pat_completeness auto
termination
  by (relation "measure length") (auto simp: less_Suc_eq_le skip_escapes_length)

definition plain_char :: "uchar \<Rightarrow> bool" where
  "plain_char c \<longleftrightarrow> c = 10 \<or> c = 9 \<or> \<not> is_control c"

lemma sanitized_plain: "list_all plain_char (sanitize_terminal_text s)"
  by (induction s rule: sanitize_terminal_text.induct) (auto simp: plain_char_def)

lemma plain_unchanged: "list_all plain_char s \<Longrightarrow> sanitize_terminal_text s = s"
  by (induction s rule: sanitize_terminal_text.induct) (auto simp: plain_char_def is_control_def)

text \<open>
  C40: Text shown in the terminal carries no control sequences. What \<open>sanitize_terminal_text\<close> returns holds no
  escape and no control character but line feeds and tabs, whatever sequences were nested or cut off in
  the input, and text that is already clean is returned unchanged, so that sanitizing twice is the same
  as sanitizing once.
\<close>

theorem sanitized_text_is_plain:
  "list_all plain_char (sanitize_terminal_text s)
   \<and> sanitize_terminal_text (sanitize_terminal_text s) = sanitize_terminal_text s
   \<and> (list_all plain_char s = (sanitize_terminal_text s = s))"
  using sanitized_plain [of s] plain_unchanged [of "sanitize_terminal_text s"] plain_unchanged [of s] by metis

end
