(* ===== verification/Spec2Isabelle.thy ===== *)
theory Spec2Isabelle
  imports Worker_Refinement Hidden_Context Relay_Faults Text_Input Terminal_Text Compaction
begin

text \<open>
  Verification of the Hel worker: the durable relay that keeps one coding-agent session alive on a
  target, and the daemon around it. The sources are under \<open>src/src\<close>; the worker is
  \<open>hel_worker.rs\<close> with \<open>hel_worker/\<close>, \<open>hel_worker_protocol.rs\<close>, \<open>hel_worker_runtime/unix.rs\<close>,
  \<open>hel_user_shell.rs\<close> and \<open>hel_diff.rs\<close>. Three self-contained parts of the controller are verified
  too: the compaction of a transcript (\<open>hel_compaction.rs\<close>), the text field of the terminal interfaces
  (\<open>hel_text_input.rs\<close>) and the sanitizing of text for the terminal (\<open>hel_chat/rendering.rs\<close>).

  \<^bold>\<open>The program.\<close> Controllers connect to a worker over a socket and send requests, one JSON line each:
  they submit commands (prompts, configuration, shells, checkpoints, close), read the session's
  events from a cursor, and acknowledge them. The relay appends every event to a journal of segment
  files, folds it into a snapshot, and persists the snapshot. A coordinator claims the commands that
  are due, hands them to the agent's runtime or to a user shell, and records what these report.
  A checkpoint barrier stops dispatch at a cut of the journal from which an archive can be taken.

  \<^bold>\<open>Conventions.\<close> A method \<open>&mut self -> Result\<close> is a function from the state to an outcome (\<open>Ok\<close>,
  \<open>Err\<close>, or \<open>Diverges\<close> for a loop that does not end) and the state it leaves, which is there for
  errors too. A \<open>BTreeMap\<close> is a sorted association list behind the locale \<open>ordered_map\<close>. Strings are
  lists of bytes, except in \<open>Text_Input\<close>, \<open>Terminal_Text\<close> and \<open>Compaction\<close>, which work on characters.
  A panic is the value \<open>None\<close> in \<open>Text_Input\<close>. Machine integers are natural numbers with the bounds and the saturating, checked or
  wrapping operations of the source written out. Code outside the repository is a parameter: the
  records \<open>relay_env\<close> (serde_json, sha2, flate2, the clock), \<open>diff_env\<close> (the diff crate) and
  \<open>runtime_env\<close> (the ACP schema), the model behind a \<open>compaction_backend\<close> and the grapheme clusters of a
  text field, with what is relied on in \<open>env_ok\<close>, \<open>codec_ok\<close>, \<open>diff_env_ok\<close> and \<open>graphemes_ok\<close>;
  \<open>example_env\<close> instantiates the first. The files of a worker root are the record \<open>relay_disk\<close>, whose
  \<open>faults\<close> script says which operations fail and how many bytes a failing write moved.
  Error messages keep the format string and its arguments, not the rendered text, and a \<open>context\<close>
  added around an error is left out.

  \<^bold>\<open>Theories.\<close>
  \<^item> \<open>Prelude\<close>: outcomes and methods with their weakest preconditions (\<open>wp\<close>, \<open>wp_simps\<close>), ordered maps,
    integers, byte strings.
  \<^item> \<open>Relay_Types\<close>, \<open>Relay_Snapshot\<close> (\<open>hel_worker/snapshot.rs\<close>): the data, and \<open>apply_relay_event\<close> on
    every observation.
  \<^item> \<open>Relay_Clamp\<close> (\<open>clamp_observation\<close>), \<open>Hel_Diff\<close> (\<open>hel_diff.rs\<close>), \<open>Hidden_Context\<close>
    (\<open>strip_hidden_prompt_context\<close>).
  \<^item> \<open>Relay_Protocol\<close> (\<open>hel_worker/protocol.rs\<close>, \<open>hel_worker_protocol.rs\<close>): requests, responses,
    version negotiation, decoding.
  \<^item> \<open>Relay_Reader\<close>, \<open>Relay_Disk\<close>, \<open>Relay_Store\<close>, \<open>Relay_Journal\<close>, \<open>Relay_Replay\<close>
    (\<open>hel_worker/journal.rs\<close> and parts of \<open>hel_worker.rs\<close>): reading segments, the files, appending,
    sealing and collecting, opening, replaying from a cursor.
  \<^item> \<open>Relay_Queries\<close>, \<open>Relay_Commands\<close>, \<open>Relay_Service\<close> (\<open>hel_worker.rs\<close>): scheduling, the operations
    of \<open>DurableRelay\<close>, opening a root, answering a request, the JSON-lines loop.
  \<^item> \<open>User_Shell\<close>, \<open>Worker_Coordinator\<close>, \<open>Worker_Connection\<close>: shells, the coordinator's loop, and the
    connections of controllers.
  \<^item> \<open>Relay_Machine\<close>: the abstract specification, a step relation on snapshots. \<open>Relay_Invariant\<close>,
    \<open>Relay_Preservation\<close>, \<open>Relay_Steps\<close>, \<open>Relay_Safety\<close>: its invariant \<open>relay_inv\<close> and what follows.
  \<^item> \<open>Relay_Refinement\<close>, \<open>Relay_Methods\<close>, \<open>Relay_Calls\<close>, \<open>Relay_Recovery\<close>: every method of the relay,
    whatever files fail under it, moves the snapshot only by steps of the machine (\<open>refines\<close>).
    \<open>Worker_Safety\<close>, \<open>Worker_Dispatch\<close>, \<open>Worker_Refinement\<close>: so does the worker as a whole.
  \<^item> \<open>Relay_Durability\<close>, \<open>Relay_Faults\<close>: what a worker root holds, that opening it reads the snapshot in
    memory back, what I/O errors in the middle of an append leave behind, and where a completed
    checkpoint puts the recovery floor.
  \<^item> \<open>Utf8_Text\<close>: text as a list of characters with byte offsets. \<open>Text_Input\<close> (\<open>TextInput\<close>), \<open>Terminal_Text\<close>
    (\<open>sanitize_terminal_text\<close>) and \<open>Compaction\<close> (\<open>compact_snapshot\<close> and everything it calls).
  \<^item> \<open>Relay_Example\<close>: the concrete environment used by witnesses.

  \<^bold>\<open>What is shown.\<close> The machine keeps a well-formed ledger, queue, turn, barrier, close state, shells
  and frontiers; a barrier quiesces the session; one turn runs at a time; the queue is promoted in
  order; closed sessions and finished commands stay so. The worker refines the machine under any
  interleaving and any I/O failure, hands the agent only fresh commands that are durably in flight,
  and releases the barriers of a connection that ends. The journal scan is independent of how bytes
  arrive and reads back what was written. An event whose append succeeded survives a crash: opening
  the root again gives the snapshot that was in memory. An append that fails half way and is tried
  again leaves a root that cannot be opened (\<open>Relay_Faults\<close>). Clamping fits its budget when it returns, and it is shown
  when it returns and when it does not. Patches, output windows, version negotiation and the context
  stripper have their functional contracts. A text field never panics and stays well formed under any
  keys; kill and yank, and walking the history, are round trips. Sanitized text is free of control
  sequences. Compaction returns, keeps every request within the context budget, loses no byte of an
  oversized turn, prunes only old tool outputs, and writes handoffs it recognizes.

  \<^bold>\<open>Bounds.\<close> No fuel is used for the relay: its loops are structural or have termination proofs, and
  the one loop that may run forever (\<open>clamp_loop\<close>) has \<open>Diverges\<close> as its value then. A replay page
  is tried \<open>REPLAN_ATTEMPTS\<close> times, as in the source.

  \<^bold>\<open>Not modelled.\<close> Sealing, collecting and restored seeds are modelled, but survival of a crash is shown
  only for a history that is still in the active segment. A turn of the coordinator and a request are each one step: requests served between
  two lock sections of the same turn are not interleaved. The agent's runtime (\<open>hel_acp.rs\<close>) is its
  event and command types only. Sockets, processes and the contents of credential, skill and memory
  files are operating-system I/O. The texts of JSON content that compaction reads
  (\<open>materialized_content_text\<close>, \<open>materialized_chunks_text\<close>) are parameters. The rest of the controller, its database, the checkpoint archives, the terminal
  and desktop user interfaces and the command line are not part of the worker; the manifest lists
  them.
\<close>

end
